(* ===== verification/Prelude.thy ===== *)
theory Prelude
  imports Main "HOL-Library.Word" "HOL-Library.Multiset" "HOL-Library.Signed_Division"
begin

text \<open>
  The prelude of the development: what the C++ sources use of the language and of
  its standard library, as executable HOL functions, together with the generic lemmas
  the component theories share.

  \<^item> strings are \<open>string\<close> (a list of 8-bit characters, as \<open>std::string\<close>);
    \<open>npos\<close> is \<open>None\<close>; a \<open>std::string_view\<close> is the string it views;
  \<^item> \<open>std::int64_t\<close> values are \<open>int\<close>; every narrowing \<open>static_cast\<close> is written out
    (\<open>int32_of\<close>, \<open>int64_of\<close>, \<open>uint16_of\<close>, \<open>uint64_of\<close>);
  \<^item> bytes that come from a random source or a hash are \<open>8 word\<close>;
  \<^item> \<open>std::stable_sort\<close> is \<open>stable_sort\<close>, characterised by the locale
    \<open>strict_weak\<close> (sorted, a permutation, stable, and the only such list);
  \<^item> \<open>emplace\<close> and the id indexes built with it are \<open>emplace\<close> and \<open>build_index\<close>;
  \<^item> the locale \<open>inductive_invariant\<close> lifts a property kept by every step to every
    reachable state.
\<close>

section \<open>Collections of facts\<close>

named_theorems find_facts \<open>what a successful or failed search says about the string\<close>

named_theorems width_facts \<open>bounds of the fixed-width integer conversions\<close>

section \<open>Bytes and fixed-width integers\<close>

type_synonym byte = "8 word"

definition char_code :: "char \<Rightarrow> nat" where
  "char_code c = of_char c"

definition int32_of :: "int \<Rightarrow> int" where
  "int32_of i = signed_take_bit 31 i"

definition int64_of :: "int \<Rightarrow> int" where
  "int64_of i = signed_take_bit 63 i"

definition uint16_of :: "int \<Rightarrow> int" where
  "uint16_of i = take_bit 16 i"

definition uint64_of :: "int \<Rightarrow> int" where
  "uint64_of i = take_bit 64 i"

definition int64_min :: int where
  "int64_min = - (2 ^ 63)"

definition int64_max :: int where
  "int64_max = 2 ^ 63 - 1"

definition in_int64 :: "int \<Rightarrow> bool" where
  "in_int64 i \<longleftrightarrow> int64_min \<le> i \<and> i \<le> int64_max"

section \<open>Exceptions\<close>

text \<open>A computation that may throw: the left value is the exception.\<close>

definition sum_bind :: "'e + 'a \<Rightarrow> ('a \<Rightarrow> 'e + 'b) \<Rightarrow> 'e + 'b" where
  "sum_bind m f = (case m of Inl e \<Rightarrow> Inl e | Inr a \<Rightarrow> f a)"

section \<open>Searching strings\<close>

text \<open>\<open>s.find(c)\<close>\<close>

fun find_char :: "char \<Rightarrow> string \<Rightarrow> nat option" where
  "find_char c [] = None"
| "find_char c (x # xs) = (if x = c then Some 0 else map_option Suc (find_char c xs))"

text \<open>\<open>s.starts_with(p)\<close>\<close>

fun starts_with :: "string \<Rightarrow> string \<Rightarrow> bool" where
  "starts_with s [] = True"
| "starts_with [] (p # ps) = False"
| "starts_with (x # xs) (p # ps) = (x = p \<and> starts_with xs ps)"

text \<open>\<open>s.find(needle)\<close>\<close>

fun find_sub :: "string \<Rightarrow> string \<Rightarrow> nat option" where
  "find_sub needle [] = (if needle = [] then Some 0 else None)"
| "find_sub needle (x # xs) =
     (if starts_with (x # xs) needle then Some 0 else map_option Suc (find_sub needle xs))"

definition contains :: "string \<Rightarrow> string \<Rightarrow> bool" where
  "contains s needle \<longleftrightarrow> find_sub needle s \<noteq> None"

section \<open>Decimal numbers\<close>

definition digit_char :: "nat \<Rightarrow> char" where
  "digit_char n = char_of (48 + n)"

definition is_digit :: "char \<Rightarrow> bool" where
  "is_digit c \<longleftrightarrow> 48 \<le> char_code c \<and> char_code c \<le> 57"

text \<open>\<open>std::to_string\<close> on integers.\<close>

fun nat_to_string :: "nat \<Rightarrow> string" where
  "nat_to_string n =
     (if n < 10 then [digit_char n] else nat_to_string (n div 10) @ [digit_char (n mod 10)])"

declare nat_to_string.simps [simp del]

definition int_to_string :: "int \<Rightarrow> string" where
  "int_to_string i = (if i < 0 then CHR ''-'' # nat_to_string (nat (- i)) else nat_to_string (nat i))"

definition digits_value :: "string \<Rightarrow> nat" where
  "digits_value ds = foldl (\<lambda>acc c. 10 * acc + (char_code c - 48)) 0 ds"

text \<open>
  \<open>std::from_chars\<close> into a signed type with range \<open>lo..hi\<close>: an optional minus sign
  (no plus sign, no white space) and the longest run of digits. The result is the value
  and the unread rest; \<open>None\<close> is \<open>ec != std::errc{}\<close> (no digit, or out of range).
\<close>

definition from_chars :: "int \<Rightarrow> int \<Rightarrow> string \<Rightarrow> (int \<times> string) option" where
  "from_chars lo hi s =
     (let neg = (s \<noteq> [] \<and> hd s = CHR ''-'');
          body = (if neg then tl s else s);
          ds = takeWhile is_digit body;
          v = (if neg then - int (digits_value ds) else int (digits_value ds))
      in if ds = [] \<or> v < lo \<or> hi < v then None else Some (v, dropWhile is_digit body))"

section \<open>Maps built by emplace\<close>

text \<open>\<open>m.emplace(k, v)\<close>: an existing entry is kept.\<close>

definition emplace :: "('k \<rightharpoonup> 'v) \<Rightarrow> 'k \<Rightarrow> 'v \<Rightarrow> ('k \<rightharpoonup> 'v)" where
  "emplace m k v = (if m k = None then m(k \<mapsto> v) else m)"

text \<open>\<open>for (i = 0; i < xs.size(); ++i) m.emplace(key(xs[i]), i)\<close>\<close>

fun index_from :: "('a \<Rightarrow> 'k) \<Rightarrow> nat \<Rightarrow> 'a list \<Rightarrow> ('k \<rightharpoonup> nat) \<Rightarrow> ('k \<rightharpoonup> nat)" where
  "index_from key i [] m = m"
| "index_from key i (x # xs) m = index_from key (Suc i) xs (emplace m (key x) i)"

definition build_index :: "('a \<Rightarrow> 'k) \<Rightarrow> 'a list \<Rightarrow> ('k \<rightharpoonup> nat)" where
  "build_index key xs = index_from key 0 xs Map.empty"

section \<open>Stable sorting with a comparison\<close>

fun stable_insert :: "('a \<Rightarrow> 'a \<Rightarrow> bool) \<Rightarrow> 'a \<Rightarrow> 'a list \<Rightarrow> 'a list" where
  "stable_insert lt x [] = [x]"
| "stable_insert lt x (y # ys) = (if lt y x then y # stable_insert lt x ys else x # y # ys)"

definition stable_sort :: "('a \<Rightarrow> 'a \<Rightarrow> bool) \<Rightarrow> 'a list \<Rightarrow> 'a list" where
  "stable_sort lt xs = foldr (stable_insert lt) xs []"

section \<open>Facts about exceptions\<close>

lemma sum_bind_simps [simp]: "sum_bind (Inl e) f = Inl e" "sum_bind (Inr a) f = f a"
  by (simp_all add: sum_bind_def)

lemma sum_bind_Inr: "sum_bind m f = Inr b \<longleftrightarrow> (\<exists>a. m = Inr a \<and> f a = Inr b)"
  by (cases m) auto

section \<open>Facts about searching\<close>

lemma find_char_None_iff [find_facts]: "find_char c s = None \<longleftrightarrow> c \<notin> set s"
  by (induction s) auto

lemma find_char_notin [simp]: "c \<notin> set s \<Longrightarrow> find_char c s = None"
  by (simp add: find_char_None_iff)

lemma find_char_Some_iff [find_facts]:
  "find_char c s = Some n \<longleftrightarrow> n < length s \<and> s ! n = c \<and> c \<notin> set (take n s)"
proof (induction s arbitrary: n)
  case (Cons x xs)
  then show ?case by (cases n) auto
qed simp

lemma find_char_split:
  assumes "find_char c s = Some n"
  shows "s = take n s @ c # drop (Suc n) s" and "c \<notin> set (take n s)" and "n < length s"
  using assms by (auto simp: find_char_Some_iff id_take_nth_drop [symmetric])

lemma find_char_append [simp]:
  "c \<notin> set xs \<Longrightarrow> find_char c (xs @ c # ys) = Some (length xs)"
  by (induction xs) auto

lemma find_char_notin_append:
  "c \<notin> set xs \<Longrightarrow> find_char c (xs @ ys) = map_option (\<lambda>n. length xs + n) (find_char c ys)"
proof (induction xs)
  case Nil
  then show ?case by (cases "find_char c ys") auto
next
  case (Cons x xs)
  then show ?case by (cases "find_char c ys") auto
qed

lemma starts_with_iff: "starts_with s p \<longleftrightarrow> (\<exists>t. s = p @ t)"
  by (induction s p rule: starts_with.induct) auto

lemma starts_with_append [simp]: "starts_with (p @ t) p"
  by (auto simp: starts_with_iff)

lemma starts_with_drop: "starts_with s p \<Longrightarrow> s = p @ drop (length p) s"
  by (auto simp: starts_with_iff)

lemma contains_iff: "contains s needle \<longleftrightarrow> (\<exists>u v. s = u @ needle @ v)"
proof (induction s)
  case Nil
  then show ?case by (auto simp: contains_def)
next
  case (Cons x xs)
  have "contains (x # xs) needle \<longleftrightarrow> starts_with (x # xs) needle \<or> contains xs needle"
    by (auto simp: contains_def)
  also have "\<dots> \<longleftrightarrow> (\<exists>v. x # xs = [] @ needle @ v) \<or> (\<exists>u v. x # xs = (x # u) @ needle @ v)"
    using Cons.IH by (auto simp: starts_with_iff)
  also have "\<dots> \<longleftrightarrow> (\<exists>u v. x # xs = u @ needle @ v)"
  proof (intro iffI)
    assume "\<exists>u v. x # xs = u @ needle @ v"
    then obtain u v where uv: "x # xs = u @ needle @ v" by blast
    then show "(\<exists>v. x # xs = [] @ needle @ v) \<or> (\<exists>u v. x # xs = (x # u) @ needle @ v)"
      by (cases u) auto
  qed blast
  finally show ?case .
qed

section \<open>Facts about characters\<close>

lemma char_code_less [simp]: "char_code c < 256"
  by (simp add: char_code_def)

lemma char_code_high_nibble [simp]: "char_code c div 16 < 16"
  using char_code_less [of c] by linarith

lemma char_code_char_of: "n < 256 \<Longrightarrow> char_code (char_of n) = n"
  by (simp add: char_code_def)

lemma char_of_char_code [simp]: "char_of (char_code c) = c"
  by (simp add: char_code_def)

section \<open>Facts about decimal numbers\<close>

lemma char_code_digit: "n < 10 \<Longrightarrow> char_code (digit_char n) = 48 + n"
  by (simp add: char_code_def digit_char_def)

lemma is_digit_digit: "n < 10 \<Longrightarrow> is_digit (digit_char n)"
  by (simp add: is_digit_def char_code_digit)

lemma nat_to_string_digits: "c \<in> set (nat_to_string n) \<Longrightarrow> is_digit c"
proof (induction n rule: nat_to_string.induct)
  case (1 n)
  then show ?case
    by (cases "n < 10") (auto simp: nat_to_string.simps [of n] is_digit_digit)
qed

lemma nat_to_string_nonempty [simp]: "nat_to_string n \<noteq> []"
  by (subst nat_to_string.simps) simp

lemma digits_value_snoc: "digits_value (ds @ [c]) = 10 * digits_value ds + (char_code c - 48)"
  by (simp add: digits_value_def)

lemma digits_value_nat_to_string [simp]: "digits_value (nat_to_string n) = n"
proof (induction n rule: nat_to_string.induct)
  case (1 n)
  show ?case
  proof (cases "n < 10")
    case True
    then show ?thesis
      by (simp add: nat_to_string.simps [of n] digits_value_def char_code_digit)
  next
    case False
    with 1 show ?thesis
      by (simp add: nat_to_string.simps [of n] digits_value_snoc char_code_digit)
  qed
qed

lemma not_digit_minus: "\<not> is_digit (CHR ''-'')"
  by (simp add: is_digit_def char_code_def)

lemma hd_nat_to_string_not_minus: "hd (nat_to_string n) \<noteq> CHR ''-''"
  using nat_to_string_digits [of "hd (nat_to_string n)" n] not_digit_minus by auto

lemma takeWhile_digits [simp]:
  "takeWhile is_digit (nat_to_string n) = nat_to_string n"
  "dropWhile is_digit (nat_to_string n) = []"
  using nat_to_string_digits by (auto simp: takeWhile_eq_all_conv)

text \<open>What \<open>std::to_string\<close> prints, \<open>std::from_chars\<close> reads back, with nothing left over.\<close>

lemma from_chars_int_to_string:
  assumes "lo \<le> i" and "i \<le> hi"
  shows "from_chars lo hi (int_to_string i) = Some (i, [])"
  using assms by (auto simp: from_chars_def int_to_string_def hd_nat_to_string_not_minus)

lemma from_chars_range: "from_chars lo hi s = Some (v, r) \<Longrightarrow> lo \<le> v \<and> v \<le> hi"
  by (auto simp: from_chars_def Let_def split: if_splits)

lemma int_to_string_chars: "c \<in> set (int_to_string i) \<Longrightarrow> is_digit c \<or> c = CHR ''-''"
  by (auto simp: int_to_string_def nat_to_string_digits split: if_splits)

section \<open>Facts about fixed-width integers\<close>

lemma int32_of_bounds [width_facts]: "- (2 ^ 31) \<le> int32_of i" "int32_of i < 2 ^ 31"
  using signed_take_bit_int_greater_eq_minus_exp [of 31 i] signed_take_bit_int_less_exp [of 31 i]
  by (simp_all add: int32_of_def)

lemma int32_of_id [width_facts]: "- (2 ^ 31) \<le> i \<Longrightarrow> i < 2 ^ 31 \<Longrightarrow> int32_of i = i"
  by (simp add: int32_of_def signed_take_bit_int_eq_self)

lemma int64_of_bounds [width_facts]: "in_int64 (int64_of i)"
  using signed_take_bit_int_greater_eq_minus_exp [of 63 i] signed_take_bit_int_less_exp [of 63 i]
  by (simp add: int64_of_def in_int64_def int64_min_def int64_max_def)

lemma int64_of_id [width_facts]: "in_int64 i \<Longrightarrow> int64_of i = i"
  by (simp add: int64_of_def in_int64_def int64_min_def int64_max_def signed_take_bit_int_eq_self)

lemma uint64_of_id [width_facts]: "0 \<le> i \<Longrightarrow> i < 2 ^ 64 \<Longrightarrow> uint64_of i = i"
  by (simp add: uint64_of_def take_bit_int_eq_self)

lemma uint16_of_bounds [width_facts]: "0 \<le> uint16_of i" "uint16_of i < 2 ^ 16"
  using take_bit_int_less_exp [of 16 i] by (simp_all add: uint16_of_def)

lemma uint16_of_id [width_facts]: "0 \<le> i \<Longrightarrow> i < 2 ^ 16 \<Longrightarrow> uint16_of i = i"
  by (simp add: uint16_of_def take_bit_int_eq_self)

lemma uint64_of_bounds [width_facts]: "0 \<le> uint64_of i" "uint64_of i < 2 ^ 64"
  using take_bit_int_less_exp [of 64 i] by (simp_all add: uint64_of_def)

section \<open>Facts about indexes\<close>

lemma emplace_apply: "emplace m k v k' = (if k' = k \<and> m k = None then Some v else m k')"
  by (auto simp: emplace_def)

lemma index_from_present: "m k = Some j \<Longrightarrow> index_from key i xs m k = Some j"
proof (induction xs arbitrary: i m)
  case (Cons x xs)
  then have "emplace m (key x) i k = Some j" by (auto simp: emplace_apply)
  from Cons.IH [where m = "emplace m (key x) i", OF this] show ?case by simp
qed simp

lemma index_from_lookup:
  assumes "m k = None"
  shows "case index_from key i xs m k of
           None \<Rightarrow> List.find (\<lambda>x. key x = k) xs = None
         | Some j \<Rightarrow> i \<le> j \<and> j < i + length xs \<and> List.find (\<lambda>x. key x = k) xs = Some (xs ! (j - i))"
  using assms
proof (induction xs arbitrary: i m)
  case (Cons x xs)
  show ?case
  proof (cases "key x = k")
    case True
    with Cons.prems show ?thesis
      by (simp add: index_from_present emplace_apply)
  next
    case False
    with Cons.prems have "emplace m (key x) i k = None" by (simp add: emplace_apply)
    from Cons.IH [where m = "emplace m (key x) i" and i = "Suc i", OF this] False show ?thesis
      by (auto split: option.splits simp: nth_Cons')
  qed
qed simp

text \<open>Looking an id up through the index finds the first element with that id.\<close>

lemma build_index_lookup:
  "(case build_index key xs k of None \<Rightarrow> None | Some j \<Rightarrow> Some (xs ! j)) =
     List.find (\<lambda>x. key x = k) xs"
  using index_from_lookup [where m = Map.empty and k = k and key = key and i = 0 and xs = xs]
  by (auto simp: build_index_def split: option.splits)

lemma build_index_cases:
  "case build_index key xs k of
     None \<Rightarrow> k \<notin> set (map key xs)
   | Some j \<Rightarrow> j < length xs \<and> key (xs ! j) = k"
  using index_from_lookup [where m = Map.empty and k = k and key = key and i = 0 and xs = xs]
  by (auto simp: build_index_def find_None_iff find_Some_iff split: option.splits)

lemma find_Some_distinct:
  "distinct (map key xs) \<Longrightarrow> x \<in> set xs \<Longrightarrow> List.find (\<lambda>y. key y = key x) xs = Some x"
  by (induction xs) (auto simp: image_iff)

lemma find_eq_SomeD: "List.find P xs = Some x \<Longrightarrow> x \<in> set xs \<and> P x"
  by (induction xs) (auto split: if_splits)

section \<open>Strict weak orders and the contract of a stable sort\<close>

text \<open>
  The contract a comparison passed to \<open>std::stable_sort\<close> has to meet, and what the
  sort then promises. \<open>tied\<close> elements are those the comparison does not separate.
\<close>

locale strict_weak =
  fixes lt :: "'a \<Rightarrow> 'a \<Rightarrow> bool"
  assumes lt_irrefl: "\<not> lt x x"
    and lt_trans: "lt x y \<Longrightarrow> lt y z \<Longrightarrow> lt x z"
    and not_lt_trans: "\<not> lt x y \<Longrightarrow> \<not> lt y z \<Longrightarrow> \<not> lt x z"
begin

abbreviation tied :: "'a \<Rightarrow> 'a \<Rightarrow> bool" where
  "tied x y \<equiv> \<not> lt x y \<and> \<not> lt y x"

abbreviation ordered :: "'a list \<Rightarrow> bool" where
  "ordered xs \<equiv> sorted_wrt (\<lambda>x y. \<not> lt y x) xs"

lemma mset_insert: "mset (stable_insert lt x xs) = add_mset x (mset xs)"
  by (induction xs) auto

lemma set_insert: "set (stable_insert lt x xs) = insert x (set xs)"
  by (induction xs) auto

lemma ordered_insert: "ordered xs \<Longrightarrow> ordered (stable_insert lt x xs)"
proof (induction xs)
  case (Cons y ys)
  show ?case
  proof (cases "lt y x")
    case True
    with Cons show ?thesis
      using lt_irrefl lt_trans by (auto simp: set_insert)
  next
    case False
    with Cons.prems show ?thesis
      using not_lt_trans by auto
  qed
qed simp

lemma filter_insert:
  "ordered xs \<Longrightarrow> filter (tied a) (stable_insert lt x xs) = filter (tied a) (x # xs)"
proof (induction xs)
  case (Cons y ys)
  show ?case
  proof (cases "lt y x")
    case True
    then have "\<not> (tied a x \<and> tied a y)"
      using not_lt_trans by blast
    with True Cons show ?thesis by auto
  qed simp
qed simp

lemma mset_stable_sort: "mset (stable_sort lt xs) = mset xs"
  by (induction xs) (simp_all add: stable_sort_def mset_insert)

lemma ordered_stable_sort: "ordered (stable_sort lt xs)"
  by (induction xs) (simp_all add: stable_sort_def ordered_insert)

text \<open>\<open>ORDER BY ... LIMIT n\<close>: what is left out is not before anything that is kept, and the list is full.\<close>

lemma best_of:
  assumes "x \<in> set xs" and "x \<notin> set (take n (stable_sort lt xs))"
  shows "length (take n (stable_sort lt xs)) = n \<and> (\<forall>y \<in> set (take n (stable_sort lt xs)). \<not> lt x y)"
proof -
  let ?s = "stable_sort lt xs"
  have "mset ?s = mset xs" by (rule mset_stable_sort)
  then have "set ?s = set xs" by (rule mset_eq_setD)
  with assms have "x \<in> set (take n ?s @ drop n ?s)" by simp
  with assms(2) have x: "x \<in> set (drop n ?s)" by (simp only: set_append Un_iff) blast
  then have "n < length ?s" by (metis drop_all empty_iff list.set(1) not_le)
  moreover have "\<forall>y \<in> set (take n ?s). \<forall>z \<in> set (drop n ?s). \<not> lt z y"
    using ordered_stable_sort by (metis append_take_drop_id sorted_wrt_append)
  ultimately show ?thesis using x by simp
qed

lemma filter_stable_sort: "filter (tied a) (stable_sort lt xs) = filter (tied a) xs"
proof (induction xs)
  case (Cons x xs)
  have "stable_sort lt (x # xs) = stable_insert lt x (stable_sort lt xs)"
    by (simp add: stable_sort_def)
  then have "filter (tied a) (stable_sort lt (x # xs)) = filter (tied a) (x # stable_sort lt xs)"
    by (simp only: filter_insert [OF ordered_stable_sort])
  with Cons show ?case by simp
qed (simp add: stable_sort_def)

lemma insert_front: "ordered (x # xs) \<Longrightarrow> stable_insert lt x xs = x # xs"
  by (cases xs) auto

lemma stable_sort_ordered: "ordered xs \<Longrightarrow> stable_sort lt xs = xs"
proof (induction xs)
  case (Cons x xs)
  then have "stable_sort lt xs = xs" by simp
  with Cons.prems insert_front show ?case
    by (simp add: stable_sort_def)
qed (simp add: stable_sort_def)

text \<open>Sorted and stable determine the list, so the model is not one choice among several.\<close>

lemma ordered_stable_unique:
  assumes "ordered xs" and "ordered ys"
    and "\<And>a. filter (tied a) xs = filter (tied a) ys"
  shows "xs = ys"
  using assms
proof (induction xs arbitrary: ys)
  case Nil
  show ?case
  proof (cases ys)
    case (Cons y ys')
    with Nil.prems(3) [of y] lt_irrefl show ?thesis by simp
  qed simp
next
  case (Cons x xs)
  from Cons.prems(3) [of x] have "filter (tied x) ys \<noteq> []"
    using lt_irrefl by auto
  then obtain y ys' where ys: "ys = y # ys'" by (cases ys) auto
  have sets: "set (filter (tied a) (x # xs)) = set (filter (tied a) ys)" for a
    by (simp only: Cons.prems(3))
  from sets [of x] have "x \<in> set ys" using lt_irrefl by auto
  then have "\<not> lt x y" using Cons.prems(2) ys lt_irrefl by auto
  moreover have "y \<in> set (filter (tied y) ys)" using lt_irrefl ys by simp
  then have "y \<in> set (filter (tied y) (x # xs))" by (simp only: sets)
  then have "y \<in> set (x # xs)" by (simp only: set_filter mem_Collect_eq)
  then have "\<not> lt y x" using Cons.prems(1) lt_irrefl by auto
  ultimately have xy: "x = y"
    using Cons.prems(3) [of x] lt_irrefl ys by auto
  have "filter (tied a) xs = filter (tied a) ys'" for a
    using Cons.prems(3) [of a] ys xy by (auto split: if_splits)
  with Cons.IH [of ys'] Cons.prems ys xy show ?case by auto
qed

lemma stable_sort_unique:
  "ordered ys \<Longrightarrow> (\<And>a. filter (tied a) ys = filter (tied a) xs) \<Longrightarrow> ys = stable_sort lt xs"
  by (rule ordered_stable_unique) (simp_all only: ordered_stable_sort filter_stable_sort)

text \<open>Selecting rows commutes with sorting them.\<close>

lemma filter_commutes: "filter P (stable_sort lt xs) = stable_sort lt (filter P xs)"
proof (rule stable_sort_unique)
  show "ordered (filter P (stable_sort lt xs))"
    using ordered_stable_sort by (simp add: sorted_wrt_filter)
  show "filter (tied a) (filter P (stable_sort lt xs)) = filter (tied a) (filter P xs)" for a
  proof -
    have swap: "filter (tied a) (filter P ys) = filter P (filter (tied a) ys)" for ys
      by (induction ys) auto
    show ?thesis by (simp only: swap filter_stable_sort)
  qed
qed

end

lemma stable_insert_cong:
  "(\<And>y. y \<in> set xs \<Longrightarrow> lt y x = lt' y x) \<Longrightarrow> stable_insert lt x xs = stable_insert lt' x xs"
  by (induction xs) auto

lemma set_stable_insert: "set (stable_insert lt x xs) = insert x (set xs)"
  by (induction xs) auto

lemma set_stable_sort [simp]: "set (stable_sort lt xs) = set xs"
  by (induction xs) (simp_all add: stable_sort_def set_stable_insert)

lemma stable_sort_cong:
  "(\<And>x y. x \<in> set xs \<Longrightarrow> y \<in> set xs \<Longrightarrow> lt x y = lt' x y) \<Longrightarrow> stable_sort lt xs = stable_sort lt' xs"
proof (induction xs)
  case (Cons x xs)
  have "stable_insert lt x (stable_sort lt' xs) = stable_insert lt' x (stable_sort lt' xs)"
    using Cons.prems by (intro stable_insert_cong) simp
  with Cons show ?case by (simp add: stable_sort_def)
qed (simp add: stable_sort_def)

lemma stable_sort_tied: "(\<And>x y. x \<in> set xs \<Longrightarrow> y \<in> set xs \<Longrightarrow> \<not> lt x y) \<Longrightarrow> stable_sort lt xs = xs"
proof (induction xs)
  case (Cons x xs)
  then have "stable_sort lt xs = xs" by simp
  moreover have "stable_insert lt x xs = x # xs" using Cons.prems by (cases xs) simp_all
  ultimately show ?case by (simp add: stable_sort_def)
qed (simp add: stable_sort_def)

lemma map_stable_sort: "map f (stable_sort (\<lambda>x y. lt (f x) (f y)) xs) = stable_sort lt (map f xs)"
proof -
  have "map f (stable_insert (\<lambda>x y. lt (f x) (f y)) x ys) = stable_insert lt (f x) (map f ys)" for x ys
    by (induction ys) auto
  then show ?thesis by (induction xs) (simp_all add: stable_sort_def)
qed

section \<open>Encodings that can be read back\<close>

locale codec =
  fixes enc :: "'a \<Rightarrow> 'b" and dec :: "'b \<Rightarrow> 'a option"
  assumes dec_enc: "dec (enc x) = Some x"
begin

lemma enc_eq_iff: "enc x = enc y \<longleftrightarrow> x = y"
  by (metis dec_enc option.inject)

lemma enc_inj: "inj enc"
  by (simp add: inj_def enc_eq_iff)

end

section \<open>Invariants of step relations\<close>

locale inductive_invariant =
  fixes init :: "'s \<Rightarrow> bool" and step :: "'s \<Rightarrow> 's \<Rightarrow> bool" and inv :: "'s \<Rightarrow> bool"
  assumes inv_init: "init s \<Longrightarrow> inv s"
    and inv_step: "inv s \<Longrightarrow> step s t \<Longrightarrow> inv t"
begin

lemma inv_reachable: "init s \<Longrightarrow> step\<^sup>*\<^sup>* s t \<Longrightarrow> inv t"
proof -
  assume "init s" and "step\<^sup>*\<^sup>* s t"
  from this(2) inv_init [OF this(1)] show "inv t"
    by (induction rule: rtranclp_induct) (auto intro: inv_step)
qed

end

end
