(* ===== verification/Config.thy ===== *)
theory Config
  imports Prelude
begin

text \<open>
  The configuration file: \<open>src/config.hpp\<close> and \<open>src/config.cpp\<close>. The TOML parser is a
  library: a parsed document is a table of nodes of some type, and the accessors the source
  calls (\<open>as_table\<close>, \<open>value<T>\<close>, both empty when the node does not convert) are the
  fields of \<open>toml_lib\<close>. A thrown \<open>std::runtime_error\<close> is a left value.
\<close>

section \<open>The configuration\<close>

record config =
  cfg_bind_address :: string
  cfg_port :: int
  cfg_io_threads :: int
  cfg_base_path :: string
  cfg_db_path :: string
  cfg_migrations_dir :: string
  cfg_templates_dir :: string
  cfg_static_dir :: string
  cfg_media_root :: string
  cfg_refresh_interval :: int
  cfg_event_flush_interval :: int
  cfg_event_queue_capacity :: int
  cfg_event_retention_days :: int
  cfg_ip_hash_secret :: string
  cfg_postback_secret :: string
  cfg_metrica_counter :: int
  cfg_anon_cookie_ttl :: int
  cfg_session_idle_ttl :: int
  cfg_cookie_secure :: bool

text \<open>\<open>Config{}\<close>: intervals in seconds, the flush interval in milliseconds.\<close>

definition config_default :: config where
  "config_default = \<lparr> cfg_bind_address = ''127.0.0.1'', cfg_port = 8080, cfg_io_threads = 1, cfg_base_path = [],
     cfg_db_path = ''ssize.db'', cfg_migrations_dir = ''migrations'', cfg_templates_dir = ''templates'',
     cfg_static_dir = ''static'', cfg_media_root = ''media'', cfg_refresh_interval = 10,
     cfg_event_flush_interval = 1000, cfg_event_queue_capacity = 100000, cfg_event_retention_days = 90,
     cfg_ip_hash_secret = [], cfg_postback_secret = [], cfg_metrica_counter = 0,
     cfg_anon_cookie_ttl = 24 * 365 * 3600, cfg_session_idle_ttl = 30 * 60, cfg_cookie_secure = True \<rparr>"

section \<open>Reading the file\<close>

datatype config_error = CannotParse | BadType string | SecretNotSet

type_synonym 'n table = "string \<rightharpoonup> 'n"

record 'n toml_lib =
  tl_as_table :: "'n \<Rightarrow> 'n table option"
  tl_string :: "'n \<Rightarrow> string option"
  tl_int :: "'n \<Rightarrow> int option"
  tl_bool :: "'n \<Rightarrow> bool option"

definition get_or :: "('n \<Rightarrow> 'a option) \<Rightarrow> 'n table \<Rightarrow> string \<Rightarrow> 'a \<Rightarrow> config_error + 'a" where
  "get_or val tbl key fallback =
     (case tbl key of
        None \<Rightarrow> Inr fallback
      | Some node \<Rightarrow> (case val node of Some v \<Rightarrow> Inr v | None \<Rightarrow> Inl (BadType key)))"

text \<open>\<open>if (auto t = tbl[name].as_table())\<close>: a missing node and one that is no table are skipped.\<close>

definition with_table ::
  "'n toml_lib \<Rightarrow> 'n table \<Rightarrow> string \<Rightarrow> ('n table \<Rightarrow> config \<Rightarrow> config_error + config) \<Rightarrow> config \<Rightarrow> config_error + config" where
  "with_table lib tbl name body cfg =
     (case tbl name of
        None \<Rightarrow> Inr cfg
      | Some node \<Rightarrow> (case tl_as_table lib node of None \<Rightarrow> Inr cfg | Some t \<Rightarrow> body t cfg))"

definition read_http :: "'n toml_lib \<Rightarrow> 'n table \<Rightarrow> config \<Rightarrow> config_error + config" where
  "read_http lib t cfg =
     sum_bind (get_or (tl_string lib) t ''bind_address'' (cfg_bind_address cfg)) (\<lambda>addr.
     sum_bind (get_or (tl_int lib) t ''port'' (cfg_port cfg)) (\<lambda>port.
     sum_bind (get_or (tl_int lib) t ''io_threads'' (cfg_io_threads cfg)) (\<lambda>io.
     sum_bind (get_or (tl_string lib) t ''base_path'' (cfg_base_path cfg)) (\<lambda>base.
       Inr (cfg\<lparr> cfg_bind_address := addr, cfg_port := uint16_of port, cfg_io_threads := int32_of io,
                 cfg_base_path := base \<rparr>)))))"

definition read_storage :: "'n toml_lib \<Rightarrow> 'n table \<Rightarrow> config \<Rightarrow> config_error + config" where
  "read_storage lib t cfg =
     sum_bind (get_or (tl_string lib) t ''db_path'' (cfg_db_path cfg)) (\<lambda>db.
     sum_bind (get_or (tl_string lib) t ''migrations_dir'' (cfg_migrations_dir cfg)) (\<lambda>mig.
     sum_bind (get_or (tl_string lib) t ''templates_dir'' (cfg_templates_dir cfg)) (\<lambda>tpl.
     sum_bind (get_or (tl_string lib) t ''static_dir'' (cfg_static_dir cfg)) (\<lambda>stat.
     sum_bind (get_or (tl_string lib) t ''media_root'' (cfg_media_root cfg)) (\<lambda>media.
       Inr (cfg\<lparr> cfg_db_path := db, cfg_migrations_dir := mig, cfg_templates_dir := tpl,
                 cfg_static_dir := stat, cfg_media_root := media \<rparr>))))))"

definition read_catalog :: "'n toml_lib \<Rightarrow> 'n table \<Rightarrow> config \<Rightarrow> config_error + config" where
  "read_catalog lib t cfg =
     sum_bind (get_or (tl_int lib) t ''refresh_interval_sec'' (cfg_refresh_interval cfg)) (\<lambda>n.
       Inr (cfg\<lparr> cfg_refresh_interval := n \<rparr>))"

definition read_metrics :: "'n toml_lib \<Rightarrow> 'n table \<Rightarrow> config \<Rightarrow> config_error + config" where
  "read_metrics lib t cfg =
     sum_bind (get_or (tl_int lib) t ''flush_interval_ms'' (cfg_event_flush_interval cfg)) (\<lambda>flush.
     sum_bind (get_or (tl_int lib) t ''queue_capacity'' (int64_of (cfg_event_queue_capacity cfg))) (\<lambda>cap.
     sum_bind (get_or (tl_int lib) t ''retention_days'' (cfg_event_retention_days cfg)) (\<lambda>days.
     sum_bind (get_or (tl_string lib) t ''ip_hash_secret'' []) (\<lambda>secret.
     sum_bind (get_or (tl_string lib) t ''postback_secret'' []) (\<lambda>postback.
     sum_bind (get_or (tl_int lib) t ''metrica_counter'' 0) (\<lambda>counter.
       Inr (cfg\<lparr> cfg_event_flush_interval := flush, cfg_event_queue_capacity := uint64_of cap,
                 cfg_event_retention_days := int32_of days, cfg_ip_hash_secret := secret,
                 cfg_postback_secret := postback, cfg_metrica_counter := uint64_of counter \<rparr>)))))))"

definition read_cookies :: "'n toml_lib \<Rightarrow> 'n table \<Rightarrow> config \<Rightarrow> config_error + config" where
  "read_cookies lib t cfg =
     sum_bind (get_or (tl_bool lib) t ''secure'' (cfg_cookie_secure cfg)) (\<lambda>secure.
     sum_bind (get_or (tl_int lib) t ''session_idle_sec'' (cfg_session_idle_ttl cfg)) (\<lambda>idle.
       Inr (cfg\<lparr> cfg_cookie_secure := secure, cfg_session_idle_ttl := idle \<rparr>)))"

text \<open>The argument is the parsed document, \<open>None\<close> when \<open>toml::parse_file\<close> throws.\<close>

definition load_config :: "'n toml_lib \<Rightarrow> 'n table option \<Rightarrow> config_error + config" where
  "load_config lib parsed =
     (case parsed of
        None \<Rightarrow> Inl CannotParse
      | Some tbl \<Rightarrow>
          sum_bind (with_table lib tbl ''http'' (read_http lib) config_default) (\<lambda>cfg.
          sum_bind (with_table lib tbl ''storage'' (read_storage lib) cfg) (\<lambda>cfg.
          sum_bind (with_table lib tbl ''catalog'' (read_catalog lib) cfg) (\<lambda>cfg.
          sum_bind (with_table lib tbl ''metrics'' (read_metrics lib) cfg) (\<lambda>cfg.
          sum_bind (with_table lib tbl ''cookies'' (read_cookies lib) cfg) (\<lambda>cfg.
            if cfg_ip_hash_secret cfg = [] then Inl SecretNotSet else Inr cfg))))))"

section \<open>What a file means\<close>


definition setting_ok :: "('n \<Rightarrow> 'a option) \<Rightarrow> 'n option \<Rightarrow> bool" where
  "setting_ok val node = (case node of None \<Rightarrow> True | Some n \<Rightarrow> val n \<noteq> None)"

definition setting_value :: "('n \<Rightarrow> 'a option) \<Rightarrow> 'n option \<Rightarrow> 'a \<Rightarrow> 'a" where
  "setting_value val node d = (case node of None \<Rightarrow> d | Some n \<Rightarrow> (case val n of None \<Rightarrow> d | Some v \<Rightarrow> v))"













lemma setting_none [simp]: "setting_ok val None" "setting_value val None d = d"
  by (simp_all add: setting_ok_def setting_value_def)




















text \<open>A file that only sets the IP hash secret, read by a parser with a single node.\<close>

definition minimal_toml :: "unit toml_lib" where
  "minimal_toml = \<lparr> tl_as_table = \<lambda>_. Some [''ip_hash_secret'' \<mapsto> ()], tl_string = \<lambda>_. Some ''s'', tl_int = \<lambda>_. None, tl_bool = \<lambda>_. None \<rparr>"

lemma minimal_config: "\<exists>cfg. load_config minimal_toml (Some [''metrics'' \<mapsto> ()]) = Inr cfg"
  by (simp add: load_config_def with_table_def read_metrics_def get_or_def minimal_toml_def)


text \<open>A port beyond 16 bits is no error: 70000 in the file is port 4464 in the configuration.\<close>

definition wide_port_toml :: "bool toml_lib" where
  "wide_port_toml = \<lparr> tl_as_table = \<lambda>n. Some (if n then [''port'' \<mapsto> True] else [''ip_hash_secret'' \<mapsto> False]),
     tl_string = \<lambda>n. if n then None else Some ''s'', tl_int = \<lambda>n. if n then Some 70000 else None, tl_bool = \<lambda>_. None \<rparr>"

theorem wide_port_accepted:
  "load_config wide_port_toml (Some [''http'' \<mapsto> True, ''metrics'' \<mapsto> False]) =
     Inr (config_default\<lparr> cfg_port := 4464, cfg_ip_hash_secret := ''s'' \<rparr>)"
  by (simp add: load_config_def with_table_def read_http_def read_metrics_def get_or_def wide_port_toml_def
      sum_bind_def config_default_def uint16_of_def int32_of_def int64_of_def uint64_of_def)

end
