(* ===== verification/Models.thy ===== *)
theory Models
  imports Complex_Main Prelude
begin

text \<open>
  The data model: \<open>src/models.hpp\<close> and \<open>src/models.cpp\<close>, and the struct
  \<open>Conversion\<close> of \<open>src/events.hpp\<close>. Field names carry a prefix for their struct, since
  record fields are global constants.

  Money is kopecks in an \<open>int\<close> (\<open>Kopek = std::int64_t\<close>), times are unix milliseconds
  in an \<open>int\<close> (\<open>TsMs\<close>). The ranking score is a \<open>double\<close> that the program only
  compares; finite doubles are rationals, so it is a \<open>rat\<close> here.
\<close>

section \<open>Catalog data\<close>

type_synonym kopek = int
type_synonym ts_ms = int

datatype item_status = Draft | Published | Archived

fun status_to_string :: "item_status \<Rightarrow> string" where
  "status_to_string Draft = ''draft''"
| "status_to_string Published = ''published''"
| "status_to_string Archived = ''archived''"

definition item_status_from_string :: "string \<Rightarrow> item_status option" where
  "item_status_from_string s =
     (if s = ''draft'' then Some Draft
      else if s = ''published'' then Some Published
      else if s = ''archived'' then Some Archived
      else None)"

record image =
  img_id :: int
  img_path :: string
  img_thumb_path :: string
  img_width :: int
  img_height :: int
  img_sort_order :: int

record partner =
  pt_id :: int
  pt_code :: string
  pt_title :: string
  pt_link_template :: string
  pt_enabled :: bool

record color =
  col_name :: string
  col_hex :: string

record item =
  it_id :: int
  it_title :: string
  it_description :: string
  it_brand :: string
  it_price_kopek :: kopek
  it_old_price_kopek :: "kopek option"
  it_currency :: string
  it_partner_id :: int
  it_product_url :: string
  it_campaign :: string
  it_status :: item_status
  it_score :: rat
  it_images :: "image list"
  it_tags :: "string list"
  it_sizes :: "string list"
  it_colors :: "color list"
  it_created_at :: ts_ms
  it_updated_at :: ts_ms
  it_published_at :: "ts_ms option"

text \<open>\<open>Item{}\<close>: the member initialisers.\<close>

definition item_default :: item where
  "item_default = \<lparr> it_id = 0, it_title = [], it_description = [], it_brand = [],
     it_price_kopek = 0, it_old_price_kopek = None, it_currency = ''RUB'', it_partner_id = 0,
     it_product_url = [], it_campaign = [], it_status = Draft, it_score = 0, it_images = [],
     it_tags = [], it_sizes = [], it_colors = [], it_created_at = 0, it_updated_at = 0,
     it_published_at = None \<rparr>"

section \<open>Metrics data\<close>

datatype event_type = Impression | CardClick | Outbound | Search

fun event_type_to_string :: "event_type \<Rightarrow> string" where
  "event_type_to_string Impression = ''impression''"
| "event_type_to_string CardClick = ''card_click''"
| "event_type_to_string Outbound = ''outbound''"
| "event_type_to_string Search = ''search''"

record event =
  ev_ts :: ts_ms
  ev_anon_id :: string
  ev_session_id :: string
  ev_type :: event_type
  ev_item_id :: "int option"
  ev_position :: "int option"
  ev_surface :: string
  ev_click_token :: string
  ev_source :: string
  ev_ua_class :: string
  ev_ip_hash :: "byte list"
  ev_payload :: string

text \<open>\<open>Event{}\<close>: the first enumerator, empty strings and no optional values.\<close>

definition event_default :: event where
  "event_default = \<lparr> ev_ts = 0, ev_anon_id = [], ev_session_id = [], ev_type = Impression,
     ev_item_id = None, ev_position = None, ev_surface = [], ev_click_token = [],
     ev_source = [], ev_ua_class = [], ev_ip_hash = [], ev_payload = [] \<rparr>"

record conversion =
  cv_click_token :: string
  cv_ts :: ts_ms
  cv_order_ref :: string
  cv_amount :: "kopek option"
  cv_status :: string
  cv_raw :: string

definition conversion_default :: conversion where
  "conversion_default = \<lparr> cv_click_token = [], cv_ts = 0, cv_order_ref = [], cv_amount = None,
     cv_status = [], cv_raw = [] \<rparr>"

section \<open>The enum spellings\<close>

interpretation status: codec status_to_string item_status_from_string
proof
  show "item_status_from_string (status_to_string x) = Some x" for x
    by (cases x) (simp_all add: item_status_from_string_def)
qed

lemma event_type_spelling_inj: "event_type_to_string a = event_type_to_string b \<longleftrightarrow> a = b"
  by (cases a; cases b) simp_all

text \<open>
  The status column and the enum agree: a status read from the database is the
  enumerator \<open>s\<close> exactly when the column holds the spelling \<open>to_string\<close> writes for
  \<open>s\<close>, so writing and reading back is the identity and no other spelling is accepted.
\<close>

lemma item_status_roundtrip:
  "item_status_from_string t = Some s \<longleftrightarrow> t = status_to_string s"
proof
  assume "item_status_from_string t = Some s"
  then show "t = status_to_string s"
    by (auto simp: item_status_from_string_def split: if_splits)
qed (simp add: status.dec_enc)

end
