(* ===== verification/Catalog.thy ===== *)
theory Catalog
  imports Models "HOL-Library.List_Lexorder" "HOL-Library.Char_ord"
begin

text \<open>
  The catalog snapshot: \<open>src/catalog.hpp\<close> and \<open>src/catalog.cpp\<close>. A \<open>Catalog\<close>
  is immutable once built, so it is a record built by \<open>make_catalog\<close> (the constructor,
  with the clock as an argument). A returned \<open>Item const*\<close> is the item it points to,
  a null pointer is \<open>None\<close>. \<open>CatalogPtr\<close> is a shared pointer: the address of the object
  and the object, since the feed cache compares addresses.

  Strings are ordered as \<open>std::string\<close> orders them, lexicographically by unsigned
  characters (the library instances \<open>Char_ord\<close> and \<open>List_Lexorder\<close>).
\<close>

section \<open>Building a snapshot\<close>

record catalog =
  cat_items :: "item list"
  cat_partners :: "partner list"
  cat_tags :: "string list"
  cat_by_id :: "int \<rightharpoonup> nat"
  cat_partner_by_id :: "int \<rightharpoonup> nat"
  cat_built_at :: ts_ms

definition empty_catalog :: catalog where
  "empty_catalog = \<lparr> cat_items = [], cat_partners = [], cat_tags = [], cat_by_id = Map.empty,
     cat_partner_by_id = Map.empty, cat_built_at = 0 \<rparr>"

definition published_or_zero :: "item \<Rightarrow> ts_ms" where
  "published_or_zero it = (case it_published_at it of None \<Rightarrow> 0 | Some t \<Rightarrow> t)"

text \<open>The comparison handed to \<open>std::stable_sort\<close>: score descending, then recency.\<close>

definition feed_less :: "item \<Rightarrow> item \<Rightarrow> bool" where
  "feed_less a b =
     (if it_score a \<noteq> it_score b then it_score a > it_score b
      else published_or_zero a > published_or_zero b)"

text \<open>\<open>std::set<std::string>\<close> filled with every item's tags, then copied in order.\<close>

definition collect_tags :: "item list \<Rightarrow> string list" where
  "collect_tags items = sort (remdups (concat (map it_tags items)))"

definition make_catalog :: "ts_ms \<Rightarrow> item list \<Rightarrow> partner list \<Rightarrow> catalog" where
  "make_catalog now items partners =
     (let sorted_items = stable_sort feed_less items
      in \<lparr> cat_items = sorted_items, cat_partners = partners,
           cat_tags = collect_tags sorted_items,
           cat_by_id = build_index it_id sorted_items,
           cat_partner_by_id = build_index pt_id partners,
           cat_built_at = now \<rparr>)"

section \<open>Reading a snapshot\<close>

definition cat_feed :: "catalog \<Rightarrow> item list" where
  "cat_feed c = cat_items c"

definition cat_size :: "catalog \<Rightarrow> nat" where
  "cat_size c = length (cat_items c)"

definition cat_all_tags :: "catalog \<Rightarrow> string list" where
  "cat_all_tags c = cat_tags c"

definition cat_find :: "catalog \<Rightarrow> int \<Rightarrow> item option" where
  "cat_find c i = (case cat_by_id c i of None \<Rightarrow> None | Some j \<Rightarrow> Some (cat_items c ! j))"

definition cat_partner :: "catalog \<Rightarrow> int \<Rightarrow> partner option" where
  "cat_partner c i = (case cat_partner_by_id c i of None \<Rightarrow> None | Some j \<Rightarrow> Some (cat_partners c ! j))"

text \<open>
  The loop of \<open>Catalog::query\<close>: \<open>skipped++ < offset\<close> compares before it counts, and
  the limit is tested after an item was appended.
\<close>

fun query_loop :: "string \<Rightarrow> string \<Rightarrow> nat \<Rightarrow> nat \<Rightarrow> item list \<Rightarrow> nat \<Rightarrow> item list \<Rightarrow> item list" where
  "query_loop tag sz offset limit [] skipped out = out"
| "query_loop tag sz offset limit (it # rest) skipped out =
     (if tag \<noteq> [] \<and> tag \<notin> set (it_tags it) then query_loop tag sz offset limit rest skipped out
      else if sz \<noteq> [] \<and> sz \<notin> set (it_sizes it) then query_loop tag sz offset limit rest skipped out
      else if skipped < offset then query_loop tag sz offset limit rest (skipped + 1) out
      else if limit \<le> length (out @ [it]) then out @ [it]
      else query_loop tag sz offset limit rest (skipped + 1) (out @ [it]))"

definition cat_query :: "catalog \<Rightarrow> string \<Rightarrow> string \<Rightarrow> nat \<Rightarrow> nat \<Rightarrow> item list" where
  "cat_query c tag sz offset limit = query_loop tag sz offset limit (cat_items c) 0 []"

section \<open>The handle\<close>

record catalog_ptr =
  cp_addr :: nat
  cp_obj :: catalog

record catalog_handle =
  ch_ptr :: catalog_ptr

definition handle_get :: "catalog_handle \<Rightarrow> catalog_ptr" where
  "handle_get h = ch_ptr h"

definition handle_set :: "catalog_ptr \<Rightarrow> catalog_handle \<Rightarrow> catalog_handle" where
  "handle_set p h = h\<lparr> ch_ptr := p \<rparr>"

section \<open>The feed order\<close>

interpretation feed: strict_weak feed_less
  by unfold_locales (auto simp: feed_less_def split: if_splits)

section \<open>Well-formed snapshots\<close>

text \<open>
  What every snapshot the program can hold satisfies: the indexes point into the vectors,
  the items are in feed order and the tag list is sorted and free of duplicates.
\<close>

definition catalog_wf :: "catalog \<Rightarrow> bool" where
  "catalog_wf c \<longleftrightarrow>
     feed.ordered (cat_items c) \<and>
     cat_by_id c = build_index it_id (cat_items c) \<and>
     cat_partner_by_id c = build_index pt_id (cat_partners c) \<and>
     cat_tags c = collect_tags (cat_items c)"

lemma make_catalog_wf: "catalog_wf (make_catalog now items partners)"
  by (simp add: catalog_wf_def make_catalog_def Let_def feed.ordered_stable_sort)

lemma empty_catalog_wf: "catalog_wf empty_catalog"
  by (simp add: catalog_wf_def empty_catalog_def build_index_def collect_tags_def)

lemma set_cat_items_make [simp]: "set (cat_items (make_catalog now items partners)) = set items"
  by (simp add: make_catalog_def Let_def)

lemma cat_find_eq: "catalog_wf c \<Longrightarrow> cat_find c i = List.find (\<lambda>x. it_id x = i) (cat_items c)"
  using build_index_lookup [where key = it_id and xs = "cat_items c" and k = i] by (simp add: cat_find_def catalog_wf_def)

lemma cat_partner_eq:
  "catalog_wf c \<Longrightarrow> cat_partner c i = List.find (\<lambda>x. pt_id x = i) (cat_partners c)"
  using build_index_lookup [where key = pt_id and xs = "cat_partners c" and k = i] by (simp add: cat_partner_def catalog_wf_def)

definition matches :: "string \<Rightarrow> string \<Rightarrow> item \<Rightarrow> bool" where
  "matches tag sz it \<longleftrightarrow> (tag = [] \<or> tag \<in> set (it_tags it)) \<and> (sz = [] \<or> sz \<in> set (it_sizes it))"

lemma query_loop_eq:
  assumes "length out < limit \<or> out = []" and "out \<noteq> [] \<longrightarrow> offset \<le> skipped"
  shows "query_loop tag sz offset limit items skipped out =
    out @ take (max 1 limit - length out) (drop (offset - skipped) (filter (matches tag sz) items))"
  using assms
proof (induction items arbitrary: skipped out)
  case (Cons it rest)
  show ?case
  proof (cases "matches tag sz it")
    case False
    then have "query_loop tag sz offset limit (it # rest) skipped out =
        query_loop tag sz offset limit rest skipped out"
      by (auto simp: matches_def)
    with Cons.IH [OF Cons.prems] False show ?thesis by simp
  next
    case m: True
    then have neg: "\<not> (tag \<noteq> [] \<and> tag \<notin> set (it_tags it))" "\<not> (sz \<noteq> [] \<and> sz \<notin> set (it_sizes it))"
      by (auto simp: matches_def)
    consider "skipped < offset" | "offset \<le> skipped" "limit \<le> Suc (length out)"
      | "offset \<le> skipped" "Suc (length out) < limit"
      by linarith
    then show ?thesis
    proof cases
      case 1
      with Cons.prems have "out = []" by auto
      with 1 have "query_loop tag sz offset limit rest (skipped + 1) out =
          out @ take (max 1 limit - length out) (drop (offset - (skipped + 1)) (filter (matches tag sz) rest))"
        by (intro Cons.IH) auto
      moreover from 1 have "offset - skipped = Suc (offset - (skipped + 1))" by simp
      ultimately show ?thesis using 1 m neg by auto
    next
      case 2
      with Cons.prems have "max 1 limit - length out = 1" by auto
      with 2 m neg show ?thesis by auto
    next
      case 3
      then have "query_loop tag sz offset limit rest (skipped + 1) (out @ [it]) =
          (out @ [it]) @ take (max 1 limit - length (out @ [it]))
            (drop (offset - (skipped + 1)) (filter (matches tag sz) rest))"
        by (intro Cons.IH) auto
      moreover from 3 have "max 1 limit - length out = Suc (max 1 limit - length (out @ [it]))" by simp
      ultimately show ?thesis using 3 m neg by auto
    qed
  qed
qed simp

lemma cat_query_eq:
  "cat_query c tag sz offset limit =
     take (max 1 limit) (drop offset (filter (matches tag sz) (cat_items c)))"
  unfolding cat_query_def by (subst query_loop_eq) simp_all

section \<open>What request handlers rely on\<close>

text \<open>
  The contract of a snapshot towards its readers, and what follows from it: no card of a
  page leads nowhere while the same snapshot is served.
\<close>

locale snapshot_view =
  fixes wf :: "'c \<Rightarrow> bool" and feed_of :: "'c \<Rightarrow> item list"
    and lookup :: "'c \<Rightarrow> int \<Rightarrow> item option"
    and page :: "'c \<Rightarrow> string \<Rightarrow> string \<Rightarrow> nat \<Rightarrow> nat \<Rightarrow> item list"
  assumes lookup_sound: "wf c \<Longrightarrow> lookup c i = Some x \<Longrightarrow> x \<in> set (feed_of c) \<and> it_id x = i"
    and lookup_complete: "wf c \<Longrightarrow> x \<in> set (feed_of c) \<Longrightarrow> lookup c (it_id x) \<noteq> None"
    and page_sound: "wf c \<Longrightarrow> x \<in> set (page c t z n k) \<Longrightarrow> x \<in> set (feed_of c) \<and> matches t z x"
begin

lemma page_item_found:
  "wf c \<Longrightarrow> x \<in> set (page c t z n k) \<Longrightarrow> \<exists>y. lookup c (it_id x) = Some y \<and> it_id y = it_id x"
  using lookup_complete lookup_sound page_sound by (metis option.exhaust)

lemma page_item_unique:
  assumes "wf c" and "distinct (map it_id (feed_of c))" and "x \<in> set (page c t z n k)"
  shows "lookup c (it_id x) = Some x"
proof -
  from page_item_found [OF assms(1,3)] obtain y where
    y: "lookup c (it_id x) = Some y" "it_id y = it_id x" by blast
  with lookup_sound [OF assms(1)] page_sound [OF assms(1,3)] have "y \<in> set (feed_of c)" "x \<in> set (feed_of c)"
    by auto
  with assms(2) y(2) have "y = x" by (simp add: distinct_map inj_on_def)
  with y show ?thesis by simp
qed

end

interpretation snapshot: snapshot_view catalog_wf cat_feed cat_find cat_query
proof
  fix c i x
  assume "catalog_wf c" "cat_find c i = Some x"
  then show "x \<in> set (cat_feed c) \<and> it_id x = i"
    using find_eq_SomeD [of "\<lambda>x. it_id x = i" "cat_items c" x] by (simp add: cat_find_eq cat_feed_def)
next
  fix c x
  assume "catalog_wf c" "x \<in> set (cat_feed c)"
  then show "cat_find c (it_id x) \<noteq> None"
    by (auto simp: cat_find_eq cat_feed_def find_None_iff)
next
  fix c x t z n k
  assume "x \<in> set (cat_query c t z n k)"
  then show "x \<in> set (cat_feed c) \<and> matches t z x"
    by (auto simp: cat_query_eq cat_feed_def dest!: in_set_takeD in_set_dropD)
qed

text \<open>With distinct ids (the primary keys) a lookup finds exactly what the database gave for the id.\<close>

lemma catalog_lookup:
  assumes "distinct (map it_id items)" and "distinct (map pt_id partners)"
  shows "cat_find (make_catalog now items partners) i = Some x \<longleftrightarrow> x \<in> set items \<and> it_id x = i"
    and "cat_partner (make_catalog now items partners) j = Some p \<longleftrightarrow> p \<in> set partners \<and> pt_id p = j"
proof -
  let ?c = "make_catalog now items partners"
  have "mset (map it_id (cat_items ?c)) = mset (map it_id items)"
    using feed.mset_stable_sort [of items] by (simp add: make_catalog_def Let_def)
  with assms(1) have dist: "distinct (map it_id (cat_items ?c))"
    by (metis mset_eq_imp_distinct_iff)
  have parts: "cat_partners ?c = partners" by (simp add: make_catalog_def Let_def)
  have item: "List.find (\<lambda>y. it_id y = i) (cat_items ?c) = Some x \<longleftrightarrow> x \<in> set items \<and> it_id x = i"
    using find_Some_distinct [OF dist, of x] find_eq_SomeD [of "\<lambda>y. it_id y = i" "cat_items ?c" x] by auto
  have part: "List.find (\<lambda>y. pt_id y = j) partners = Some p \<longleftrightarrow> p \<in> set partners \<and> pt_id p = j"
    using find_Some_distinct [OF assms(2), of p] find_eq_SomeD [of "\<lambda>y. pt_id y = j" partners p] by auto
  from item part show "cat_find ?c i = Some x \<longleftrightarrow> x \<in> set items \<and> it_id x = i"
    "cat_partner ?c j = Some p \<longleftrightarrow> p \<in> set partners \<and> pt_id p = j"
    by (simp_all add: cat_find_eq cat_partner_eq make_catalog_wf parts)
qed

section \<open>Properties\<close>

text \<open>
  \<^bold>\<open>C37.\<close> A snapshot holds the rows in feed order whatever order they are handed over in:
  the feed is the given items, each as often as given, by falling score and among equal scores by
  falling publication time, an item that has none counting as published at time 0; items with
  the same score and the same publication time stay in the order in which they were given. These
  three conditions determine the feed, and rows that are in feed order already are left as they
  are.
\<close>

theorem make_catalog_feed_order:
  "let pub = (\<lambda>x. case it_published_at x of None \<Rightarrow> 0 | Some t \<Rightarrow> t);
       in_order = sorted_wrt (\<lambda>x y. it_score y < it_score x \<or> it_score x = it_score y \<and> pub y \<le> pub x);
       level = (\<lambda>sc t. filter (\<lambda>x. it_score x = sc \<and> pub x = t))
   in in_order feed \<and> mset feed = mset items \<and> (\<forall>sc t. level sc t feed = level sc t items) \<longleftrightarrow>
      feed = cat_feed (make_catalog now items partners)"
proof -
  let ?pub = "\<lambda>x::item. case it_published_at x of None \<Rightarrow> 0 | Some t \<Rightarrow> t"
  let ?level = "\<lambda>sc t. filter (\<lambda>x. it_score x = sc \<and> ?pub x = t)"
  have before: "(\<lambda>x y. it_score y < it_score x \<or> it_score x = it_score y \<and> ?pub y \<le> ?pub x) = (\<lambda>x y. \<not> feed_less y x)"
    by (auto simp: feed_less_def published_or_zero_def fun_eq_iff)
  have tied: "feed.tied a = (\<lambda>x. it_score x = it_score a \<and> ?pub x = ?pub a)" for a
    by (auto simp: feed_less_def published_or_zero_def fun_eq_iff split: if_splits)
  have feed: "cat_feed (make_catalog now items partners) = stable_sort feed_less items"
    by (simp add: make_catalog_def cat_feed_def Let_def)
  have levels: "?level sc t (stable_sort feed_less items) = ?level sc t items" for sc t
  proof (cases "\<exists>a \<in> set items. it_score a = sc \<and> ?pub a = t")
    case True
    then obtain a where "it_score a = sc" "?pub a = t" by blast
    with feed.filter_stable_sort [of a items] show ?thesis by (simp only: tied)
  next
    case False
    moreover have "set (stable_sort feed_less items) = set items" using feed.mset_stable_sort by (rule mset_eq_setD)
    ultimately have "?level sc t (stable_sort feed_less items) = []" and "?level sc t items = []"
      by (simp_all only: filter_empty_conv) blast+
    then show ?thesis by (simp only:)
  qed
  have "ys = stable_sort feed_less items"
    if "feed.ordered ys" and "\<forall>sc t. ?level sc t ys = ?level sc t items" for ys
    using that by (intro feed.stable_sort_unique) (simp_all only: tied)
  then show ?thesis
    unfolding Let_def before feed
    using feed.ordered_stable_sort feed.mset_stable_sort levels by blast
qed

definition sample_item :: "int \<Rightarrow> rat \<Rightarrow> ts_ms \<Rightarrow> item" where
  "sample_item i sc pub = item_default\<lparr> it_id := i, it_score := sc, it_published_at := Some pub,
     it_status := Published \<rparr>"

definition mixed_items :: "item list" where
  "mixed_items = [sample_item 1 1 100, sample_item 2 5 50, sample_item 3 5 90, sample_item 4 5 50,
     (sample_item 5 5 0)\<lparr> it_published_at := None \<rparr>]"

theorem make_catalog_feed_order_witness:
  "map it_id (cat_feed (make_catalog 0 mixed_items [])) = [3, 2, 4, 5, 1]"
proof -
  have "[sample_item 3 5 90, sample_item 2 5 50, sample_item 4 5 50,
      (sample_item 5 5 0)\<lparr> it_published_at := None \<rparr>, sample_item 1 1 100] = cat_feed (make_catalog 0 mixed_items [])"
    by (rule make_catalog_feed_order [unfolded Let_def, THEN iffD1])
      (auto simp: mixed_items_def sample_item_def item_default_def)
  from this [symmetric] show ?thesis by (simp add: sample_item_def)
qed

text \<open>
  \<^bold>\<open>C38.\<close> A page is a slice of the feed: the items that carry the tag and the size (an empty
  filter matches everything), in feed order, without the first \<open>offset\<close> of them and cut at
  \<open>max 1 limit\<close>. The limit is tested only after an item was appended, so it cuts exactly
  when it is positive, and a limit of 0 returns one item and not none.
\<close>

theorem cat_query_is_slice:
  "cat_query c tag sz offset limit =
     take (max 1 limit)
       (drop offset (filter (\<lambda>x. (tag = [] \<or> tag \<in> set (it_tags x)) \<and> (sz = [] \<or> sz \<in> set (it_sizes x)))
         (cat_feed c)))"
  unfolding cat_query_eq cat_feed_def by (simp add: matches_def [abs_def])

end
