(* ===== verification/Events.thy ===== *)
theory Events
  imports Models
begin

text \<open>
  The queues between the request thread and the database thread, the IP hash and the
  classification of user agents: \<open>src/events.hpp\<close> and \<open>src/events.cpp\<close>. Every queue
  operation holds the mutex for its whole body, so a run of the two threads is a sequence
  of whole operations. libsodium's \<open>crypto_generichash\<close> is a parameter.
\<close>

section \<open>The queues\<close>

record event_queue =
  eq_pending :: "event list"
  eq_max_pending :: nat
  eq_dropped :: nat

definition new_event_queue :: "nat \<Rightarrow> event_queue" where
  "new_event_queue max_pending = \<lparr> eq_pending = [], eq_max_pending = max_pending, eq_dropped = 0 \<rparr>"

definition event_push :: "event \<Rightarrow> event_queue \<Rightarrow> bool \<times> event_queue" where
  "event_push ev q =
     (if eq_max_pending q \<le> length (eq_pending q)
      then (False, q\<lparr> eq_dropped := (eq_dropped q + 1) mod 2 ^ 64 \<rparr>)
      else (True, q\<lparr> eq_pending := eq_pending q @ [ev] \<rparr>))"

text \<open>\<open>out.clear(); pending_.swap(out);\<close>\<close>

definition event_drain :: "event list \<Rightarrow> event_queue \<Rightarrow> event list \<times> event_queue" where
  "event_drain out q = (let cleared = [] in (eq_pending q, q\<lparr> eq_pending := cleared \<rparr>))"

definition event_dropped :: "event_queue \<Rightarrow> nat" where
  "event_dropped q = eq_dropped q"

record conversion_queue =
  cq_pending :: "conversion list"

definition new_conversion_queue :: conversion_queue where
  "new_conversion_queue = \<lparr> cq_pending = [] \<rparr>"

definition conversion_push :: "conversion \<Rightarrow> conversion_queue \<Rightarrow> bool \<times> conversion_queue" where
  "conversion_push c q = (True, q\<lparr> cq_pending := cq_pending q @ [c] \<rparr>)"

definition conversion_drain :: "conversion list \<Rightarrow> conversion_queue \<Rightarrow> conversion list \<times> conversion_queue" where
  "conversion_drain out q = (let cleared = [] in (cq_pending q, q\<lparr> cq_pending := cleared \<rparr>))"

section \<open>The IP hash\<close>

definition crypto_generichash_BYTES_MIN :: nat where
  "crypto_generichash_BYTES_MIN = 16"

text \<open>
  \<open>crypto_generichash outlen in key\<close> is the digest written to the output buffer, or
  \<open>None\<close> when the call returns an error and writes nothing. The source does not look at
  the return value, so the buffer is then still the zero-initialised array.
\<close>

definition hash_ip :: "(nat \<Rightarrow> string \<Rightarrow> string \<Rightarrow> byte list option) \<Rightarrow> string \<Rightarrow> string \<Rightarrow> byte list" where
  "hash_ip crypto_generichash ip secret =
     (case crypto_generichash crypto_generichash_BYTES_MIN ip secret of
        None \<Rightarrow> replicate crypto_generichash_BYTES_MIN 0
      | Some digest \<Rightarrow> digest)"

section \<open>User agents\<close>

text \<open>\<open>std::tolower\<close> in the default locale.\<close>

definition tolower :: "char \<Rightarrow> char" where
  "tolower c = (if 65 \<le> char_code c \<and> char_code c \<le> 90 then char_of (char_code c + 32) else c)"

definition kBotMarkers :: "string list" where
  "kBotMarkers = [''bot'', ''crawler'', ''spider'', ''slurp'', ''curl'', ''wget'', ''python-requests'',
     ''headlesschrome'', ''yandex.com/bots'', ''facebookexternalhit'', ''preview'']"

definition kMobileMarkers :: "string list" where
  "kMobileMarkers = [''mobile'', ''android'', ''iphone'', ''ipad'', ''ipod'', ''opera mini'']"

definition classify_ua :: "string \<Rightarrow> string" where
  "classify_ua user_agent =
     (let ua = map tolower user_agent
      in if list_ex (contains ua) kBotMarkers then ''bot''
         else if list_ex (contains ua) kMobileMarkers then ''mobile''
         else if ua = [] then ''bot''
         else ''desktop'')"

section \<open>The contract of a queue\<close>

datatype 'a queue_op = Push 'a | Drain

text \<open>
  A run of operations: the values accepted by \<open>push\<close> and the values handed out by
  \<open>drain\<close>, each in order, and the final queue.
\<close>

fun run_queue ::
  "('a \<Rightarrow> 'q \<Rightarrow> bool \<times> 'q) \<Rightarrow> ('a list \<Rightarrow> 'q \<Rightarrow> 'a list \<times> 'q) \<Rightarrow> 'a queue_op list \<Rightarrow> 'q \<Rightarrow>
     'a list \<times> 'a list \<times> 'q" where
  "run_queue push drain [] q = ([], [], q)"
| "run_queue push drain (Push x # ops) q =
     (case push x q of (ok, q') \<Rightarrow>
        (case run_queue push drain ops q' of (acc, got, q'') \<Rightarrow> (if ok then x # acc else acc, got, q'')))"
| "run_queue push drain (Drain # ops) q =
     (case drain [] q of (batch, q') \<Rightarrow>
        (case run_queue push drain ops q' of (acc, got, q'') \<Rightarrow> (acc, batch @ got, q'')))"

locale drained_queue =
  fixes push :: "'a \<Rightarrow> 'q \<Rightarrow> bool \<times> 'q"
    and drain :: "'a list \<Rightarrow> 'q \<Rightarrow> 'a list \<times> 'q"
    and contents :: "'q \<Rightarrow> 'a list"
  assumes push_accepted: "push x q = (True, q') \<Longrightarrow> contents q' = contents q @ [x]"
    and push_rejected: "push x q = (False, q') \<Longrightarrow> contents q' = contents q"
    and drain_batch: "drain out q = (batch, q') \<Longrightarrow> batch = contents q"
    and drain_empties: "drain out q = (batch, q') \<Longrightarrow> contents q' = []"
begin

lemma fifo:
  "run_queue push drain ops q = (acc, got, q') \<Longrightarrow> got @ contents q' = contents q @ acc"
proof (induction ops arbitrary: q acc got)
  case Nil
  then show ?case by simp
next
  case (Cons op ops)
  show ?case
  proof (cases op)
    case (Push x)
    with Cons.prems obtain ok q1 acc1 where
      p: "push x q = (ok, q1)" and r: "run_queue push drain ops q1 = (acc1, got, q')"
      and acc: "acc = (if ok then x # acc1 else acc1)"
      by (auto split: prod.splits)
    from Cons.IH [OF r] p acc push_accepted [of x q q1] push_rejected [of x q q1] show ?thesis
      by (cases ok) simp_all
  next
    case Drain
    with Cons.prems obtain batch q1 got1 where
      d: "drain [] q = (batch, q1)" and r: "run_queue push drain ops q1 = (acc, got1, q')"
      and got: "got = batch @ got1"
      by (auto split: prod.splits)
    from Cons.IH [OF r] got drain_batch [OF d] drain_empties [OF d] show ?thesis by simp
  qed
qed

end

interpretation events: drained_queue event_push event_drain eq_pending
  by unfold_locales (auto simp: event_push_def event_drain_def split: if_splits)

interpretation conversions: drained_queue conversion_push conversion_drain cq_pending
  by unfold_locales (auto simp: conversion_push_def conversion_drain_def)

section \<open>Lemmas on the queues\<close>

definition event_queue_inv :: "event_queue \<Rightarrow> bool" where
  "event_queue_inv q \<longleftrightarrow> length (eq_pending q) \<le> eq_max_pending q"

lemma event_queue_inv_new: "event_queue_inv (new_event_queue n)"
  by (simp add: event_queue_inv_def new_event_queue_def)

lemma event_queue_inv_push: "event_queue_inv q \<Longrightarrow> event_queue_inv (snd (event_push ev q))"
  by (simp add: event_queue_inv_def event_push_def)

lemma event_queue_inv_drain: "event_queue_inv (snd (event_drain out q))"
  by (simp add: event_queue_inv_def event_drain_def)

lemma event_push_max: "eq_max_pending (snd (event_push ev q)) = eq_max_pending q"
  by (simp add: event_push_def)

lemma event_drain_max: "eq_max_pending (snd (event_drain out q)) = eq_max_pending q"
  by (simp add: event_drain_def)

lemma run_event_queue_max:
  "run_queue event_push event_drain ops q = (acc, got, q') \<Longrightarrow> eq_max_pending q' = eq_max_pending q"
proof (induction ops arbitrary: q acc got)
  case (Cons op ops)
  then show ?case
    by (cases op) (auto simp: event_push_def event_drain_def split: prod.splits if_splits)
qed simp

lemma run_event_queue_inv:
  "run_queue event_push event_drain ops q = (acc, got, q') \<Longrightarrow> event_queue_inv q \<Longrightarrow> event_queue_inv q'"
proof (induction ops arbitrary: q acc got)
  case (Cons op ops)
  then show ?case
    by (cases op)
      (auto split: prod.splits if_splits dest: event_queue_inv_push [of _ "op" for op]
        simp: event_push_def event_drain_def event_queue_inv_def)
qed simp

definition pushes :: "'a queue_op list \<Rightarrow> 'a list" where
  "pushes ops = concat (map (\<lambda>op. case op of Push x \<Rightarrow> [x] | Drain \<Rightarrow> []) ops)"

lemma run_event_queue_count:
  "run_queue event_push event_drain ops q = (acc, got, q') \<Longrightarrow>
     eq_dropped q' mod 2 ^ 64 = (eq_dropped q + (length (pushes ops) - length acc)) mod 2 ^ 64 \<and>
     length acc \<le> length (pushes ops)"
proof (induction ops arbitrary: q acc got)
  case Nil
  then show ?case by (simp add: pushes_def)
next
  case (Cons op ops)
  show ?case
  proof (cases op)
    case (Push x)
    with Cons.prems obtain ok q1 acc1 where
      p: "event_push x q = (ok, q1)" and r: "run_queue event_push event_drain ops q1 = (acc1, got, q')"
      and acc: "acc = (if ok then x # acc1 else acc1)"
      by (auto split: prod.splits)
    have len: "length (pushes (op # ops)) = Suc (length (pushes ops))"
      by (simp add: Push pushes_def)
    define d where "d = length (pushes ops) - length acc1"
    from Cons.IH [OF r] have le: "length acc1 \<le> length (pushes ops)"
      and eq: "eq_dropped q' mod 2 ^ 64 = (eq_dropped q1 + d) mod 2 ^ 64"
      by (simp_all add: d_def)
    show ?thesis
    proof (cases ok)
      case True
      with p have "eq_dropped q1 = eq_dropped q" by (auto simp: event_push_def split: if_splits)
      with True le eq acc len show ?thesis by (simp add: d_def)
    next
      case False
      with p have "eq_dropped q1 = (eq_dropped q + 1) mod 2 ^ 64" by (auto simp: event_push_def split: if_splits)
      with eq have "eq_dropped q' mod 2 ^ 64 = (eq_dropped q + Suc d) mod 2 ^ 64"
        by (simp only: mod_add_left_eq) simp
      moreover from le have "Suc (length (pushes ops)) - length acc1 = Suc d" by (simp add: d_def)
      ultimately show ?thesis using False le acc len by (simp only: if_False) simp
    qed
  next
    case Drain
    with Cons.prems Cons.IH show ?thesis
      by (auto simp: event_drain_def pushes_def split: prod.splits)
  qed
qed

lemma run_conversion_queue_accepts:
  "run_queue conversion_push conversion_drain ops q = (acc, got, q') \<Longrightarrow> acc = pushes ops"
proof (induction ops arbitrary: q acc got)
  case (Cons op ops)
  then show ?case
    by (cases op) (auto simp: conversion_push_def conversion_drain_def pushes_def split: prod.splits)
qed (simp add: pushes_def)

section \<open>Lemmas on user agents\<close>

lemma tolower_idem [simp]: "tolower (tolower c) = tolower c"
  by (auto simp: tolower_def char_code_char_of)

lemma list_ex_contains:
  "list_ex (contains s) ms \<longleftrightarrow> (\<exists>m \<in> set ms. \<exists>u v. s = u @ m @ v)"
  by (auto simp: list_ex_iff contains_iff)

lemma no_marker_in_empty: "\<not> list_ex (contains []) kMobileMarkers"
  by (simp add: kMobileMarkers_def contains_def)

section \<open>Properties\<close>

text \<open>
  \<^bold>\<open>C33.\<close> Over any sequence of pushes and drains of a fresh event queue, what the
  database thread received followed by what is still pending is exactly the accepted
  events in order: nothing is lost, duplicated or reordered. The buffer never exceeds its
  capacity, and the drop counter is the number of refused pushes (as a 64-bit counter).
\<close>

theorem event_queue_exact:
  assumes "run_queue event_push event_drain ops (new_event_queue cap) = (accepted, drained, q)"
  shows "drained @ eq_pending q = accepted \<and> length (eq_pending q) \<le> cap \<and>
    event_dropped q mod 2 ^ 64 = (length (pushes ops) - length accepted) mod 2 ^ 64"
proof (intro conjI)
  show "drained @ eq_pending q = accepted"
    using events.fifo [OF assms] by (simp add: new_event_queue_def)
  show "length (eq_pending q) \<le> cap"
    using run_event_queue_inv [OF assms event_queue_inv_new] run_event_queue_max [OF assms]
    by (simp add: event_queue_inv_def new_event_queue_def)
  show "event_dropped q mod 2 ^ 64 = (length (pushes ops) - length accepted) mod 2 ^ 64"
    using run_event_queue_count [OF assms] by (simp add: event_dropped_def new_event_queue_def)
qed

theorem event_queue_exact_witness:
  "\<exists>accepted drained q.
     run_queue event_push event_drain
       [Push event_default, Push event_default, Push event_default, Drain, Push event_default]
       (new_event_queue 2) = (accepted, drained, q) \<and>
     drained @ eq_pending q = accepted \<and> length (eq_pending q) \<le> 2"
proof -
  let ?ops = "[Push event_default, Push event_default, Push event_default, Drain, Push event_default]"
  obtain accepted drained q where
    r: "run_queue event_push event_drain ?ops (new_event_queue 2) = (accepted, drained, q)"
    using prod_cases3 by blast
  from event_queue_exact [OF r] r show ?thesis by blast
qed

text \<open>
  The conversion queue drops nothing: over any sequence of pushes and drains,
  what was drained followed by what is pending is every pushed conversion in order.
\<close>

theorem conversion_queue_lossless:
  assumes "run_queue conversion_push conversion_drain ops new_conversion_queue = (accepted, drained, q)"
  shows "drained @ cq_pending q = pushes ops"
  using conversions.fifo [OF assms] run_conversion_queue_accepts [OF assms]
  by (simp add: new_conversion_queue_def)

theorem conversion_queue_lossless_witness:
  "\<exists>accepted drained q.
     run_queue conversion_push conversion_drain
       [Push conversion_default, Drain, Push (conversion_default\<lparr> cv_ts := 1 \<rparr>)] new_conversion_queue =
         (accepted, drained, q) \<and>
     drained @ cq_pending q = [conversion_default, conversion_default\<lparr> cv_ts := 1 \<rparr>]"
proof -
  let ?ops = "[Push conversion_default, Drain, Push (conversion_default\<lparr> cv_ts := 1 \<rparr>)]"
  obtain accepted drained q where
    r: "run_queue conversion_push conversion_drain ?ops new_conversion_queue = (accepted, drained, q)"
    using prod_cases3 by blast
  from conversion_queue_lossless [OF r] r show ?thesis by (auto simp: pushes_def)
qed

text \<open>
  Every user agent is classified as \<open>bot\<close>, \<open>mobile\<close> or \<open>desktop\<close>;
  it is a bot exactly when it is empty or contains one of the bot markers in any
  capitalisation, whatever else it claims to be; and the classification does not depend
  on capitalisation.
\<close>

theorem classify_ua_correct:
  "classify_ua ua \<in> {''bot'', ''mobile'', ''desktop''} \<and>
   (classify_ua ua = ''bot'' \<longleftrightarrow>
      ua = [] \<or> (\<exists>m \<in> set kBotMarkers. \<exists>u v. map tolower ua = u @ m @ v)) \<and>
   classify_ua (map tolower ua) = classify_ua ua"
  unfolding list_ex_contains [symmetric] using no_marker_in_empty
  by (auto simp: classify_ua_def Let_def comp_def)

text \<open>
  The return value of \<open>crypto_generichash\<close> is not checked. libsodium
  documents a maximal key size of 64 bytes; with a longer configured secret the call fails
  and every client address is recorded as the same 16 zero bytes.
\<close>

theorem hash_ip_long_secret_collapses:
  assumes key_limit: "\<And>n msg key. 64 < length key \<Longrightarrow> generichash n msg key = None"
    and "64 < length secret"
  shows "hash_ip generichash ip secret = replicate 16 0 \<and>
    hash_ip generichash ip secret = hash_ip generichash ip' secret"
  using assms by (simp add: hash_ip_def crypto_generichash_BYTES_MIN_def)

definition toy_generichash :: "nat \<Rightarrow> string \<Rightarrow> string \<Rightarrow> byte list option" where
  "toy_generichash n msg key =
     (if 64 < length key then None
      else Some (map (\<lambda>i. of_nat (sum_list (map char_code (msg @ key)) + i)) [0..<n]))"

theorem hash_ip_long_secret_collapses_witness:
  "hash_ip toy_generichash ''192.0.2.1'' (replicate 65 (CHR ''k'')) =
     hash_ip toy_generichash ''192.0.2.2'' (replicate 65 (CHR ''k''))"
proof -
  have limit: "64 < length key \<Longrightarrow> toy_generichash n msg key = None" for n msg key
    by (simp add: toy_generichash_def)
  have "64 < length (replicate 65 (CHR ''k''))" by simp
  from hash_ip_long_secret_collapses [OF limit this] show ?thesis by (rule conjunct2)
qed

end
