(* ===== verification/Sql_Conn.thy ===== *)
theory Sql_Conn
  imports Prelude
begin

text \<open>
  The connection layer of \<open>src/db.cpp\<close>: the statement wrapper \<open>Stmt\<close>, \<open>DbConn::exec\<close>
  and the transaction pattern \<open>BEGIN; try { ... COMMIT; } catch (...) { ROLLBACK; throw; }\<close>.

  sqlite itself is not part of the sources. The effect of a statement is given by the SQL
  text in the sources and is a function on the stored tables; everything else sqlite may do
  (a busy or full database, an I/O error, an error that rolls the open transaction back)
  is the parameter \<open>faults\<close>: what happens to the n-th call on the connection. A
  C++ exception is a left value of the sum, and the connection after it is part of the
  result, because the handlers of the exception go on using it.
\<close>

section \<open>Connections and statements\<close>

datatype sql_error = IoError | UniqueFailed | CheckFailed | ForeignKeyFailed | NoTransaction | NestedTransaction
  | FileError | BindFailed | NotNullFailed | WrongType

datatype fault = NoFault | Fails | FailsRollingBack

type_synonym faults = "nat \<Rightarrow> fault"

record 'd conn =
  cn_db :: 'd
  cn_saved :: "'d option"
  cn_calls :: nat
  cn_foreign_keys :: bool

type_synonym ('d, 'a) dbm = "'d conn \<Rightarrow> (sql_error + 'a) \<times> 'd conn"

definition db_return :: "'a \<Rightarrow> ('d, 'a) dbm" where
  "db_return a c = (Inr a, c)"

definition db_bind :: "('d, 'a) dbm \<Rightarrow> ('a \<Rightarrow> ('d, 'b) dbm) \<Rightarrow> ('d, 'b) dbm" where
  "db_bind m f c = (case m c of (Inl e, c') \<Rightarrow> (Inl e, c') | (Inr a, c') \<Rightarrow> f a c')"

text \<open>\<open>try { m } catch (...) { h; throw; }\<close>: an exception of the handler replaces the first.\<close>

definition db_rethrow_after :: "('d, 'a) dbm \<Rightarrow> ('d, unit) dbm \<Rightarrow> ('d, 'a) dbm" where
  "db_rethrow_after m h c =
     (case m c of
        (Inr a, c') \<Rightarrow> (Inr a, c')
      | (Inl e, c') \<Rightarrow> (case h c' of (Inl e', c'') \<Rightarrow> (Inl e', c'') | (Inr u, c'') \<Rightarrow> (Inl e, c'')))"

definition roll_back :: "'d conn \<Rightarrow> 'd conn" where
  "roll_back c = (case cn_saved c of None \<Rightarrow> c | Some s \<Rightarrow> c\<lparr> cn_db := s, cn_saved := None \<rparr>)"

text \<open>One call into sqlite whose effect, when sqlite performs it, is \<open>f\<close>.\<close>

definition sqlite_call :: "faults \<Rightarrow> ('d conn \<Rightarrow> (sql_error + 'a) \<times> 'd conn) \<Rightarrow> ('d, 'a) dbm" where
  "sqlite_call faults f c =
     (let c1 = c\<lparr> cn_calls := Suc (cn_calls c) \<rparr>
      in case faults (cn_calls c) of
           NoFault \<Rightarrow> f c1
         | Fails \<Rightarrow> (Inl IoError, c1)
         | FailsRollingBack \<Rightarrow> (Inl IoError, roll_back c1))"

text \<open>
  \<open>Stmt::step\<close> on a prepared statement: rows or a changed table, or an exception. A
  statement that fails on a constraint changes nothing.
\<close>

definition stmt_step :: "faults \<Rightarrow> ('d \<Rightarrow> sql_error + 'a \<times> 'd) \<Rightarrow> ('d, 'a) dbm" where
  "stmt_step faults f =
     sqlite_call faults
       (\<lambda>c. case f (cn_db c) of Inl e \<Rightarrow> (Inl e, c) | Inr (a, d) \<Rightarrow> (Inr a, c\<lparr> cn_db := d \<rparr>))"

definition stmt_read :: "faults \<Rightarrow> ('d \<Rightarrow> 'a) \<Rightarrow> ('d, 'a) dbm" where
  "stmt_read faults f = stmt_step faults (\<lambda>d. Inr (f d, d))"

text \<open>
  A statement that writes rows with references depends on the connection's \<open>foreign_keys\<close>
  setting: sqlite checks the references only when it is on.
\<close>

definition with_pragma :: "(bool \<Rightarrow> ('d, 'a) dbm) \<Rightarrow> ('d, 'a) dbm" where
  "with_pragma m c = m (cn_foreign_keys c) c"

section \<open>Transactions\<close>

definition exec_begin :: "faults \<Rightarrow> ('d, unit) dbm" where
  "exec_begin faults =
     sqlite_call faults
       (\<lambda>c. if cn_saved c \<noteq> None then (Inl NestedTransaction, c) else (Inr (), c\<lparr> cn_saved := Some (cn_db c) \<rparr>))"

definition exec_commit :: "faults \<Rightarrow> ('d, unit) dbm" where
  "exec_commit faults =
     sqlite_call faults
       (\<lambda>c. if cn_saved c = None then (Inl NoTransaction, c) else (Inr (), c\<lparr> cn_saved := None \<rparr>))"

definition exec_rollback :: "faults \<Rightarrow> ('d, unit) dbm" where
  "exec_rollback faults =
     sqlite_call faults
       (\<lambda>c. if cn_saved c = None then (Inl NoTransaction, c) else (Inr (), roll_back c))"

text \<open>The pattern \<open>insert_events\<close> and \<open>apply_migrations\<close> share.\<close>

definition in_transaction :: "faults \<Rightarrow> ('d, 'a) dbm \<Rightarrow> ('d, 'a) dbm" where
  "in_transaction faults body =
     db_bind (exec_begin faults)
       (\<lambda>_. db_rethrow_after
              (db_bind body (\<lambda>a. db_bind (exec_commit faults) (\<lambda>_. db_return a)))
              (exec_rollback faults))"

text \<open>The tables other connections see: an open transaction is not visible to them.\<close>

definition committed :: "'d conn \<Rightarrow> 'd" where
  "committed c = (case cn_saved c of None \<Rightarrow> cn_db c | Some s \<Rightarrow> s)"

text \<open>
  \<open>DbConn::DbConn\<close>: \<open>sqlite3_open\<close> and three pragmas, each of which may fail. A fresh connection
  does not check references, as sqlite has it by default; \<open>PRAGMA foreign_keys = ON\<close> makes it, and is
  ignored inside a transaction. The journal mode and the busy timeout change no table and no result
  of a statement that sqlite performs.
\<close>

definition new_conn :: "'d \<Rightarrow> 'd conn" where
  "new_conn d = \<lparr> cn_db = d, cn_saved = None, cn_calls = 0, cn_foreign_keys = False \<rparr>"

definition exec_pragma :: "faults \<Rightarrow> ('d conn \<Rightarrow> 'd conn) \<Rightarrow> ('d, unit) dbm" where
  "exec_pragma faults setting = sqlite_call faults (\<lambda>c. (Inr (), setting c))"

definition foreign_keys_on :: "'d conn \<Rightarrow> 'd conn" where
  "foreign_keys_on c = (if cn_saved c = None then c\<lparr> cn_foreign_keys := True \<rparr> else c)"

definition connect :: "faults \<Rightarrow> ('d, unit) dbm" where
  "connect faults =
     db_bind (sqlite_call faults (\<lambda>c. (Inr (), c))) (\<lambda>_.
     db_bind (exec_pragma faults (\<lambda>c. c)) (\<lambda>_.
     db_bind (exec_pragma faults foreign_keys_on) (\<lambda>_.
       exec_pragma faults (\<lambda>c. c))))"

text \<open>The connection when none of that fails.\<close>

definition opened_conn :: "'d \<Rightarrow> 'd conn" where
  "opened_conn d = \<lparr> cn_db = d, cn_saved = None, cn_calls = 4, cn_foreign_keys = True \<rparr>"

text \<open>
  A block that owns a connection, \<open>{ DbConn conn(path); ... }\<close>: the result of the block, and the
  tables after \<open>sqlite3_close\<close>, which rolls an open transaction back.
\<close>

definition with_conn :: "faults \<Rightarrow> 'd \<Rightarrow> ('d, 'a) dbm \<Rightarrow> (sql_error + 'a) \<times> 'd" where
  "with_conn faults d body =
     (case db_bind (connect faults) (\<lambda>_. body) (new_conn d) of (r, c) \<Rightarrow> (r, committed c))"

section \<open>Evaluation and case analysis\<close>

named_theorems dbm_simps \<open>unfolding of the connection combinators\<close>

declare db_return_def [dbm_simps] db_bind_def [dbm_simps] db_rethrow_after_def [dbm_simps]
  sqlite_call_def [dbm_simps] stmt_step_def [dbm_simps] stmt_read_def [dbm_simps]
  exec_begin_def [dbm_simps] exec_commit_def [dbm_simps] exec_rollback_def [dbm_simps]
  roll_back_def [dbm_simps]

lemma db_bind_Inr:
  "db_bind m f c = (Inr b, c') \<longleftrightarrow> (\<exists>a c1. m c = (Inr a, c1) \<and> f a c1 = (Inr b, c'))"
  by (auto simp: db_bind_def split: prod.splits sum.splits)

lemma db_bind_Inl:
  "db_bind m f c = (Inl e, c') \<longleftrightarrow>
     m c = (Inl e, c') \<or> (\<exists>a c1. m c = (Inr a, c1) \<and> f a c1 = (Inl e, c'))"
  by (auto simp: db_bind_def split: prod.splits sum.splits)

lemma db_bind_return [simp]: "db_bind (db_return a) f = f a"
  by (rule ext) (simp add: db_bind_def db_return_def)

lemma stmt_step_cases:
  assumes "stmt_step faults f c = (r, c')"
  obtains (performed) a d where "f (cn_db c) = Inr (a, d)" "r = Inr a"
      "cn_db c' = d" "cn_saved c' = cn_saved c" "cn_foreign_keys c' = cn_foreign_keys c"
    | (refused) e where "r = Inl e" "cn_db c' = cn_db c" "cn_saved c' = cn_saved c"
        "cn_foreign_keys c' = cn_foreign_keys c"
    | (rolled_back) s where "r = Inl IoError" "cn_saved c = Some s" "cn_db c' = s" "cn_saved c' = None"
        "cn_foreign_keys c' = cn_foreign_keys c"
  using assms
  by (auto simp: dbm_simps Let_def split: fault.splits sum.splits option.splits prod.splits)

lemma stmt_step_Inr:
  "stmt_step faults f c = (Inr a, c') \<Longrightarrow> f (cn_db c) = Inr (a, cn_db c') \<and> cn_saved c' = cn_saved c"
  by (auto elim!: stmt_step_cases)

lemma with_pragma_step_Inr:
  "with_pragma (\<lambda>fk. stmt_step faults (f fk)) c = (Inr a, c') \<Longrightarrow>
     f (cn_foreign_keys c) (cn_db c) = Inr (a, cn_db c') \<and> cn_saved c' = cn_saved c"
  unfolding with_pragma_def by (rule stmt_step_Inr)

lemma stmt_read_committed:
  assumes "stmt_read faults f c = (r, c')" and "cn_saved c = None"
  shows "cn_saved c' = None \<and> committed c' = cn_db c"
  using assms unfolding stmt_read_def by (auto simp: committed_def elim!: stmt_step_cases)

lemma connect_cases:
  assumes "connect faults (new_conn d) = (r, c)"
  shows "cn_db c = d \<and> cn_saved c = None \<and> (\<forall>u. r = Inr u \<longrightarrow> cn_foreign_keys c)"
  using assms
  by (auto simp: connect_def exec_pragma_def foreign_keys_on_def new_conn_def dbm_simps Let_def
      split: fault.splits sum.splits prod.splits)

lemma connect_no_fault: "connect (\<lambda>_. NoFault) (new_conn d) = (Inr (), opened_conn d)"
  by (simp add: connect_def exec_pragma_def foreign_keys_on_def new_conn_def opened_conn_def dbm_simps)

lemma opened_conn_simps [simp]:
  "cn_db (opened_conn d) = d" "cn_saved (opened_conn d) = None" "cn_foreign_keys (opened_conn d)"
  by (simp_all add: opened_conn_def)

lemma with_conn_cases:
  assumes "with_conn faults d body = (r, d')"
  obtains (refused) e where "r = Inl e" "d' = d"
    | (opened) c c' where "cn_db c = d" "cn_saved c = None" "connect faults (new_conn d) = (Inr (), c)"
        "body c = (r, c')" "d' = committed c'"
        "cn_foreign_keys c"
proof -
  obtain r1 c1 where conn: "connect faults (new_conn d) = (r1, c1)" by fastforce
  note c1 = connect_cases [OF conn]
  show thesis
  proof (cases r1)
    case (Inl e)
    with assms conn c1 show thesis by (intro refused) (auto simp: with_conn_def db_bind_def committed_def)
  next
    case (Inr u)
    obtain c' where "body c1 = (r, c')" "d' = committed c'"
      using assms conn Inr by (cases "body c1") (auto simp: with_conn_def db_bind_def)
    with c1 conn Inr show thesis by (intro opened) auto
  qed
qed

section \<open>Operations that keep a property of the tables\<close>

definition conn_ok :: "('d \<Rightarrow> bool) \<Rightarrow> 'd conn \<Rightarrow> bool" where
  "conn_ok P c \<longleftrightarrow> P (cn_db c) \<and> (\<forall>s. cn_saved c = Some s \<longrightarrow> P s)"

definition keeps_conn :: "('d conn \<Rightarrow> bool) \<Rightarrow> ('d, 'a) dbm \<Rightarrow> bool" where
  "keeps_conn I m \<longleftrightarrow> (\<forall>c r c'. I c \<longrightarrow> m c = (r, c') \<longrightarrow> I c')"

definition preserves :: "('d \<Rightarrow> bool) \<Rightarrow> ('d, 'a) dbm \<Rightarrow> bool" where
  "preserves P m \<longleftrightarrow> keeps_conn (conn_ok P) m"

text \<open>The same on a connection that checks references, and goes on checking them.\<close>

definition enforced :: "('d \<Rightarrow> bool) \<Rightarrow> 'd conn \<Rightarrow> bool" where
  "enforced P c \<longleftrightarrow> cn_foreign_keys c \<and> conn_ok P c"

lemma keeps_connD: "keeps_conn I m \<Longrightarrow> I c \<Longrightarrow> m c = (r, c') \<Longrightarrow> I c'"
  by (auto simp: keeps_conn_def)

lemma preservesD: "preserves P m \<Longrightarrow> conn_ok P c \<Longrightarrow> m c = (r, c') \<Longrightarrow> conn_ok P c'"
  by (auto simp: preserves_def keeps_conn_def)

lemma preservesI: "(\<And>c r c'. conn_ok P c \<Longrightarrow> m c = (r, c') \<Longrightarrow> conn_ok P c') \<Longrightarrow> preserves P m"
  by (auto simp: preserves_def keeps_conn_def)

lemma keeps_conn_return: "keeps_conn I (db_return a)"
  by (simp add: keeps_conn_def db_return_def)

lemma keeps_conn_bind:
  assumes "keeps_conn I m" and "\<And>a. keeps_conn I (f a)"
  shows "keeps_conn I (db_bind m f)"
  unfolding keeps_conn_def
proof (intro allI impI)
  fix c r c'
  assume ok: "I c" and run: "db_bind m f c = (r, c')"
  obtain r1 c1 where m: "m c = (r1, c1)" by fastforce
  with ok assms(1) have "I c1" by (auto simp: keeps_conn_def)
  with run m assms(2) show "I c'"
    by (cases r1) (auto simp: db_bind_def keeps_conn_def)
qed

lemma keeps_conn_rethrow_after:
  assumes "keeps_conn I m" and "keeps_conn I h"
  shows "keeps_conn I (db_rethrow_after m h)"
  unfolding keeps_conn_def
proof (intro allI impI)
  fix c r c'
  assume ok: "I c" and run: "db_rethrow_after m h c = (r, c')"
  obtain r1 c1 where m: "m c = (r1, c1)" by fastforce
  obtain r2 c2 where h: "h c1 = (r2, c2)" by fastforce
  from m ok assms(1) have "I c1" by (auto simp: keeps_conn_def)
  moreover from this h assms(2) have "I c2" by (auto simp: keeps_conn_def)
  ultimately show "I c'"
    using run m h by (cases r1; cases r2) (auto simp: db_rethrow_after_def)
qed

lemma keeps_conn_pragma: "(\<And>fk. keeps_conn I (m fk)) \<Longrightarrow> keeps_conn I (with_pragma m)"
  by (auto simp: keeps_conn_def with_pragma_def)

lemma preserves_step:
  assumes "\<And>d a d'. P d \<Longrightarrow> f d = Inr (a, d') \<Longrightarrow> P d'"
  shows "preserves P (stmt_step faults f)"
proof (rule preservesI)
  fix c r c'
  assume ok: "conn_ok P c" and run: "stmt_step faults f c = (r, c')"
  from run show "conn_ok P c'"
    by (cases rule: stmt_step_cases) (use ok assms in \<open>auto simp: conn_ok_def\<close>)
qed

lemma preserves_read: "preserves P (stmt_read faults f)"
  unfolding stmt_read_def by (rule preserves_step) simp

lemma preserves_exec:
  "preserves P (exec_begin faults)" "preserves P (exec_commit faults)" "preserves P (exec_rollback faults)"
  by (auto simp: preserves_def keeps_conn_def conn_ok_def dbm_simps Let_def split: fault.splits if_splits option.splits)

lemma preserves_transaction: "preserves P body \<Longrightarrow> preserves P (in_transaction faults body)"
  unfolding in_transaction_def preserves_def
  by (intro keeps_conn_bind keeps_conn_rethrow_after keeps_conn_return preserves_exec [unfolded preserves_def])

lemma preserves_return: "preserves P (db_return a)"
  by (simp add: preserves_def keeps_conn_return)

lemma preserves_bind: "preserves P m \<Longrightarrow> (\<And>a. preserves P (f a)) \<Longrightarrow> preserves P (db_bind m f)"
  by (simp add: preserves_def keeps_conn_bind)

lemma preserves_rethrow_after: "preserves P m \<Longrightarrow> preserves P h \<Longrightarrow> preserves P (db_rethrow_after m h)"
  by (simp add: preserves_def keeps_conn_rethrow_after)

lemma preserves_pragma: "(\<And>fk. preserves P (m fk)) \<Longrightarrow> preserves P (with_pragma m)"
  by (simp add: preserves_def keeps_conn_pragma)

lemmas preserves_intros = preserves_return preserves_read preserves_bind preserves_rethrow_after preserves_exec
  preserves_transaction preserves_pragma

lemma enforced_step:
  assumes "\<And>d a d'. P d \<Longrightarrow> f d = Inr (a, d') \<Longrightarrow> P d'"
  shows "keeps_conn (enforced P) (stmt_step faults f)"
  unfolding keeps_conn_def
proof (intro allI impI)
  fix c r c'
  assume ok: "enforced P c" and run: "stmt_step faults f c = (r, c')"
  from run have "cn_foreign_keys c' = cn_foreign_keys c" by (cases rule: stmt_step_cases)
  moreover have "preserves P (stmt_step faults f)" by (rule preserves_step) (rule assms)
  then have "conn_ok P c'" using ok run by (auto simp: enforced_def intro: preservesD)
  ultimately show "enforced P c'" using ok by (simp add: enforced_def)
qed

lemma enforced_pragma:
  assumes "\<And>d a d'. P d \<Longrightarrow> f True d = Inr (a, d') \<Longrightarrow> P d'"
  shows "keeps_conn (enforced P) (with_pragma (\<lambda>fk. stmt_step faults (f fk)))"
proof -
  have step: "keeps_conn (enforced P) (stmt_step faults (f True))" by (rule enforced_step) (rule assms)
  have "enforced P c'" if ok: "enforced P c" and run: "with_pragma (\<lambda>fk. stmt_step faults (f fk)) c = (r, c')" for c r c'
  proof -
    from ok run have "stmt_step faults (f True) c = (r, c')" by (simp add: enforced_def with_pragma_def)
    with step ok show ?thesis by (rule keeps_connD)
  qed
  then show ?thesis unfolding keeps_conn_def by blast
qed

lemma enforced_read: "keeps_conn (enforced P) (stmt_read faults f)"
  unfolding stmt_read_def by (rule enforced_step) simp

lemma roll_back_flag [simp]: "cn_foreign_keys (roll_back c) = cn_foreign_keys c"
  by (simp add: roll_back_def split: option.split)

lemma exec_flag:
  "exec_begin faults c = (r, c') \<Longrightarrow> cn_foreign_keys c' = cn_foreign_keys c"
  "exec_commit faults c = (r, c') \<Longrightarrow> cn_foreign_keys c' = cn_foreign_keys c"
  "exec_rollback faults c = (r, c') \<Longrightarrow> cn_foreign_keys c' = cn_foreign_keys c"
  by (auto simp: exec_begin_def exec_commit_def exec_rollback_def sqlite_call_def Let_def split: fault.splits if_splits)

lemma enforced_exec:
  "keeps_conn (enforced P) (exec_begin faults)" "keeps_conn (enforced P) (exec_commit faults)"
  "keeps_conn (enforced P) (exec_rollback faults)"
  using preserves_exec [of P faults] exec_flag [of faults]
  unfolding preserves_def keeps_conn_def enforced_def by metis+

lemma enforced_transaction:
  "keeps_conn (enforced P) body \<Longrightarrow> keeps_conn (enforced P) (in_transaction faults body)"
  unfolding in_transaction_def
  by (intro keeps_conn_bind keeps_conn_rethrow_after keeps_conn_return enforced_exec)

lemmas enforced_intros =
  keeps_conn_return enforced_read keeps_conn_bind keeps_conn_rethrow_after enforced_exec enforced_transaction

section \<open>What a transaction promises\<close>

text \<open>
  The contract of a transaction body: while it succeeds it stays inside the transaction it
  was started in, and when it throws it is still inside it, or sqlite has already rolled
  that transaction back. Bodies are sequences of statements, so the contract is closed
  under \<open>db_bind\<close>.
\<close>

definition keeps_transaction :: "('d, 'a) dbm \<Rightarrow> bool" where
  "keeps_transaction m \<longleftrightarrow>
     (\<forall>c r c' s. m c = (r, c') \<longrightarrow> cn_saved c = Some s \<longrightarrow>
        cn_saved c' = Some s \<or> (cn_saved c' = None \<and> cn_db c' = s \<and> (\<exists>e. r = Inl e)))"

lemma keeps_transactionD:
  "keeps_transaction m \<Longrightarrow> m c = (r, c') \<Longrightarrow> cn_saved c = Some s \<Longrightarrow>
     cn_saved c' = Some s \<or> (cn_saved c' = None \<and> cn_db c' = s \<and> (\<exists>e. r = Inl e))"
  by (auto simp: keeps_transaction_def)

lemma keeps_transaction_return: "keeps_transaction (db_return a)"
  by (simp add: keeps_transaction_def db_return_def)

lemma keeps_transaction_step: "keeps_transaction (stmt_step faults f)"
  unfolding keeps_transaction_def by (auto elim: stmt_step_cases)

lemma keeps_transaction_bind:
  assumes "keeps_transaction m" and "\<And>a. keeps_transaction (f a)"
  shows "keeps_transaction (db_bind m f)"
  unfolding keeps_transaction_def
proof (intro allI impI)
  fix c r c' s
  assume run: "db_bind m f c = (r, c')" and saved: "cn_saved c = Some s"
  obtain r1 c1 where m: "m c = (r1, c1)" by fastforce
  show "cn_saved c' = Some s \<or> (cn_saved c' = None \<and> cn_db c' = s \<and> (\<exists>e. r = Inl e))"
  proof (cases r1)
    case (Inl e)
    with run m keeps_transactionD [OF assms(1) m saved] show ?thesis by (auto simp: db_bind_def)
  next
    case (Inr a)
    with keeps_transactionD [OF assms(1) m saved] have "cn_saved c1 = Some s" by simp
    moreover from run m Inr have "f a c1 = (r, c')" by (simp add: db_bind_def)
    ultimately show ?thesis using keeps_transactionD [OF assms(2)] by blast
  qed
qed

lemma keeps_transaction_pragma: "(\<And>fk. keeps_transaction (m fk)) \<Longrightarrow> keeps_transaction (with_pragma m)"
  unfolding keeps_transaction_def with_pragma_def by blast

lemmas keeps_transaction_intros =
  keeps_transaction_pragma keeps_transaction_return keeps_transaction_step keeps_transaction_bind

locale transaction_body =
  fixes body :: "('d, 'a) dbm"
  assumes body_keeps: "keeps_transaction body"
begin

lemma begin_cases:
  assumes "exec_begin faults c = (r, c')" and "cn_saved c = None"
  shows "cn_db c' = cn_db c \<and>
    (r = Inr () \<and> cn_saved c' = Some (cn_db c) \<or> (\<exists>e. r = Inl e) \<and> cn_saved c' = None)"
  using assms by (auto simp: dbm_simps Let_def split: fault.splits)

lemma rollback_cases:
  assumes "exec_rollback faults c = (r, c')"
    and "cn_saved c = Some s \<or> (cn_saved c = None \<and> cn_db c = s)"
  shows "committed c' = s \<and> (cn_saved c' = None \<or> (\<exists>e. r = Inl e))"
  using assms by (auto simp: dbm_simps Let_def committed_def split: fault.splits if_splits)

lemma commit_cases:
  assumes "exec_commit faults c = (r, c')" and "cn_saved c = Some s"
  shows "r = Inr () \<and> cn_saved c' = None \<and> cn_db c' = cn_db c \<or>
    (\<exists>e. r = Inl e) \<and> (cn_saved c' = Some s \<or> (cn_saved c' = None \<and> cn_db c' = s))"
  using assms by (auto simp: dbm_simps Let_def split: fault.splits if_splits)

text \<open>The guarded part: the body and the commit, rolled back and rethrown on an exception.\<close>

lemma guarded_cases:
  assumes run: "db_rethrow_after
      (db_bind body (\<lambda>a. db_bind (exec_commit faults) (\<lambda>_. db_return a))) (exec_rollback faults) c1 = (r, c')"
    and saved: "cn_saved c1 = Some s"
  shows "(\<exists>a c2. r = Inr a \<and> body c1 = (Inr a, c2) \<and> cn_saved c' = None \<and> cn_db c' = cn_db c2) \<or>
    (\<exists>e. r = Inl e) \<and> committed c' = s"
proof -
  let ?inner = "db_bind body (\<lambda>a. db_bind (exec_commit faults) (\<lambda>_. db_return a))"
  obtain r3 c3 where inner: "?inner c1 = (r3, c3)" by fastforce
  show ?thesis
  proof (cases r3)
    case (Inl e)
    have "cn_saved c3 = Some s \<or> (cn_saved c3 = None \<and> cn_db c3 = s)"
      using inner [unfolded Inl db_bind_Inl] keeps_transactionD [OF body_keeps _ saved] commit_cases
      by (fastforce simp: db_return_def)
    then show ?thesis
      using run inner Inl rollback_cases [of faults c3 _ _ s]
      by (cases "exec_rollback faults c3") (auto simp: db_rethrow_after_def split: sum.splits)
  next
    case (Inr a)
    with inner obtain c2 where c2: "body c1 = (Inr a, c2)" "exec_commit faults c2 = (Inr (), c3)"
      by (auto simp: db_bind_Inr db_return_def)
    with keeps_transactionD [OF body_keeps c2(1) saved] commit_cases [OF c2(2)]
    have "cn_saved c3 = None" "cn_db c3 = cn_db c2" by fastforce+
    with run inner Inr c2(1) show ?thesis by (auto simp: db_rethrow_after_def)
  qed
qed

text \<open>
  All or nothing: on success the tables are those the body left and no transaction is
  open; on an exception the committed tables are those before the transaction.
\<close>

lemma atomic:
  assumes "in_transaction faults body c = (r, c')" and "cn_saved c = None"
  shows "(\<exists>a c1 c2. r = Inr a \<and> cn_db c1 = cn_db c \<and> cn_saved c1 = Some (cn_db c) \<and>
      body c1 = (Inr a, c2) \<and> cn_saved c' = None \<and> cn_db c' = cn_db c2) \<or>
    (\<exists>e. r = Inl e) \<and> committed c' = cn_db c"
proof -
  obtain rb c1 where b: "exec_begin faults c = (rb, c1)" by fastforce
  show ?thesis
  proof (cases rb)
    case (Inl e)
    with b assms(1) have "r = Inl e" "c' = c1" by (simp_all add: in_transaction_def db_bind_def)
    with begin_cases [OF b assms(2)] Inl show ?thesis by (simp add: committed_def)
  next
    case (Inr u)
    with begin_cases [OF b assms(2)] have c1: "cn_saved c1 = Some (cn_db c)" "cn_db c1 = cn_db c" by auto
    from assms(1) b Inr guarded_cases [OF _ c1(1)] c1 show ?thesis
      by (fastforce simp: in_transaction_def db_bind_def [of "exec_begin faults"])
  qed
qed

end

end
