(* ===== verification/Db.thy ===== *)
theory Db
  imports Models Sql_Conn
begin

text \<open>
  The database operations of \<open>src/db.cpp\<close> over the schema of \<open>migrations/001_init.sql\<close>.
  A table is the list of its rows in storage order, a nullable column an \<open>option\<close>, and
  the SQL text of each statement is a function on the tables: its \<open>WHERE\<close>, \<open>ORDER BY\<close>,
  \<open>JOIN\<close>, \<open>GROUP BY\<close> and conflict clauses, with the constraints of the schema (primary
  keys, \<open>UNIQUE\<close>, \<open>CHECK\<close>, foreign keys) as the errors a statement can raise. Rows that
  an \<open>ORDER BY\<close> does not separate keep their storage order. A new \<open>INTEGER PRIMARY KEY\<close>
  is one more than the largest in use, as sqlite documents.
\<close>

section \<open>Tables\<close>

record partner_row =
  pr_id :: int
  pr_code :: string
  pr_title :: string
  pr_link_template :: string
  pr_enabled :: int
  pr_created_at :: int

record item_row =
  ir_id :: int
  ir_title :: string
  ir_description :: string
  ir_brand :: "string option"
  ir_price_kopek :: int
  ir_old_price_kopek :: "int option"
  ir_currency :: string
  ir_partner_id :: "int option"
  ir_product_url :: string
  ir_campaign :: "string option"
  ir_status :: string
  ir_score :: rat
  ir_source_channel :: "string option"
  ir_created_at :: int
  ir_updated_at :: int
  ir_published_at :: "int option"

record image_row =
  mr_id :: int
  mr_item_id :: int
  mr_path :: string
  mr_thumb_path :: "string option"
  mr_width :: "int option"
  mr_height :: "int option"
  mr_sort_order :: int

record tag_row =
  tr_id :: int
  tr_slug :: string
  tr_title :: string

record item_tag_row =
  xr_item_id :: int
  xr_tag_id :: int

record size_row =
  zr_item_id :: int
  zr_size :: string

record color_row =
  kr_item_id :: int
  kr_color :: string
  kr_hex :: "string option"

record event_row =
  er_id :: int
  er_ts :: int
  er_anon_id :: string
  er_session_id :: string
  er_type :: string
  er_item_id :: "int option"
  er_position :: "int option"
  er_surface :: string
  er_click_token :: "string option"
  er_source :: string
  er_ua_class :: string
  er_ip_hash :: "byte list option"
  er_payload :: string

record conversion_row =
  cr_id :: int
  cr_click_token :: string
  cr_ts :: int
  cr_order_ref :: "string option"
  cr_amount_kopek :: "int option"
  cr_status :: string
  cr_raw :: string

record stat_row =
  sr_day :: int
  sr_item_id :: int
  sr_impressions :: int
  sr_card_clicks :: int
  sr_outbounds :: int

record database =
  db_user_version :: int
  db_partners :: "partner_row list"
  db_items :: "item_row list"
  db_images :: "image_row list"
  db_tags :: "tag_row list"
  db_item_tags :: "item_tag_row list"
  db_sizes :: "size_row list"
  db_colors :: "color_row list"
  db_events :: "event_row list"
  db_conversions :: "conversion_row list"
  db_stats :: "stat_row list"

type_synonym 'a sql = "(database, 'a) dbm"

definition next_rowid :: "int list \<Rightarrow> int" where
  "next_rowid ids = (if ids = [] then 1 else Max (set ids) + 1)"

text \<open>\<open>COALESCE(x, d)\<close>\<close>

definition coalesce :: "'a option \<Rightarrow> 'a \<Rightarrow> 'a" where
  "coalesce x d = (case x of None \<Rightarrow> d | Some v \<Rightarrow> v)"

section \<open>Catalog reads\<close>

definition partner_of_row :: "partner_row \<Rightarrow> partner" where
  "partner_of_row r = \<lparr> pt_id = pr_id r, pt_code = pr_code r, pt_title = pr_title r,
     pt_link_template = pr_link_template r, pt_enabled = (pr_enabled r \<noteq> 0) \<rparr>"

definition list_partners :: "faults \<Rightarrow> partner list sql" where
  "list_partners faults = stmt_read faults (\<lambda>d. map partner_of_row (db_partners d))"

definition item_of_row :: "item_row \<Rightarrow> item" where
  "item_of_row r = item_default\<lparr> it_id := ir_id r, it_title := ir_title r,
     it_description := ir_description r, it_brand := coalesce (ir_brand r) [],
     it_price_kopek := ir_price_kopek r, it_old_price_kopek := ir_old_price_kopek r,
     it_currency := ir_currency r, it_partner_id := coalesce (ir_partner_id r) 0,
     it_product_url := ir_product_url r, it_campaign := coalesce (ir_campaign r) [],
     it_status := (case item_status_from_string (ir_status r) of None \<Rightarrow> Draft | Some s \<Rightarrow> s),
     it_score := ir_score r, it_created_at := ir_created_at r, it_updated_at := ir_updated_at r,
     it_published_at := ir_published_at r \<rparr>"

text \<open>\<open>ORDER BY score DESC, published_at DESC\<close>: a NULL sorts below every value.\<close>

definition item_row_less :: "item_row \<Rightarrow> item_row \<Rightarrow> bool" where
  "item_row_less a b =
     (if ir_score a \<noteq> ir_score b then ir_score a > ir_score b
      else case (ir_published_at a, ir_published_at b) of
             (Some x, Some y) \<Rightarrow> x > y
           | (Some x, None) \<Rightarrow> True
           | (None, _) \<Rightarrow> False)"

definition select_published :: "database \<Rightarrow> item_row list" where
  "select_published d = stable_sort item_row_less (filter (\<lambda>r. ir_status r = ''published'') (db_items d))"

definition image_row_less :: "image_row \<Rightarrow> image_row \<Rightarrow> bool" where
  "image_row_less a b \<longleftrightarrow> mr_item_id a < mr_item_id b \<or>
     (mr_item_id a = mr_item_id b \<and> mr_sort_order a < mr_sort_order b)"

definition select_images :: "database \<Rightarrow> image_row list" where
  "select_images d = stable_sort image_row_less (db_images d)"

text \<open>\<open>item_tags it JOIN tags t ON t.id = it.tag_id ORDER BY it.item_id, t.slug\<close>\<close>

definition join_tags :: "database \<Rightarrow> (int \<times> string) list" where
  "join_tags d =
     concat (map (\<lambda>x. map (\<lambda>t. (xr_item_id x, tr_slug t)) (filter (\<lambda>t. tr_id t = xr_tag_id x) (db_tags d)))
       (db_item_tags d))"

fun string_less :: "string \<Rightarrow> string \<Rightarrow> bool" where
  "string_less xs [] = False"
| "string_less [] (y # ys) = True"
| "string_less (x # xs) (y # ys) =
     (char_code x < char_code y \<or> (x = y \<and> string_less xs ys))"

definition tag_pair_less :: "int \<times> string \<Rightarrow> int \<times> string \<Rightarrow> bool" where
  "tag_pair_less a b \<longleftrightarrow> fst a < fst b \<or> (fst a = fst b \<and> string_less (snd a) (snd b))"

definition select_tags :: "database \<Rightarrow> (int \<times> string) list" where
  "select_tags d = stable_sort tag_pair_less (join_tags d)"

definition select_sizes :: "database \<Rightarrow> size_row list" where
  "select_sizes d = stable_sort (\<lambda>a b. zr_item_id a < zr_item_id b) (db_sizes d)"

definition select_colors :: "database \<Rightarrow> color_row list" where
  "select_colors d = stable_sort (\<lambda>a b. kr_item_id a < kr_item_id b) (db_colors d)"

definition push_image :: "image_row \<Rightarrow> item \<Rightarrow> item" where
  "push_image r it = it\<lparr> it_images := it_images it @
     [\<lparr> img_id = mr_id r, img_path = mr_path r, img_thumb_path = coalesce (mr_thumb_path r) [],
        img_width = int32_of (coalesce (mr_width r) 0), img_height = int32_of (coalesce (mr_height r) 0),
        img_sort_order = int32_of (mr_sort_order r) \<rparr>] \<rparr>"

definition push_tag :: "int \<times> string \<Rightarrow> item \<Rightarrow> item" where
  "push_tag p it = it\<lparr> it_tags := it_tags it @ [snd p] \<rparr>"

definition push_size :: "size_row \<Rightarrow> item \<Rightarrow> item" where
  "push_size r it = it\<lparr> it_sizes := it_sizes it @ [zr_size r] \<rparr>"

definition push_color :: "color_row \<Rightarrow> item \<Rightarrow> item" where
  "push_color r it = it\<lparr> it_colors := it_colors it @ [\<lparr> col_name = kr_color r, col_hex = coalesce (kr_hex r) [] \<rparr>] \<rparr>"

text \<open>The \<open>attach\<close> lambda: rows of unknown parents are skipped.\<close>

definition attach_row :: "(int \<rightharpoonup> nat) \<Rightarrow> ('r \<Rightarrow> int) \<Rightarrow> ('r \<Rightarrow> item \<Rightarrow> item) \<Rightarrow> item list \<Rightarrow> 'r \<Rightarrow> item list" where
  "attach_row index parent fn items row =
     (case index (parent row) of None \<Rightarrow> items | Some i \<Rightarrow> items[i := fn row (items ! i)])"

definition attach :: "(int \<rightharpoonup> nat) \<Rightarrow> ('r \<Rightarrow> int) \<Rightarrow> ('r \<Rightarrow> item \<Rightarrow> item) \<Rightarrow> 'r list \<Rightarrow> item list \<Rightarrow> item list" where
  "attach index parent fn rows items = foldl (attach_row index parent fn) items rows"

definition load_published_items :: "faults \<Rightarrow> item list sql" where
  "load_published_items faults =
     db_bind (stmt_read faults select_published) (\<lambda>rows.
       let items = map item_of_row rows; index = build_index it_id items in
       db_bind (stmt_read faults select_images) (\<lambda>images.
         let items = attach index mr_item_id push_image images items in
         db_bind (stmt_read faults select_tags) (\<lambda>tags.
           let items = attach index fst push_tag tags items in
           db_bind (stmt_read faults select_sizes) (\<lambda>sizes.
             let items = attach index zr_item_id push_size sizes items in
             db_bind (stmt_read faults select_colors) (\<lambda>colors.
               db_return (attach index kr_item_id push_color colors items))))))"

definition find_partner_by_code :: "faults \<Rightarrow> string \<Rightarrow> partner option sql" where
  "find_partner_by_code faults code =
     stmt_read faults (\<lambda>d. map_option partner_of_row (List.find (\<lambda>r. pr_code r = code) (db_partners d)))"

section \<open>Catalog writes\<close>

text \<open>
  \<open>bind(7, item.partner_id)\<close> and the text binds are never NULL, so brand and campaign are
  stored as (possibly empty) text and the partner id has to exist. The flag \<open>fk\<close> of a statement is
  the connection's \<open>foreign_keys\<close> setting: without it the references are not checked.
\<close>

definition insert_item_stmt :: "bool \<Rightarrow> item \<Rightarrow> database \<Rightarrow> sql_error + int \<times> database" where
  "insert_item_stmt fk it d =
     (if fk \<and> it_partner_id it \<notin> set (map pr_id (db_partners d)) then Inl ForeignKeyFailed
      else let rowid = next_rowid (map ir_id (db_items d))
           in Inr (rowid, d\<lparr> db_items := db_items d @
                [\<lparr> ir_id = rowid, ir_title = it_title it, ir_description = it_description it,
                   ir_brand = Some (it_brand it), ir_price_kopek = it_price_kopek it,
                   ir_old_price_kopek = it_old_price_kopek it, ir_currency = it_currency it,
                   ir_partner_id = Some (it_partner_id it), ir_product_url = it_product_url it,
                   ir_campaign = Some (it_campaign it), ir_status = status_to_string (it_status it),
                   ir_score = it_score it, ir_source_channel = None, ir_created_at = it_created_at it,
                   ir_updated_at = it_updated_at it, ir_published_at = it_published_at it \<rparr>] \<rparr>))"

definition insert_item :: "faults \<Rightarrow> item \<Rightarrow> int sql" where
  "insert_item faults it = with_pragma (\<lambda>fk. stmt_step faults (insert_item_stmt fk it))"

definition set_status_row :: "int \<Rightarrow> string \<Rightarrow> ts_ms \<Rightarrow> item_row \<Rightarrow> item_row" where
  "set_status_row i status now r =
     (if ir_id r = i
      then r\<lparr> ir_status := status, ir_updated_at := now,
              ir_published_at := (if status = ''published'' \<and> ir_published_at r = None
                                  then Some now else ir_published_at r) \<rparr>
      else r)"

definition set_item_status :: "faults \<Rightarrow> int \<Rightarrow> item_status \<Rightarrow> ts_ms \<Rightarrow> unit sql" where
  "set_item_status faults i status now =
     stmt_step faults
       (\<lambda>d. Inr ((), d\<lparr> db_items := map (set_status_row i (status_to_string status) now) (db_items d) \<rparr>))"

definition insert_tag_stmt :: "string \<Rightarrow> string \<Rightarrow> database \<Rightarrow> sql_error + int \<times> database" where
  "insert_tag_stmt slug title d =
     (if slug \<in> set (map tr_slug (db_tags d)) then Inl UniqueFailed
      else let rowid = next_rowid (map tr_id (db_tags d))
           in Inr (rowid, d\<lparr> db_tags := db_tags d @ [\<lparr> tr_id = rowid, tr_slug = slug, tr_title = title \<rparr>] \<rparr>))"

definition upsert_tag :: "faults \<Rightarrow> string \<Rightarrow> string \<Rightarrow> int sql" where
  "upsert_tag faults slug title =
     db_bind (stmt_read faults (\<lambda>d. map_option tr_id (List.find (\<lambda>t. tr_slug t = slug) (db_tags d))))
       (\<lambda>found. case found of
          Some i \<Rightarrow> db_return i
        | None \<Rightarrow> stmt_step faults (insert_tag_stmt slug title))"

text \<open>\<open>INSERT OR IGNORE\<close> ignores a duplicate key, not a foreign key violation.\<close>

definition attach_tag_stmt :: "bool \<Rightarrow> int \<Rightarrow> int \<Rightarrow> database \<Rightarrow> sql_error + unit \<times> database" where
  "attach_tag_stmt fk item_id tag_id d =
     (let row = \<lparr> xr_item_id = item_id, xr_tag_id = tag_id \<rparr>
      in if row \<in> set (db_item_tags d) then Inr ((), d)
         else if fk \<and> (item_id \<notin> set (map ir_id (db_items d)) \<or> tag_id \<notin> set (map tr_id (db_tags d)))
           then Inl ForeignKeyFailed
         else Inr ((), d\<lparr> db_item_tags := db_item_tags d @ [row] \<rparr>))"

definition attach_tag :: "faults \<Rightarrow> int \<Rightarrow> int \<Rightarrow> unit sql" where
  "attach_tag faults item_id tag_id = with_pragma (\<lambda>fk. stmt_step faults (attach_tag_stmt fk item_id tag_id))"

definition add_image_stmt :: "bool \<Rightarrow> int \<Rightarrow> image \<Rightarrow> database \<Rightarrow> sql_error + unit \<times> database" where
  "add_image_stmt fk item_id img d =
     (if fk \<and> item_id \<notin> set (map ir_id (db_items d)) then Inl ForeignKeyFailed
      else Inr ((), d\<lparr> db_images := db_images d @
             [\<lparr> mr_id = next_rowid (map mr_id (db_images d)), mr_item_id = item_id, mr_path = img_path img,
                mr_thumb_path = Some (img_thumb_path img), mr_width = Some (img_width img),
                mr_height = Some (img_height img), mr_sort_order = img_sort_order img \<rparr>] \<rparr>))"

definition add_image :: "faults \<Rightarrow> int \<Rightarrow> image \<Rightarrow> unit sql" where
  "add_image faults item_id img = with_pragma (\<lambda>fk. stmt_step faults (add_image_stmt fk item_id img))"

section \<open>Metrics\<close>

text \<open>An empty token and an empty hash are bound as NULL, other empty texts are stored.\<close>

definition event_row_of :: "int \<Rightarrow> event \<Rightarrow> event_row" where
  "event_row_of rowid ev = \<lparr> er_id = rowid, er_ts = ev_ts ev, er_anon_id = ev_anon_id ev,
     er_session_id = ev_session_id ev, er_type = event_type_to_string (ev_type ev),
     er_item_id = ev_item_id ev, er_position = ev_position ev, er_surface = ev_surface ev,
     er_click_token = (if ev_click_token ev = [] then None else Some (ev_click_token ev)),
     er_source = ev_source ev, er_ua_class = ev_ua_class ev,
     er_ip_hash = (if ev_ip_hash ev = [] then None else Some (ev_ip_hash ev)),
     er_payload = ev_payload ev \<rparr>"

definition token_known :: "database \<Rightarrow> string \<Rightarrow> bool" where
  "token_known d tok \<longleftrightarrow> Some tok \<in> set (map er_click_token (db_events d))"

definition insert_event_stmt :: "event \<Rightarrow> database \<Rightarrow> sql_error + unit \<times> database" where
  "insert_event_stmt ev d =
     (if ev_click_token ev \<noteq> [] \<and> token_known d (ev_click_token ev) then Inl UniqueFailed
      else Inr ((), d\<lparr> db_events := db_events d @ [event_row_of (next_rowid (map er_id (db_events d))) ev] \<rparr>))"

fun insert_event_rows :: "faults \<Rightarrow> event list \<Rightarrow> unit sql" where
  "insert_event_rows faults [] = db_return ()"
| "insert_event_rows faults (ev # batch) =
     db_bind (stmt_step faults (insert_event_stmt ev)) (\<lambda>_. insert_event_rows faults batch)"

definition insert_events :: "faults \<Rightarrow> event list \<Rightarrow> unit sql" where
  "insert_events faults batch =
     (if batch = [] then db_return () else in_transaction faults (insert_event_rows faults batch))"

definition conversion_status_ok :: "string \<Rightarrow> bool" where
  "conversion_status_ok s \<longleftrightarrow> s \<in> {''pending'', ''approved'', ''rejected''}"

text \<open>\<open>INSERT ... ON CONFLICT(order_ref) WHERE order_ref IS NOT NULL DO UPDATE ...\<close>\<close>

definition update_conversion :: "conversion \<Rightarrow> conversion_row \<Rightarrow> conversion_row" where
  "update_conversion c r =
     (if cr_order_ref r = Some (cv_order_ref c)
      then r\<lparr> cr_status := cv_status c, cr_amount_kopek := cv_amount c, cr_ts := cv_ts c \<rparr> else r)"

definition upsert_conversion_stmt :: "conversion \<Rightarrow> database \<Rightarrow> sql_error + unit \<times> database" where
  "upsert_conversion_stmt c d =
     (if \<not> conversion_status_ok (cv_status c) then Inl CheckFailed
      else if cv_order_ref c \<noteq> [] \<and> Some (cv_order_ref c) \<in> set (map cr_order_ref (db_conversions d))
        then Inr ((), d\<lparr> db_conversions := map (update_conversion c) (db_conversions d) \<rparr>)
      else Inr ((), d\<lparr> db_conversions := db_conversions d @
             [\<lparr> cr_id = next_rowid (map cr_id (db_conversions d)), cr_click_token = cv_click_token c,
                cr_ts = cv_ts c, cr_order_ref = (if cv_order_ref c = [] then None else Some (cv_order_ref c)),
                cr_amount_kopek = cv_amount c, cr_status = cv_status c, cr_raw = cv_raw c \<rparr>] \<rparr>))"

definition record_conversion :: "faults \<Rightarrow> conversion \<Rightarrow> bool sql" where
  "record_conversion faults c =
     db_bind (stmt_read faults (\<lambda>d. token_known d (cv_click_token c))) (\<lambda>known.
       if \<not> known then db_return False
       else db_bind (stmt_step faults (upsert_conversion_stmt c)) (\<lambda>_. db_return True))"

definition ms_per_day :: int where
  "ms_per_day = 86400000"

text \<open>sqlite's integer division truncates towards zero.\<close>

definition event_day :: "event_row \<Rightarrow> int" where
  "event_day r = er_ts r sdiv ms_per_day"

definition rollup_selects :: "int \<Rightarrow> int \<Rightarrow> event_row \<Rightarrow> bool" where
  "rollup_selects day_from day_to r \<longleftrightarrow>
     er_item_id r \<noteq> None \<and> er_ua_class r \<noteq> ''bot'' \<and> day_from \<le> event_day r \<and> event_day r \<le> day_to"

definition count_type :: "string \<Rightarrow> event_row list \<Rightarrow> int" where
  "count_type t rows = int (length (filter (\<lambda>r. er_type r = t) rows))"

definition rollup_rows :: "int \<Rightarrow> int \<Rightarrow> event_row list \<Rightarrow> stat_row list" where
  "rollup_rows day_from day_to evs =
     (let sel = filter (rollup_selects day_from day_to) evs;
          keys = remdups (map (\<lambda>r. (event_day r, the (er_item_id r))) sel)
      in map (\<lambda>(day, i). let grp = filter (\<lambda>r. event_day r = day \<and> er_item_id r = Some i) sel
                         in \<lparr> sr_day = day, sr_item_id = i, sr_impressions = count_type ''impression'' grp,
                              sr_card_clicks = count_type ''card_click'' grp,
                              sr_outbounds = count_type ''outbound'' grp \<rparr>) keys)"

fun upsert_stat :: "stat_row list \<Rightarrow> stat_row \<Rightarrow> stat_row list" where
  "upsert_stat [] new = [new]"
| "upsert_stat (r # rs) new =
     (if sr_day r = sr_day new \<and> sr_item_id r = sr_item_id new
      then r\<lparr> sr_impressions := sr_impressions new, sr_card_clicks := sr_card_clicks new,
              sr_outbounds := sr_outbounds new \<rparr> # rs
      else r # upsert_stat rs new)"

definition rollup_stmt :: "int \<Rightarrow> int \<Rightarrow> database \<Rightarrow> database" where
  "rollup_stmt day_from day_to d =
     d\<lparr> db_stats := foldl upsert_stat (db_stats d) (rollup_rows day_from day_to (db_events d)) \<rparr>"

definition rollup_daily :: "faults \<Rightarrow> int \<Rightarrow> int \<Rightarrow> unit sql" where
  "rollup_daily faults day_from day_to = stmt_step faults (\<lambda>d. Inr ((), rollup_stmt day_from day_to d))"

definition prune_stmt :: "ts_ms \<Rightarrow> database \<Rightarrow> int \<times> database" where
  "prune_stmt older_than d =
     (int32_of (int (length (filter (\<lambda>r. er_ts r < older_than) (db_events d)))),
      d\<lparr> db_events := filter (\<lambda>r. \<not> er_ts r < older_than) (db_events d) \<rparr>)"

definition prune_events :: "faults \<Rightarrow> ts_ms \<Rightarrow> int sql" where
  "prune_events faults older_than = stmt_step faults (\<lambda>d. Inr (prune_stmt older_than d))"

end
