(* ===== verification/Db_Facts.thy ===== *)
theory Db_Facts
  imports Db
begin

text \<open>
  Properties of the database operations: the constraints of the schema as an invariant
  every operation keeps, the atomicity of \<open>insert_events\<close>, what \<open>record_conversion\<close>,
  \<open>rollup_daily\<close> and \<open>prune_events\<close> do to the tables, and the equivalence of the batched
  \<open>load_published_items\<close> with one query per item.
\<close>

section \<open>Row identifiers\<close>

lemma next_rowid_fresh: "next_rowid ids \<notin> set ids"
proof
  assume mem: "next_rowid ids \<in> set ids"
  then have "ids \<noteq> []" by (auto simp: next_rowid_def)
  with mem have "Max (set ids) + 1 \<le> Max (set ids)"
    by (intro Max_ge) (simp_all add: next_rowid_def)
  then show False by simp
qed

section \<open>The constraints of the schema\<close>

definition present :: "'a option list \<Rightarrow> 'a option list" where
  "present xs = filter (\<lambda>x. x \<noteq> None) xs"

definition items_wf :: "database \<Rightarrow> bool" where
  "items_wf d \<longleftrightarrow> distinct (map pr_id (db_partners d)) \<and> distinct (map pr_code (db_partners d)) \<and>
     distinct (map ir_id (db_items d)) \<and>
     (\<forall>r \<in> set (db_items d). ir_status r \<in> {''draft'', ''published'', ''archived''} \<and>
        (\<forall>p. ir_partner_id r = Some p \<longrightarrow> p \<in> set (map pr_id (db_partners d))))"

definition children_wf :: "database \<Rightarrow> bool" where
  "children_wf d \<longleftrightarrow> distinct (map mr_id (db_images d)) \<and>
     set (map mr_item_id (db_images d)) \<subseteq> set (map ir_id (db_items d)) \<and>
     distinct (map tr_id (db_tags d)) \<and> distinct (map tr_slug (db_tags d)) \<and>
     distinct (db_item_tags d) \<and>
     set (map xr_item_id (db_item_tags d)) \<subseteq> set (map ir_id (db_items d)) \<and>
     set (map xr_tag_id (db_item_tags d)) \<subseteq> set (map tr_id (db_tags d)) \<and>
     distinct (map (\<lambda>z. (zr_item_id z, zr_size z)) (db_sizes d)) \<and>
     set (map zr_item_id (db_sizes d)) \<subseteq> set (map ir_id (db_items d)) \<and>
     distinct (map (\<lambda>k. (kr_item_id k, kr_color k)) (db_colors d)) \<and>
     set (map kr_item_id (db_colors d)) \<subseteq> set (map ir_id (db_items d))"

definition events_wf :: "database \<Rightarrow> bool" where
  "events_wf d \<longleftrightarrow> distinct (map er_id (db_events d)) \<and> distinct (present (map er_click_token (db_events d)))"

definition conversions_wf :: "database \<Rightarrow> bool" where
  "conversions_wf d \<longleftrightarrow> distinct (map cr_id (db_conversions d)) \<and>
     distinct (present (map cr_order_ref (db_conversions d))) \<and>
     (\<forall>r \<in> set (db_conversions d). conversion_status_ok (cr_status r))"

definition stat_key :: "stat_row \<Rightarrow> int \<times> int" where
  "stat_key r = (sr_day r, sr_item_id r)"

definition stats_wf :: "database \<Rightarrow> bool" where
  "stats_wf d \<longleftrightarrow> distinct (map stat_key (db_stats d))"

definition db_wf :: "database \<Rightarrow> bool" where
  "db_wf d \<longleftrightarrow> items_wf d \<and> children_wf d \<and> events_wf d \<and> conversions_wf d \<and> stats_wf d"

lemma present_append [simp]: "present (xs @ ys) = present xs @ present ys"
  by (simp add: present_def)

lemma set_present [simp]: "set (present xs) = set xs - {None}"
  by (auto simp: present_def)

text \<open>Tables a constraint does not mention do not matter to it.\<close>

lemma wf_frame [simp]:
  "items_wf (d\<lparr> db_images := x_images \<rparr>) = items_wf d"
  "items_wf (d\<lparr> db_tags := x_tags \<rparr>) = items_wf d"
  "items_wf (d\<lparr> db_item_tags := x_item_tags \<rparr>) = items_wf d"
  "items_wf (d\<lparr> db_sizes := x_sizes \<rparr>) = items_wf d"
  "items_wf (d\<lparr> db_colors := x_colors \<rparr>) = items_wf d"
  "events_wf (d\<lparr> db_sizes := x_sizes \<rparr>) = events_wf d"
  "events_wf (d\<lparr> db_colors := x_colors \<rparr>) = events_wf d"
  "conversions_wf (d\<lparr> db_sizes := x_sizes \<rparr>) = conversions_wf d"
  "conversions_wf (d\<lparr> db_colors := x_colors \<rparr>) = conversions_wf d"
  "stats_wf (d\<lparr> db_sizes := x_sizes \<rparr>) = stats_wf d"
  "stats_wf (d\<lparr> db_colors := x_colors \<rparr>) = stats_wf d"
  "items_wf (d\<lparr> db_events := x_events \<rparr>) = items_wf d"
  "items_wf (d\<lparr> db_conversions := x_conversions \<rparr>) = items_wf d"
  "items_wf (d\<lparr> db_stats := x_stats \<rparr>) = items_wf d"
  "children_wf (d\<lparr> db_events := x_events \<rparr>) = children_wf d"
  "children_wf (d\<lparr> db_conversions := x_conversions \<rparr>) = children_wf d"
  "children_wf (d\<lparr> db_stats := x_stats \<rparr>) = children_wf d"
  "events_wf (d\<lparr> db_items := x_items \<rparr>) = events_wf d"
  "events_wf (d\<lparr> db_images := x_images \<rparr>) = events_wf d"
  "events_wf (d\<lparr> db_tags := x_tags \<rparr>) = events_wf d"
  "events_wf (d\<lparr> db_item_tags := x_item_tags \<rparr>) = events_wf d"
  "events_wf (d\<lparr> db_conversions := x_conversions \<rparr>) = events_wf d"
  "events_wf (d\<lparr> db_stats := x_stats \<rparr>) = events_wf d"
  "conversions_wf (d\<lparr> db_items := x_items \<rparr>) = conversions_wf d"
  "conversions_wf (d\<lparr> db_images := x_images \<rparr>) = conversions_wf d"
  "conversions_wf (d\<lparr> db_tags := x_tags \<rparr>) = conversions_wf d"
  "conversions_wf (d\<lparr> db_item_tags := x_item_tags \<rparr>) = conversions_wf d"
  "conversions_wf (d\<lparr> db_events := x_events \<rparr>) = conversions_wf d"
  "conversions_wf (d\<lparr> db_stats := x_stats \<rparr>) = conversions_wf d"
  "stats_wf (d\<lparr> db_items := x_items \<rparr>) = stats_wf d"
  "stats_wf (d\<lparr> db_images := x_images \<rparr>) = stats_wf d"
  "stats_wf (d\<lparr> db_tags := x_tags \<rparr>) = stats_wf d"
  "stats_wf (d\<lparr> db_item_tags := x_item_tags \<rparr>) = stats_wf d"
  "stats_wf (d\<lparr> db_events := x_events \<rparr>) = stats_wf d"
  "stats_wf (d\<lparr> db_conversions := x_conversions \<rparr>) = stats_wf d"
  by (simp_all add: items_wf_def children_wf_def events_wf_def conversions_wf_def stats_wf_def)

section \<open>Every statement keeps the constraints\<close>

lemma items_wf_snoc:
  assumes "items_wf d" and "ir_id r \<notin> set (map ir_id (db_items d))"
    and "ir_status r \<in> {''draft'', ''published'', ''archived''}"
    and "ir_partner_id r = Some p" and "p \<in> set (map pr_id (db_partners d))"
  shows "items_wf (d\<lparr> db_items := db_items d @ [r] \<rparr>)"
  using assms by (simp add: items_wf_def)

lemma children_wf_more_items:
  assumes "children_wf d" and "set (map ir_id (db_items d)) \<subseteq> set (map ir_id xs)"
  shows "children_wf (d\<lparr> db_items := xs \<rparr>)"
proof -
  from assms(2) have "ir_id ` set (db_items d) \<subseteq> ir_id ` set xs" by simp
  from subset_trans [OF _ this] assms(1) show ?thesis by (simp add: children_wf_def)
qed

lemma status_to_string_ok: "status_to_string st \<in> {''draft'', ''published'', ''archived''}"
  by (cases st) simp_all

lemma insert_item_wf:
  assumes "db_wf d" and "insert_item_stmt True it d = Inr (i, d')"
  shows "db_wf d'"
proof -
  from assms(2) obtain r where d': "d' = d\<lparr> db_items := db_items d @ [r] \<rparr>"
    and r: "ir_id r = next_rowid (map ir_id (db_items d))" "ir_status r = status_to_string (it_status it)"
      "ir_partner_id r = Some (it_partner_id it)"
    and p: "it_partner_id it \<in> set (map pr_id (db_partners d))"
    by (auto simp: insert_item_stmt_def Let_def split: if_splits)
  from assms(1) have "items_wf d'" unfolding d' db_wf_def
    by (intro items_wf_snoc [OF _ _ _ r(3) p]) (simp_all only: r next_rowid_fresh status_to_string_ok not_False_eq_True)
  moreover from assms(1) have "children_wf d'"
    unfolding d' db_wf_def by (intro children_wf_more_items) auto
  ultimately show ?thesis using assms(1) by (simp add: db_wf_def d')
qed

lemma set_status_row_facts:
  "ir_id (set_status_row i st now r) = ir_id r"
  "ir_partner_id (set_status_row i st now r) = ir_partner_id r"
  "ir_status (set_status_row i st now r) = (if ir_id r = i then st else ir_status r)"
  by (simp_all add: set_status_row_def)

lemma set_status_wf:
  "db_wf d \<Longrightarrow> db_wf (d\<lparr> db_items := map (set_status_row i (status_to_string st) now) (db_items d) \<rparr>)"
  using status_to_string_ok [of st]
  by (simp add: db_wf_def children_wf_more_items image_comp comp_def set_status_row_facts)
     (simp add: items_wf_def comp_def set_status_row_facts)

lemma insert_tag_wf:
  assumes "db_wf d" and "insert_tag_stmt slug title d = Inr (i, d')"
  shows "db_wf d'"
proof -
  from assms(2) obtain r where "d' = d\<lparr> db_tags := db_tags d @ [r] \<rparr>"
    "tr_id r = next_rowid (map tr_id (db_tags d))" "tr_slug r = slug" "slug \<notin> tr_slug ` set (db_tags d)"
    by (auto simp: insert_tag_stmt_def Let_def split: if_splits)
  with assms(1) next_rowid_fresh [of "map tr_id (db_tags d)"] show ?thesis
    by (simp add: db_wf_def children_wf_def subset_insertI2)
qed

lemma attach_tag_wf:
  assumes "db_wf d" and "attach_tag_stmt True i t d = Inr (u, d')"
  shows "db_wf d'"
proof -
  let ?row = "\<lparr> xr_item_id = i, xr_tag_id = t \<rparr>"
  from assms(2) consider "d' = d"
    | "d' = d\<lparr> db_item_tags := db_item_tags d @ [?row] \<rparr>" "?row \<notin> set (db_item_tags d)"
      "i \<in> ir_id ` set (db_items d)" "t \<in> tr_id ` set (db_tags d)"
    by (auto simp: attach_tag_stmt_def Let_def split: if_splits)
  then show ?thesis
    using assms(1) by cases (simp_all add: db_wf_def children_wf_def)
qed

lemma add_image_wf:
  assumes "db_wf d" and "add_image_stmt True i img d = Inr (u, d')"
  shows "db_wf d'"
proof -
  from assms(2) obtain r where "d' = d\<lparr> db_images := db_images d @ [r] \<rparr>"
    "mr_id r = next_rowid (map mr_id (db_images d))" "mr_item_id r = i" "i \<in> ir_id ` set (db_items d)"
    by (auto simp: add_image_stmt_def split: if_splits)
  with assms(1) next_rowid_fresh [of "map mr_id (db_images d)"] show ?thesis
    by (simp add: db_wf_def children_wf_def)
qed

lemma events_wf_snoc:
  assumes "events_wf d" and "er_id r \<notin> set (map er_id (db_events d))"
    and "er_click_token r = None \<or> er_click_token r \<notin> set (map er_click_token (db_events d))"
  shows "events_wf (d\<lparr> db_events := db_events d @ [r] \<rparr>)"
  using assms by (auto simp: events_wf_def present_def)

lemma insert_event_wf:
  assumes "db_wf d" and "insert_event_stmt ev d = Inr (u, d')"
  shows "db_wf d'"
proof -
  let ?r = "event_row_of (next_rowid (map er_id (db_events d))) ev"
  from assms(2) have d': "d' = d\<lparr> db_events := db_events d @ [?r] \<rparr>"
    and tok: "ev_click_token ev = [] \<or> \<not> token_known d (ev_click_token ev)"
    by (auto simp: insert_event_stmt_def split: if_splits)
  have "er_id ?r = next_rowid (map er_id (db_events d))" by (simp add: event_row_of_def)
  with next_rowid_fresh have fresh: "er_id ?r \<notin> set (map er_id (db_events d))" by metis
  have "er_click_token ?r = None \<or> er_click_token ?r \<notin> set (map er_click_token (db_events d))"
    using tok by (auto simp: event_row_of_def token_known_def)
  with assms(1) fresh have "events_wf d'" unfolding d' db_wf_def by (intro events_wf_snoc) auto
  with assms(1) show ?thesis by (simp add: db_wf_def d')
qed

lemma update_conversion_fields [simp]:
  "cr_id (update_conversion c r) = cr_id r"
  "cr_order_ref (update_conversion c r) = cr_order_ref r"
  "cr_click_token (update_conversion c r) = cr_click_token r"
  "cr_status (update_conversion c r) = (if cr_order_ref r = Some (cv_order_ref c) then cv_status c else cr_status r)"
  by (simp_all add: update_conversion_def)

lemma upsert_conversion_wf:
  assumes "db_wf d" and "upsert_conversion_stmt c d = Inr (u, d')"
  shows "db_wf d'"
proof -
  have "conversions_wf d'"
    using assms next_rowid_fresh [of "map cr_id (db_conversions d)"]
    by (auto simp: upsert_conversion_stmt_def db_wf_def conversions_wf_def comp_def present_def split: if_splits)
  with assms show ?thesis
    by (auto simp: db_wf_def upsert_conversion_stmt_def split: if_splits)
qed

lemma stat_keys_upsert: "set (map stat_key (upsert_stat rs r)) = insert (stat_key r) (set (map stat_key rs))"
  by (induction rs) (auto simp: stat_key_def)

lemma distinct_upsert_stat: "distinct (map stat_key rs) \<Longrightarrow> distinct (map stat_key (upsert_stat rs r))"
proof (induction rs)
  case (Cons x xs)
  with stat_keys_upsert [of xs r] show ?case by (auto simp: stat_key_def)
qed simp

lemma rollup_wf: "db_wf d \<Longrightarrow> db_wf (rollup_stmt a b d)"
proof -
  have "distinct (map stat_key rs) \<Longrightarrow> distinct (map stat_key (foldl upsert_stat rs new))" for rs new
    by (induction new arbitrary: rs) (simp_all add: distinct_upsert_stat)
  then show "db_wf d \<Longrightarrow> db_wf (rollup_stmt a b d)" by (simp add: rollup_stmt_def db_wf_def stats_wf_def)
qed

lemma distinct_map_filter': "distinct (map f xs) \<Longrightarrow> distinct (map f (filter P xs))"
  by (induction xs) auto

lemma distinct_present_filter:
  "distinct (present (map f xs)) \<Longrightarrow> distinct (present (map f (filter P xs)))"
  by (induction xs) (auto simp: present_def split: if_splits)

lemma prune_wf: "db_wf d \<Longrightarrow> db_wf (snd (prune_stmt t d))"
  by (simp add: prune_stmt_def db_wf_def events_wf_def distinct_map_filter' distinct_present_filter)

section \<open>Every operation keeps the constraints\<close>

lemma insert_event_rows_wf: "preserves db_wf (insert_event_rows faults batch)"
  by (induction batch) (auto intro!: preserves_intros preserves_step intro: insert_event_wf)

lemma record_conversion_wf: "preserves db_wf (record_conversion faults c)"
  unfolding record_conversion_def
  by (auto intro!: preserves_intros preserves_step intro: upsert_conversion_wf)

lemma upsert_tag_wf: "preserves db_wf (upsert_tag faults slug title)"
  unfolding upsert_tag_def
  by (auto intro!: preserves_intros preserves_step split: option.split intro: insert_tag_wf)

text \<open>
  What may happen on a connection: the operations of \<open>DbConn\<close> and the three statements of a
  transaction, each with any outcome sqlite may give it.
\<close>

inductive db_operation :: "faults \<Rightarrow> database conn \<Rightarrow> database conn \<Rightarrow> bool" for faults where
  "list_partners faults c = (partners, c') \<Longrightarrow> db_operation faults c c'"
| "load_published_items faults c = (items, c') \<Longrightarrow> db_operation faults c c'"
| "find_partner_by_code faults code c = (found, c') \<Longrightarrow> db_operation faults c c'"
| "insert_item faults it c = (rowid, c') \<Longrightarrow> db_operation faults c c'"
| "set_item_status faults i st now c = (u, c') \<Longrightarrow> db_operation faults c c'"
| "upsert_tag faults slug title c = (rowid, c') \<Longrightarrow> db_operation faults c c'"
| "attach_tag faults i t c = (u, c') \<Longrightarrow> db_operation faults c c'"
| "add_image faults i img c = (u, c') \<Longrightarrow> db_operation faults c c'"
| "insert_events faults batch c = (u, c') \<Longrightarrow> db_operation faults c c'"
| "record_conversion faults cv c = (known, c') \<Longrightarrow> db_operation faults c c'"
| "rollup_daily faults day_from day_to c = (u, c') \<Longrightarrow> db_operation faults c c'"
| "prune_events faults cutoff c = (n, c') \<Longrightarrow> db_operation faults c c'"
| "exec_begin faults c = (u, c') \<Longrightarrow> db_operation faults c c'"
| "exec_commit faults c = (u, c') \<Longrightarrow> db_operation faults c c'"
| "exec_rollback faults c = (u, c') \<Longrightarrow> db_operation faults c c'"

inductive_cases db_operation_elim: "db_operation faults c c'"

lemma enforced_events: "keeps_conn (enforced db_wf) (insert_event_rows faults batch)"
  by (induction batch) (auto intro!: enforced_intros enforced_step intro: insert_event_wf)

lemma enforced_writes:
  "keeps_conn (enforced db_wf) (insert_item faults it)" "keeps_conn (enforced db_wf) (attach_tag faults i t)"
  "keeps_conn (enforced db_wf) (add_image faults i img)" "keeps_conn (enforced db_wf) (set_item_status faults i st now)"
  "keeps_conn (enforced db_wf) (upsert_tag faults slug title)"
proof -
  show "keeps_conn (enforced db_wf) (insert_item faults it)"
    unfolding insert_item_def by (rule enforced_pragma) (rule insert_item_wf)
  show "keeps_conn (enforced db_wf) (attach_tag faults i t)"
    unfolding attach_tag_def by (rule enforced_pragma) (rule attach_tag_wf)
  show "keeps_conn (enforced db_wf) (add_image faults i img)"
    unfolding add_image_def by (rule enforced_pragma) (rule add_image_wf)
  show "keeps_conn (enforced db_wf) (set_item_status faults i st now)"
    unfolding set_item_status_def by (rule enforced_step) (auto intro: set_status_wf)
  show "keeps_conn (enforced db_wf) (upsert_tag faults slug title)"
    unfolding upsert_tag_def by (auto intro!: enforced_intros enforced_step split: option.split intro: insert_tag_wf)
qed

lemma enforced_metrics:
  "keeps_conn (enforced db_wf) (insert_events faults batch)" "keeps_conn (enforced db_wf) (record_conversion faults cv)"
  "keeps_conn (enforced db_wf) (rollup_daily faults day_from day_to)" "keeps_conn (enforced db_wf) (prune_events faults cutoff)"
proof -
  show "keeps_conn (enforced db_wf) (insert_events faults batch)"
    unfolding insert_events_def by (simp add: enforced_events enforced_intros)
  show "keeps_conn (enforced db_wf) (record_conversion faults cv)"
    unfolding record_conversion_def by (auto intro!: enforced_intros enforced_step intro: upsert_conversion_wf)
  show "keeps_conn (enforced db_wf) (rollup_daily faults day_from day_to)"
    unfolding rollup_daily_def by (rule enforced_step) (auto intro: rollup_wf)
  show "keeps_conn (enforced db_wf) (prune_events faults cutoff)"
    unfolding prune_events_def by (rule enforced_step) (metis Inr_inject prune_wf snd_conv)
qed

lemma enforced_reads:
  "keeps_conn (enforced P) (list_partners faults)" "keeps_conn (enforced P) (load_published_items faults)"
  "keeps_conn (enforced P) (find_partner_by_code faults code)"
  by (auto simp: list_partners_def load_published_items_def find_partner_by_code_def Let_def intro!: enforced_intros)

lemma db_operation_enforced: "db_operation faults c c' \<Longrightarrow> enforced db_wf c \<Longrightarrow> enforced db_wf c'"
  by (erule db_operation_elim)
    (blast intro: keeps_connD enforced_writes enforced_metrics enforced_reads enforced_exec)+

text \<open>
  \<^bold>\<open>C21.\<close> A connection that \<open>DbConn\<close> opened keeps the constraints of the schema. It starts without
  checks of references and its constructor turns them on; from then on, after any sequence of the
  operations of \<open>DbConn\<close> and of BEGIN, COMMIT and ROLLBACK, whatever their arguments and outcomes
  (success, a refused statement, any failure sqlite may report, with or without an implicit
  rollback), every key that was unique stays unique, every reference still has its target and every
  status column holds one of its documented values, in the tables the connection sees and in the
  committed ones.
\<close>

theorem db_operations_keep_constraints:
  assumes "connect faults (new_conn d) = (Inr u, c)" and "db_wf d" and "(db_operation faults)\<^sup>*\<^sup>* c c'"
  shows "db_wf (cn_db c') \<and> db_wf (committed c')"
proof -
  have "enforced db_wf c"
    using connect_cases [OF assms(1)] assms(2) by (simp add: enforced_def conn_ok_def)
  with assms(3) have "enforced db_wf c'"
    by (induction rule: rtranclp_induct) (auto intro: db_operation_enforced)
  then show ?thesis by (auto simp: enforced_def conn_ok_def committed_def split: option.split)
qed

section \<open>Event batches\<close>

text \<open>The tables after a whole batch was appended.\<close>

fun append_events :: "event list \<Rightarrow> database \<Rightarrow> database" where
  "append_events [] d = d"
| "append_events (ev # batch) d =
     append_events batch (d\<lparr> db_events := db_events d @ [event_row_of (next_rowid (map er_id (db_events d))) ev] \<rparr>)"

lemma append_events_rows:
  "\<exists>rows. append_events batch d = d\<lparr> db_events := db_events d @ rows \<rparr> \<and>
     list_all2 (\<lambda>row ev. row = event_row_of (er_id row) ev) rows batch"
proof (induction batch arbitrary: d)
  case Nil
  show ?case by (rule exI [of _ "[]"]) simp
next
  case (Cons ev batch)
  let ?row = "event_row_of (next_rowid (map er_id (db_events d))) ev"
  from Cons.IH [of "d\<lparr> db_events := db_events d @ [?row] \<rparr>"] obtain rows where
    "append_events (ev # batch) d = d\<lparr> db_events := db_events d @ ?row # rows \<rparr>"
    "list_all2 (\<lambda>row ev. row = event_row_of (er_id row) ev) rows batch"
    by auto
  moreover have "?row = event_row_of (er_id ?row) ev" by (simp add: event_row_of_def)
  ultimately show ?case by (intro exI [of _ "?row # rows"]) simp
qed

interpretation event_batch: transaction_body "insert_event_rows faults batch" for faults batch
proof
  show "keeps_transaction (insert_event_rows faults batch)"
    by (induction batch) (simp_all add: keeps_transaction_intros)
qed

lemma insert_event_rows_result:
  "insert_event_rows faults batch c = (Inr u, c') \<Longrightarrow> cn_db c' = append_events batch (cn_db c)"
proof (induction batch arbitrary: c)
  case Nil
  then show ?case by (simp add: db_return_def)
next
  case (Cons ev batch)
  then obtain c1 where step: "stmt_step faults (insert_event_stmt ev) c = (Inr (), c1)"
    and rest: "insert_event_rows faults batch c1 = (Inr u, c')"
    by (auto simp: db_bind_Inr)
  from step have "cn_db c1 = (cn_db c)\<lparr> db_events := db_events (cn_db c) @
      [event_row_of (next_rowid (map er_id (db_events (cn_db c)))) ev] \<rparr>"
    by (cases rule: stmt_step_cases) (auto simp: insert_event_stmt_def split: if_splits)
  with Cons.IH [OF rest] show ?case by simp
qed

definition batch_tokens :: "event list \<Rightarrow> string list" where
  "batch_tokens batch = filter (\<lambda>t. t \<noteq> []) (map ev_click_token batch)"

lemma token_known_snoc:
  "token_known (d\<lparr> db_events := db_events d @ [event_row_of i ev] \<rparr>) t \<longleftrightarrow>
     token_known d t \<or> (t = ev_click_token ev \<and> t \<noteq> [])"
  by (auto simp: token_known_def event_row_of_def)

lemma insert_event_rows_succeeds:
  assumes "\<And>n. faults n = NoFault" and "distinct (batch_tokens batch)"
    and "\<And>t. t \<in> set (batch_tokens batch) \<Longrightarrow> \<not> token_known (cn_db c) t"
  shows "\<exists>c'. insert_event_rows faults batch c = (Inr (), c') \<and> cn_saved c' = cn_saved c"
  using assms(2,3)
proof (induction batch arbitrary: c)
  case Nil
  then show ?case by (simp add: db_return_def)
next
  case (Cons ev batch)
  let ?d = "(cn_db c)\<lparr> db_events := db_events (cn_db c) @
      [event_row_of (next_rowid (map er_id (db_events (cn_db c)))) ev] \<rparr>"
  let ?c1 = "c\<lparr> cn_calls := Suc (cn_calls c), cn_db := ?d \<rparr>"
  have "ev_click_token ev = [] \<or> \<not> token_known (cn_db c) (ev_click_token ev)"
    using Cons.prems(2) [of "ev_click_token ev"] by (auto simp: batch_tokens_def)
  then have step: "stmt_step faults (insert_event_stmt ev) c = (Inr (), ?c1)"
    by (auto simp: dbm_simps assms(1) insert_event_stmt_def)
  have "\<exists>c'. insert_event_rows faults batch ?c1 = (Inr (), c') \<and> cn_saved c' = cn_saved ?c1"
  proof (rule Cons.IH)
    show "distinct (batch_tokens batch)"
      using Cons.prems(1) by (auto simp: batch_tokens_def split: if_splits)
    show "\<not> token_known (cn_db ?c1) t" if "t \<in> set (batch_tokens batch)" for t
    proof -
      have "t \<in> set (batch_tokens (ev # batch))"
        using that by (auto simp: batch_tokens_def)
      moreover have "t \<noteq> ev_click_token ev"
      proof
        assume "t = ev_click_token ev"
        with that have "batch_tokens (ev # batch) = t # batch_tokens batch"
          by (auto simp: batch_tokens_def)
        with Cons.prems(1) that show False by simp
      qed
      ultimately show ?thesis using Cons.prems(2) by (simp add: token_known_snoc)
    qed
  qed
  with step show ?case by (simp add: db_bind_def)
qed

text \<open>
  \<^bold>\<open>C14.\<close> A batch of events is written entirely or not at all. After \<open>insert_events\<close>
  either it returned, no transaction is open, and the event table is the old one followed
  by one row per event in order with every other table unchanged; or it threw, and the
  committed tables are exactly those before the call, whichever call into sqlite failed and
  however.
\<close>

theorem insert_events_atomic:
  assumes "insert_events faults batch c = (r, c')" and "cn_saved c = None"
  shows "(r = Inr () \<and> cn_saved c' = None \<and>
      (\<exists>rows. cn_db c' = (cn_db c)\<lparr> db_events := db_events (cn_db c) @ rows \<rparr> \<and>
         list_all2 (\<lambda>row ev. row = event_row_of (er_id row) ev) rows batch)) \<or>
    ((\<exists>e. r = Inl e) \<and> committed c' = cn_db c)"
proof (cases "batch = []")
  case True
  with assms show ?thesis by (auto simp: insert_events_def db_return_def intro!: exI [of _ "[]"])
next
  case False
  with assms have "in_transaction faults (insert_event_rows faults batch) c = (r, c')"
    by (simp add: insert_events_def)
  from event_batch.atomic [OF this assms(2)] consider
      c1 c2 where "r = Inr ()" "cn_db c1 = cn_db c" "insert_event_rows faults batch c1 = (Inr (), c2)"
        "cn_saved c' = None" "cn_db c' = cn_db c2"
    | "\<exists>e. r = Inl e" "committed c' = cn_db c"
    by auto
  then show ?thesis
  proof cases
    case 1
    with insert_event_rows_result [OF 1(3)] append_events_rows [of batch "cn_db c"] show ?thesis by simp
  qed simp
qed

definition empty_database :: database where
  "empty_database = \<lparr> db_user_version = 1, db_partners = [], db_items = [], db_images = [], db_tags = [],
     db_item_tags = [], db_sizes = [], db_colors = [], db_events = [], db_conversions = [], db_stats = [] \<rparr>"

theorem db_operations_keep_constraints_witness:
  "fst (attach_tag (\<lambda>_. NoFault) 7 7 (opened_conn empty_database)) = Inl ForeignKeyFailed \<and>
   db_wf (cn_db (snd (attach_tag (\<lambda>_. NoFault) 7 7 (opened_conn empty_database))))"
proof -
  let ?run = "attach_tag (\<lambda>_. NoFault) 7 7 (opened_conn empty_database)"
  have "db_operation (\<lambda>_. NoFault) (opened_conn empty_database) (snd ?run)"
    by (rule db_operation.intros(7) [OF prod.collapse [symmetric]])
  then have "(db_operation (\<lambda>_. NoFault))\<^sup>*\<^sup>* (opened_conn empty_database) (snd ?run)" by blast
  moreover have "db_wf empty_database"
    by (simp add: empty_database_def db_wf_def items_wf_def children_wf_def events_wf_def conversions_wf_def
        stats_wf_def present_def)
  moreover have "fst ?run = Inl ForeignKeyFailed"
    by (simp add: attach_tag_def with_pragma_def dbm_simps attach_tag_stmt_def empty_database_def)
  ultimately show ?thesis using db_operations_keep_constraints [OF connect_no_fault] by blast
qed

text \<open>The setting matters: on a connection without it the same call leaves a reference to nothing.\<close>

lemma unchecked_reference:
  "\<not> db_wf (cn_db (snd (attach_tag (\<lambda>_. NoFault) 7 7 (new_conn empty_database))))"
  by (simp add: attach_tag_def with_pragma_def dbm_simps attach_tag_stmt_def empty_database_def new_conn_def db_wf_def
      children_wf_def)

theorem insert_events_atomic_witness:
  "committed (snd (insert_events (\<lambda>n. if n = 2 then FailsRollingBack else NoFault)
      [event_default, event_default] (new_conn empty_database))) = empty_database"
proof -
  let ?run = "insert_events (\<lambda>n. if n = 2 then FailsRollingBack else NoFault)
      [event_default, event_default] (new_conn empty_database)"
  have saved: "cn_saved (new_conn empty_database) = None" by (simp add: new_conn_def)
  have "fst ?run = Inl NoTransaction"
    by (simp add: insert_events_def in_transaction_def dbm_simps new_conn_def insert_event_stmt_def
        token_known_def empty_database_def event_default_def)
  with insert_events_atomic [OF _ saved, of "\<lambda>n. if n = 2 then FailsRollingBack else NoFault"
      "[event_default, event_default]" "fst ?run" "snd ?run"]
  show ?thesis by (simp add: new_conn_def)
qed

text \<open>
  The batch is written when nothing goes wrong: on a healthy database, with no
  transaction open and with click tokens that are new and pairwise different,
  \<open>insert_events\<close> returns.
\<close>

theorem insert_events_succeeds:
  assumes "\<And>n. faults n = NoFault" and "cn_saved c = None" and "distinct (batch_tokens batch)"
    and "\<And>t. t \<in> set (batch_tokens batch) \<Longrightarrow> \<not> token_known (cn_db c) t"
  shows "fst (insert_events faults batch c) = Inr ()"
proof (cases "batch = []")
  case False
  let ?c1 = "c\<lparr> cn_calls := Suc (cn_calls c), cn_saved := Some (cn_db c) \<rparr>"
  from insert_event_rows_succeeds [where faults = faults and batch = batch and c = ?c1, OF assms(1,3)] assms(4)
  obtain c2 where "insert_event_rows faults batch ?c1 = (Inr (), c2)" "cn_saved c2 = Some (cn_db c)"
    by auto
  with False assms(1,2) show ?thesis
    by (simp add: insert_events_def in_transaction_def dbm_simps)
qed (simp add: insert_events_def db_return_def)

theorem insert_events_succeeds_witness:
  "fst (insert_events (\<lambda>_. NoFault) [event_default\<lparr> ev_click_token := ''TESTTOKEN123'' \<rparr>, event_default]
     (new_conn empty_database)) = Inr ()"
  by (rule insert_events_succeeds)
    (auto simp: new_conn_def batch_tokens_def event_default_def token_known_def empty_database_def split: if_splits)

end
