(* ===== verification/Db_Metrics.thy ===== *)
theory Db_Metrics
  imports Db_Facts
begin

text \<open>
  What the metric operations of \<open>src/db.cpp\<close> do to the tables: \<open>record_conversion\<close> keeps one
  row per order and answers whether the click is known, \<open>rollup_daily\<close> sets each day and
  item to its count of human events, \<open>prune_events\<close> removes exactly the old events.
\<close>

section \<open>Conversions\<close>

definition order_rows :: "string \<Rightarrow> database \<Rightarrow> conversion_row list" where
  "order_rows ref d = filter (\<lambda>r. cr_order_ref r = Some ref) (db_conversions d)"

definition other_rows :: "string \<Rightarrow> database \<Rightarrow> conversion_row list" where
  "other_rows ref d = filter (\<lambda>r. cr_order_ref r \<noteq> Some ref) (db_conversions d)"

lemma filter_update_conversion:
  "filter (\<lambda>r. cr_order_ref r \<noteq> Some (cv_order_ref c)) (map (update_conversion c) rs) =
     filter (\<lambda>r. cr_order_ref r \<noteq> Some (cv_order_ref c)) rs"
  by (induction rs) (auto simp: update_conversion_def)

lemma single_order_row:
  assumes "distinct (present (map cr_order_ref rs))" and "Some ref \<in> set (map cr_order_ref rs)"
  shows "\<exists>r. filter (\<lambda>r. cr_order_ref r = Some ref) rs = [r]"
  using assms
proof (induction rs)
  case (Cons r rs)
  show ?case
  proof (cases "cr_order_ref r = Some ref")
    case True
    with Cons.prems(1) have "Some ref \<notin> set (map cr_order_ref rs)" by (simp add: present_def)
    then have "filter (\<lambda>r. cr_order_ref r = Some ref) rs = []" by (force simp: filter_empty_conv)
    with True show ?thesis by simp
  next
    case False
    with Cons show ?thesis by (auto simp: present_def split: if_splits)
  qed
qed simp

lemma order_rows_update:
  assumes "filter (\<lambda>r. cr_order_ref r = Some (cv_order_ref c)) rs = [r]"
  shows "filter (\<lambda>r. cr_order_ref r = Some (cv_order_ref c)) (map (update_conversion c) rs) = [update_conversion c r]"
  using assms by (simp add: filter_map comp_def)

lemma upsert_conversion_cases:
  assumes "upsert_conversion_stmt c d = Inr (u, d')"
  obtains (updated) "cv_order_ref c \<noteq> []" "Some (cv_order_ref c) \<in> set (map cr_order_ref (db_conversions d))"
      "d' = d\<lparr> db_conversions := map (update_conversion c) (db_conversions d) \<rparr>"
  | (added) row where "cv_order_ref c = [] \<or> Some (cv_order_ref c) \<notin> set (map cr_order_ref (db_conversions d))"
      "d' = d\<lparr> db_conversions := db_conversions d @ [row] \<rparr>"
      "cr_order_ref row = (if cv_order_ref c = [] then None else Some (cv_order_ref c))"
      "cr_status row = cv_status c" "cr_amount_kopek row = cv_amount c" "cr_ts row = cv_ts c"
  using assms by (auto simp: upsert_conversion_stmt_def split: if_splits)

text \<open>A successful call, unfolded: the answer, and what happened to the table.\<close>

lemma record_conversion_cases:
  assumes "record_conversion faults c conn = (Inr matched, conn')"
  obtains (unknown) "\<not> token_known (cn_db conn) (cv_click_token c)" "\<not> matched" "cn_db conn' = cn_db conn"
  | (known) "token_known (cn_db conn) (cv_click_token c)" "matched"
      "upsert_conversion_stmt c (cn_db conn) = Inr ((), cn_db conn')"
proof -
  from assms obtain known c1 where
    check: "stmt_read faults (\<lambda>d. token_known d (cv_click_token c)) conn = (Inr known, c1)"
    and rest: "(if \<not> known then db_return False
       else db_bind (stmt_step faults (upsert_conversion_stmt c)) (\<lambda>_. db_return True)) c1 = (Inr matched, conn')"
    by (auto simp: record_conversion_def db_bind_Inr)
  from check have c1: "known = token_known (cn_db conn) (cv_click_token c)" "cn_db c1 = cn_db conn"
    unfolding stmt_read_def by (auto elim!: stmt_step_cases)
  show ?thesis
  proof (cases known)
    case False
    with rest c1 show ?thesis by (intro unknown) (auto simp: db_return_def)
  next
    case True
    with rest have "stmt_step faults (upsert_conversion_stmt c) c1 = (Inr (), conn')" "matched"
      by (auto simp: db_bind_Inr db_return_def)
    with True c1 show ?thesis by (intro known) (auto elim!: stmt_step_cases)
  qed
qed

text \<open>
  \<^bold>\<open>C15.\<close> A postback is accepted exactly when its click token belongs to a recorded
  event, and a refused postback changes nothing. An accepted one touches only the
  conversions table; rows of other orders stay as they are; a postback with an order
  reference leaves exactly one row for that order, with the status, the amount and the time
  it reported; one without a reference always adds a row.
\<close>

theorem record_conversion_correct:
  assumes "record_conversion faults c conn = (Inr matched, conn')" and "conversions_wf (cn_db conn)"
  shows "(matched \<longleftrightarrow> token_known (cn_db conn) (cv_click_token c)) \<and>
    (\<not> matched \<longrightarrow> cn_db conn' = cn_db conn) \<and>
    cn_db conn' = (cn_db conn)\<lparr> db_conversions := db_conversions (cn_db conn') \<rparr> \<and>
    other_rows (cv_order_ref c) (cn_db conn') =
      other_rows (cv_order_ref c) (cn_db conn) @
        (if matched \<and> cv_order_ref c = [] then [last (db_conversions (cn_db conn'))] else []) \<and>
    (matched \<and> cv_order_ref c \<noteq> [] \<longrightarrow>
       (\<exists>r. order_rows (cv_order_ref c) (cn_db conn') = [r] \<and> cr_status r = cv_status c \<and>
          cr_amount_kopek r = cv_amount c \<and> cr_ts r = cv_ts c))"
  using assms(1)
proof (cases rule: record_conversion_cases)
  case unknown
  then show ?thesis by simp
next
  case known
  from known(3) show ?thesis
  proof (cases rule: upsert_conversion_cases)
    case updated
    from assms(2) have "distinct (present (map cr_order_ref (db_conversions (cn_db conn))))"
      by (simp add: conversions_wf_def)
    from single_order_row [OF this updated(2)] obtain r where
      one: "filter (\<lambda>r. cr_order_ref r = Some (cv_order_ref c)) (db_conversions (cn_db conn)) = [r]"
      by blast
    then have "r \<in> set (filter (\<lambda>r. cr_order_ref r = Some (cv_order_ref c)) (db_conversions (cn_db conn)))" by simp
    then have "cr_order_ref r = Some (cv_order_ref c)" by simp
    with order_rows_update [OF one] updated filter_update_conversion known show ?thesis
      by (simp add: other_rows_def order_rows_def update_conversion_def)
  next
    case (added row)
    then have "cv_order_ref c \<noteq> [] \<Longrightarrow>
        filter (\<lambda>r. cr_order_ref r = Some (cv_order_ref c)) (db_conversions (cn_db conn)) = []"
      by (force simp: filter_empty_conv)
    with added known show ?thesis by (simp add: other_rows_def order_rows_def)
  qed
qed

definition clicked_database :: database where
  "clicked_database = append_events [event_default\<lparr> ev_click_token := ''TESTTOKEN123'' \<rparr>] empty_database"

definition sample_postback :: conversion where
  "sample_postback = conversion_default\<lparr> cv_click_token := ''TESTTOKEN123'', cv_ts := 5,
     cv_order_ref := ''A1'', cv_amount := Some 1999, cv_status := ''approved'' \<rparr>"

lemma sample_postback_runs:
  "\<exists>conn'. record_conversion (\<lambda>_. NoFault) sample_postback (new_conn clicked_database) = (Inr True, conn')"
  by (simp add: record_conversion_def dbm_simps new_conn_def sample_postback_def clicked_database_def
      conversion_default_def event_default_def event_row_of_def token_known_def empty_database_def
      upsert_conversion_stmt_def conversion_status_ok_def Let_def)

lemma clicked_database_wf: "db_wf clicked_database"
  by (simp add: clicked_database_def empty_database_def event_row_of_def event_default_def db_wf_def
      items_wf_def children_wf_def events_wf_def conversions_wf_def stats_wf_def present_def)

theorem record_conversion_correct_witness:
  "\<exists>conn' r. record_conversion (\<lambda>_. NoFault) sample_postback (new_conn clicked_database) = (Inr True, conn') \<and>
     order_rows ''A1'' (cn_db conn') = [r] \<and> cr_amount_kopek r = Some 1999"
proof -
  obtain conn' where run: "record_conversion (\<lambda>_. NoFault) sample_postback (new_conn clicked_database) =
      (Inr True, conn')"
    using sample_postback_runs by blast
  have "conversions_wf (cn_db (new_conn clicked_database))"
    using clicked_database_wf by (simp add: db_wf_def new_conn_def)
  from record_conversion_correct [OF run this] run show ?thesis
    by (auto simp: sample_postback_def)
qed

lemma upsert_conversion_settles:
  assumes "upsert_conversion_stmt c d = Inr (u, d')" and "cv_order_ref c \<noteq> []"
  shows "upsert_conversion_stmt c d' = Inr ((), d')"
proof -
  have ok: "conversion_status_ok (cv_status c)"
    using assms(1) by (auto simp: upsert_conversion_stmt_def split: if_splits)
  have "Some (cv_order_ref c) \<in> set (map cr_order_ref (db_conversions d')) \<and>
      map (update_conversion c) (db_conversions d') = db_conversions d'"
    using assms(1)
  proof (cases rule: upsert_conversion_cases)
    case updated
    have "map (update_conversion c) (map (update_conversion c) rs) = map (update_conversion c) rs" for rs
      by (simp add: update_conversion_def comp_def)
    with updated show ?thesis by (simp add: image_comp comp_def)
  next
    case (added row)
    moreover from added assms(2) have "update_conversion c r = r" if "r \<in> set (db_conversions d)" for r
      using that by (force simp: update_conversion_def)
    ultimately show ?thesis using assms(2) by (simp add: update_conversion_def map_idI)
  qed
  with ok assms(2) show ?thesis by (simp add: upsert_conversion_stmt_def)
qed

text \<open>
  Affiliate networks redeliver postbacks. Recording the same postback again,
  when it names an order and both calls succeed, leaves the tables exactly as the first
  call left them.
\<close>

theorem record_conversion_idempotent:
  assumes "record_conversion faults c conn = (Inr a, conn1)" and "record_conversion faults' c conn1 = (Inr b, conn2)"
    and "cv_order_ref c \<noteq> []"
  shows "cn_db conn2 = cn_db conn1 \<and> b = a"
proof -
  have tok: "token_known (cn_db conn1) t = token_known (cn_db conn) t" for t
    using assms(1)
    by (cases rule: record_conversion_cases) (auto elim!: upsert_conversion_cases simp: token_known_def)
  from assms(2) show ?thesis
  proof (cases rule: record_conversion_cases)
    case unknown
    with assms(1) tok show ?thesis by (cases rule: record_conversion_cases) simp_all
  next
    case known
    with tok assms(1) have "a" and first: "upsert_conversion_stmt c (cn_db conn) = Inr ((), cn_db conn1)"
      by (auto elim!: record_conversion_cases)
    from upsert_conversion_settles [OF first assms(3)] known \<open>a\<close> show ?thesis by simp
  qed
qed

theorem record_conversion_idempotent_witness:
  "\<exists>conn1 conn2. record_conversion (\<lambda>_. NoFault) sample_postback (new_conn clicked_database) = (Inr True, conn1) \<and>
     record_conversion (\<lambda>_. NoFault) sample_postback conn1 = (Inr True, conn2) \<and> cn_db conn2 = cn_db conn1"
proof -
  let ?rec = "record_conversion (\<lambda>_. NoFault) sample_postback"
  obtain conn1 where one: "?rec (new_conn clicked_database) = (Inr True, conn1)"
    using sample_postback_runs by blast
  have "\<exists>conn2. ?rec conn1 = (Inr True, conn2)"
    using one by (auto simp: record_conversion_def dbm_simps new_conn_def sample_postback_def clicked_database_def
      conversion_default_def event_default_def event_row_of_def token_known_def empty_database_def
      upsert_conversion_stmt_def conversion_status_ok_def Let_def)
  then obtain conn2 where two: "?rec conn1 = (Inr True, conn2)" by blast
  have "cv_order_ref sample_postback \<noteq> []" by (simp add: sample_postback_def)
  from record_conversion_idempotent [OF one two this] one two show ?thesis by blast
qed

section \<open>The daily rollup\<close>

definition find_stat :: "stat_row list \<Rightarrow> int \<times> int \<Rightarrow> stat_row option" where
  "find_stat rs k = List.find (\<lambda>r. stat_key r = k) rs"

lemma find_stat_None: "find_stat rs k = None \<longleftrightarrow> k \<notin> set (map stat_key rs)"
  by (auto simp: find_stat_def find_None_iff image_iff)

lemma find_stat_simps [simp]:
  "find_stat [] k = None"
  "find_stat (r # rs) k = (if stat_key r = k then Some r else find_stat rs k)"
  by (simp_all add: find_stat_def)

lemma find_stat_upsert:
  "find_stat (upsert_stat rs new) k = (if k = stat_key new then Some new else find_stat rs k)"
  by (induction rs) (auto simp: find_stat_def stat_key_def)

lemma find_stat_foldl:
  "distinct (map stat_key news) \<Longrightarrow>
     find_stat (foldl upsert_stat rs news) k =
       (case find_stat news k of Some r \<Rightarrow> Some r | None \<Rightarrow> find_stat rs k)"
proof (induction news arbitrary: rs)
  case Nil
  then show ?case by simp
next
  case (Cons new news)
  then have "find_stat news (stat_key new) = None" by (simp add: find_stat_None)
  with Cons show ?case by (auto simp: find_stat_upsert split: option.splits)
qed

lemma upsert_stat_same: "find_stat rs (stat_key new) = Some new \<Longrightarrow> upsert_stat rs new = rs"
  by (induction rs) (auto simp: find_stat_def stat_key_def split: if_splits)

lemma foldl_upsert_same:
  "(\<And>n. n \<in> set news \<Longrightarrow> find_stat rs (stat_key n) = Some n) \<Longrightarrow> foldl upsert_stat rs news = rs"
  by (induction news) (simp_all add: upsert_stat_same)

definition human_events :: "database \<Rightarrow> int \<Rightarrow> int \<Rightarrow> event_row list" where
  "human_events d day i = filter (\<lambda>r. er_item_id r = Some i \<and> er_ua_class r \<noteq> ''bot'' \<and> event_day r = day) (db_events d)"

definition stat_of_group :: "int \<Rightarrow> int \<Rightarrow> event_row list \<Rightarrow> stat_row" where
  "stat_of_group day i grp = \<lparr> sr_day = day, sr_item_id = i, sr_impressions = count_type ''impression'' grp,
     sr_card_clicks = count_type ''card_click'' grp, sr_outbounds = count_type ''outbound'' grp \<rparr>"

definition rollup_keys :: "int \<Rightarrow> int \<Rightarrow> event_row list \<Rightarrow> (int \<times> int) list" where
  "rollup_keys a b evs = remdups (map (\<lambda>r. (event_day r, the (er_item_id r))) (filter (rollup_selects a b) evs))"

lemma rollup_rows_eq:
  "rollup_rows a b (db_events d) =
     map (\<lambda>(day, i). stat_of_group day i (human_events d day i)) (rollup_keys a b (db_events d))"
proof -
  have "filter (\<lambda>r. event_day r = day \<and> er_item_id r = Some i) (filter (rollup_selects a b) (db_events d)) =
      human_events d day i" if "(day, i) \<in> set (rollup_keys a b (db_events d))" for day i
  proof -
    from that have "a \<le> day" "day \<le> b" by (auto simp: rollup_keys_def rollup_selects_def)
    then show ?thesis by (auto simp: human_events_def rollup_selects_def intro!: filter_cong)
  qed
  then show ?thesis
    by (auto simp: rollup_rows_def Let_def stat_of_group_def rollup_keys_def [symmetric])
qed

lemma rollup_keys_iff:
  "(day, i) \<in> set (rollup_keys a b (db_events d)) \<longleftrightarrow> a \<le> day \<and> day \<le> b \<and> human_events d day i \<noteq> []"
  by (force simp: rollup_keys_def rollup_selects_def human_events_def filter_empty_conv image_iff)

lemma rollup_rows_keys: "map stat_key (rollup_rows a b (db_events (d :: database))) = rollup_keys a b (db_events d)"
  by (simp add: rollup_rows_eq comp_def case_prod_beta stat_of_group_def stat_key_def)

lemma rollup_rows_distinct: "distinct (map stat_key (rollup_rows a b (db_events (d :: database))))"
  by (simp only: rollup_rows_keys) (simp add: rollup_keys_def)

lemma find_rollup_rows:
  "find_stat (rollup_rows a b (db_events d)) (day, i) =
     (if a \<le> day \<and> day \<le> b \<and> human_events d day i \<noteq> [] then Some (stat_of_group day i (human_events d day i)) else None)"
proof -
  let ?row = "stat_of_group day i (human_events d day i)"
  have key: "stat_key ?row = (day, i)" by (simp add: stat_of_group_def stat_key_def)
  show ?thesis
  proof (cases "(day, i) \<in> set (rollup_keys a b (db_events d))")
    case True
    then have "?row \<in> set (rollup_rows a b (db_events d))" by (force simp: rollup_rows_eq)
    from find_Some_distinct [OF rollup_rows_distinct this] True key rollup_keys_iff show ?thesis
      by (simp add: find_stat_def)
  next
    case False
    then have "(day, i) \<notin> set (map stat_key (rollup_rows a b (db_events d)))" by (simp only: rollup_rows_keys) simp
    then have "find_stat (rollup_rows a b (db_events d)) (day, i) = None"
      by (simp only: find_stat_None not_False_eq_True)
    with False rollup_keys_iff show ?thesis by simp
  qed
qed

lemma find_stat_rollup:
  "find_stat (db_stats (rollup_stmt a b d)) (day, i) =
     (if a \<le> day \<and> day \<le> b \<and> human_events d day i \<noteq> []
      then Some (stat_of_group day i (human_events d day i)) else find_stat (db_stats d) (day, i))"
  by (simp add: rollup_stmt_def find_stat_foldl [OF rollup_rows_distinct] find_rollup_rows)

lemma rollup_idempotent: "rollup_stmt a b (rollup_stmt a b d) = rollup_stmt a b d"
proof -
  let ?new = "rollup_rows a b (db_events d)"
  let ?rs = "foldl upsert_stat (db_stats d) ?new"
  have "find_stat ?rs (stat_key n) = Some n" if "n \<in> set ?new" for n
    using find_Some_distinct [OF rollup_rows_distinct that] find_stat_foldl [OF rollup_rows_distinct [of a b d], of "db_stats d" "stat_key n"]
    by (simp add: find_stat_def)
  then have "foldl upsert_stat ?rs ?new = ?rs" by (rule foldl_upsert_same)
  then show ?thesis by (simp add: rollup_stmt_def)
qed

text \<open>
  \<^bold>\<open>C17.\<close> After a rollup of the days \<open>a\<close> to \<open>b\<close> the statistics of a day in that
  range and an item with human events are exactly the numbers of its impressions, card
  clicks and outbound clicks by non-bots, whatever stood there before; every other row is
  unchanged; no other table is touched; and running the rollup again changes nothing, so the
  hourly re-rolls never count an event twice.
\<close>

theorem rollup_daily_correct:
  "find_stat (db_stats (rollup_stmt a b d)) (day, i) =
     (if a \<le> day \<and> day \<le> b \<and> human_events d day i \<noteq> []
      then Some \<lparr> sr_day = day, sr_item_id = i, sr_impressions = count_type ''impression'' (human_events d day i),
             sr_card_clicks = count_type ''card_click'' (human_events d day i),
             sr_outbounds = count_type ''outbound'' (human_events d day i) \<rparr>
      else find_stat (db_stats d) (day, i)) \<and>
   rollup_stmt a b d = d\<lparr> db_stats := db_stats (rollup_stmt a b d) \<rparr> \<and>
   rollup_stmt a b (rollup_stmt a b d) = rollup_stmt a b d"
proof (intro conjI)
  show "find_stat (db_stats (rollup_stmt a b d)) (day, i) =
     (if a \<le> day \<and> day \<le> b \<and> human_events d day i \<noteq> []
      then Some \<lparr> sr_day = day, sr_item_id = i, sr_impressions = count_type ''impression'' (human_events d day i),
             sr_card_clicks = count_type ''card_click'' (human_events d day i),
             sr_outbounds = count_type ''outbound'' (human_events d day i) \<rparr>
      else find_stat (db_stats d) (day, i))"
    by (simp add: find_stat_rollup stat_of_group_def)
  show "rollup_stmt a b (rollup_stmt a b d) = rollup_stmt a b d" by (rule rollup_idempotent)
qed (simp add: rollup_stmt_def)

end
