(* ===== verification/Db_Load.thy ===== *)
theory Db_Load
  imports Db_Facts
begin

text \<open>
  \<open>DbConn::load_published_items\<close> reads each child table once and distributes the rows over
  the items through an index. This theory proves it equal to the obvious reference, which
  runs one query per item.
\<close>

section \<open>Distributing rows\<close>

lemma attach_row_eq:
  assumes "distinct (map it_id items)" and "map it_id items = map it_id items0"
  shows "attach_row (build_index it_id items0) parent fn items row =
    map (\<lambda>it. if it_id it = parent row then fn row it else it) items"
proof (cases "build_index it_id items0 (parent row)")
  case None
  with build_index_cases [where key = it_id and xs = items0 and k = "parent row"] have "parent row \<notin> set (map it_id items)"
    by (simp only: assms(2)) simp
  then show ?thesis using None by (force simp: attach_row_def intro!: map_idI [symmetric])
next
  case (Some j)
  with build_index_cases [where key = it_id and xs = items0 and k = "parent row"] have "j < length items0" "it_id (items0 ! j) = parent row"
    by simp_all
  with assms(2) have j: "j < length items" "it_id (items ! j) = parent row"
    by (metis length_map, metis length_map nth_map)
  with assms(1) have "it_id (items ! k) = parent row \<longleftrightarrow> k = j" if "k < length items" for k
    using that nth_eq_iff_index_eq [OF assms(1), of k j] by auto
  with Some j(1) show ?thesis
    by (auto simp: attach_row_def nth_list_update intro!: nth_equalityI)
qed

lemma attach_eq:
  assumes "distinct (map it_id items)" and "map it_id items = map it_id items0"
    and keeps: "\<And>r it. it_id (fn r it) = it_id it"
  shows "attach (build_index it_id items0) parent fn rows items =
    map (\<lambda>it. foldl (\<lambda>it r. fn r it) it (filter (\<lambda>r. parent r = it_id it) rows)) items"
  using assms(1,2)
proof (induction rows arbitrary: items)
  case Nil
  then show ?case by (simp add: attach_def)
next
  case (Cons row rows)
  let ?items1 = "map (\<lambda>it. if it_id it = parent row then fn row it else it) items"
  have ids: "map it_id ?items1 = map it_id items" by (simp add: keeps)
  have "attach (build_index it_id items0) parent fn (row # rows) items =
      attach (build_index it_id items0) parent fn rows ?items1"
    by (simp add: attach_def attach_row_eq [OF Cons.prems])
  also have "\<dots> = map (\<lambda>it. foldl (\<lambda>it r. fn r it) it (filter (\<lambda>r. parent r = it_id it) rows)) ?items1"
    using Cons.prems by (intro Cons.IH) (simp_all only: ids)
  also have "\<dots> = map (\<lambda>it. foldl (\<lambda>it r. fn r it) it (filter (\<lambda>r. parent r = it_id it) (row # rows))) items"
    by (auto simp: keeps)
  finally show ?case .
qed

section \<open>One query per item\<close>

definition image_of_row :: "image_row \<Rightarrow> image" where
  "image_of_row r = \<lparr> img_id = mr_id r, img_path = mr_path r, img_thumb_path = coalesce (mr_thumb_path r) [],
     img_width = int32_of (coalesce (mr_width r) 0), img_height = int32_of (coalesce (mr_height r) 0),
     img_sort_order = int32_of (mr_sort_order r) \<rparr>"

definition color_of_row :: "color_row \<Rightarrow> color" where
  "color_of_row r = \<lparr> col_name = kr_color r, col_hex = coalesce (kr_hex r) [] \<rparr>"

definition images_of :: "database \<Rightarrow> int \<Rightarrow> image_row list" where
  "images_of d i = stable_sort (\<lambda>a b. mr_sort_order a < mr_sort_order b) (filter (\<lambda>m. mr_item_id m = i) (db_images d))"

definition tags_of :: "database \<Rightarrow> int \<Rightarrow> string list" where
  "tags_of d i = stable_sort string_less
     (concat (map (\<lambda>x. map tr_slug (filter (\<lambda>t. tr_id t = xr_tag_id x) (db_tags d)))
       (filter (\<lambda>x. xr_item_id x = i) (db_item_tags d))))"

definition load_one :: "database \<Rightarrow> item_row \<Rightarrow> item" where
  "load_one d r = (item_of_row r)\<lparr>
     it_images := map image_of_row (images_of d (ir_id r)),
     it_tags := tags_of d (ir_id r),
     it_sizes := map zr_size (filter (\<lambda>z. zr_item_id z = ir_id r) (db_sizes d)),
     it_colors := map color_of_row (filter (\<lambda>k. kr_item_id k = ir_id r) (db_colors d)) \<rparr>"

lemma string_less_irrefl: "\<not> string_less xs xs"
  by (induction xs) simp_all

lemma string_less_trans: "string_less xs ys \<Longrightarrow> string_less ys zs \<Longrightarrow> string_less xs zs"
proof (induction xs ys arbitrary: zs rule: string_less.induct)
  case (2 y ys)
  then show ?case by (cases zs) auto
next
  case (3 x xs y ys)
  then show ?case by (cases zs) auto
qed simp

lemma char_code_inj: "char_code x = char_code y \<longleftrightarrow> x = y"
  by (metis char_of_char_code)

lemma string_less_linear: "\<not> string_less xs ys \<Longrightarrow> string_less ys xs \<or> xs = ys"
proof (induction xs ys rule: string_less.induct)
  case (1 xs)
  then show ?case by (cases xs) auto
next
  case (3 x xs y ys)
  then have "char_code y < char_code x \<or> (x = y \<and> \<not> string_less xs ys)"
    using char_code_inj [of x y] by (auto simp: not_less_iff_gr_or_eq)
  with 3 show ?case by auto
qed simp

lemma string_less_not_trans: "\<not> string_less xs ys \<Longrightarrow> \<not> string_less ys zs \<Longrightarrow> \<not> string_less xs zs"
  using string_less_linear string_less_trans string_less_irrefl by metis

interpretation row_order: strict_weak item_row_less
  by unfold_locales (auto simp: item_row_less_def split: if_splits option.splits)

interpretation image_order: strict_weak image_row_less
  by unfold_locales (auto simp: image_row_less_def)

interpretation tag_order: strict_weak tag_pair_less
proof
  show "\<not> tag_pair_less x x" for x by (simp add: tag_pair_less_def string_less_irrefl)
  show "tag_pair_less x y \<Longrightarrow> tag_pair_less y z \<Longrightarrow> tag_pair_less x z" for x y z
    using string_less_trans by (auto simp: tag_pair_less_def)
  show "\<not> tag_pair_less x y \<Longrightarrow> \<not> tag_pair_less y z \<Longrightarrow> \<not> tag_pair_less x z" for x y z
    using string_less_not_trans by (auto simp: tag_pair_less_def)
qed

interpretation size_order: strict_weak "\<lambda>a b. zr_item_id a < zr_item_id b"
  by unfold_locales auto

interpretation color_order: strict_weak "\<lambda>a b. kr_item_id a < kr_item_id b"
  by unfold_locales auto

lemma select_images_of: "filter (\<lambda>m. mr_item_id m = i) (select_images d) = images_of d i"
  unfolding select_images_def images_of_def image_order.filter_commutes
  by (rule stable_sort_cong) (auto simp: image_row_less_def)

lemma join_tags_of:
  "map snd (filter (\<lambda>p. fst p = i) (join_tags d)) =
     concat (map (\<lambda>x. map tr_slug (filter (\<lambda>t. tr_id t = xr_tag_id x) (db_tags d)))
       (filter (\<lambda>x. xr_item_id x = i) (db_item_tags d)))"
proof -
  have "map snd (filter (\<lambda>p. fst p = i) (concat (map (\<lambda>x. map (\<lambda>t. (xr_item_id x, tr_slug t)) (ts x)) xs))) =
      concat (map (\<lambda>x. map tr_slug (ts x)) (filter (\<lambda>x. xr_item_id x = i) xs))" for xs and ts :: "item_tag_row \<Rightarrow> tag_row list"
    by (induction xs) (auto simp: filter_map comp_def)
  then show ?thesis by (simp add: join_tags_def)
qed

lemma select_tags_of: "map snd (filter (\<lambda>p. fst p = i) (select_tags d)) = tags_of d i"
proof -
  have "filter (\<lambda>p. fst p = i) (select_tags d) =
      stable_sort (\<lambda>p q. string_less (snd p) (snd q)) (filter (\<lambda>p. fst p = i) (join_tags d))"
    unfolding select_tags_def tag_order.filter_commutes
    by (rule stable_sort_cong) (auto simp: tag_pair_less_def)
  then show ?thesis by (simp add: map_stable_sort join_tags_of tags_of_def)
qed

lemma select_sizes_of: "filter (\<lambda>z. zr_item_id z = i) (select_sizes d) = filter (\<lambda>z. zr_item_id z = i) (db_sizes d)"
  unfolding select_sizes_def size_order.filter_commutes by (rule stable_sort_tied) auto

lemma select_colors_of: "filter (\<lambda>k. kr_item_id k = i) (select_colors d) = filter (\<lambda>k. kr_item_id k = i) (db_colors d)"
  unfolding select_colors_def color_order.filter_commutes by (rule stable_sort_tied) auto

lemma foldl_push_image:
  "foldl (\<lambda>it r. push_image r it) it ms = it\<lparr> it_images := it_images it @ map image_of_row ms \<rparr>"
  by (induction ms arbitrary: it) (simp_all add: push_image_def image_of_row_def)

lemma foldl_push_tag: "foldl (\<lambda>it r. push_tag r it) it ps = it\<lparr> it_tags := it_tags it @ map snd ps \<rparr>"
  by (induction ps arbitrary: it) (simp_all add: push_tag_def)

lemma foldl_push_size: "foldl (\<lambda>it r. push_size r it) it zs = it\<lparr> it_sizes := it_sizes it @ map zr_size zs \<rparr>"
  by (induction zs arbitrary: it) (simp_all add: push_size_def)

lemma foldl_push_color:
  "foldl (\<lambda>it r. push_color r it) it ks = it\<lparr> it_colors := it_colors it @ map color_of_row ks \<rparr>"
  by (induction ks arbitrary: it) (simp_all add: push_color_def color_of_row_def)

lemmas foldl_push = foldl_push_image foldl_push_tag foldl_push_size foldl_push_color

lemma push_id [simp]:
  "it_id (push_image r it) = it_id it" "it_id (push_tag p it) = it_id it"
  "it_id (push_size z it) = it_id it" "it_id (push_color k it) = it_id it"
  by (simp_all add: push_image_def push_tag_def push_size_def push_color_def)

lemma item_of_row_empty [simp]:
  "it_id (item_of_row r) = ir_id r" "it_images (item_of_row r) = []" "it_tags (item_of_row r) = []"
  "it_sizes (item_of_row r) = []" "it_colors (item_of_row r) = []"
  by (simp_all add: item_of_row_def item_default_def)

section \<open>The equivalence\<close>

lemma stmt_read_Inr:
  assumes "stmt_read faults f c = (Inr a, c')"
  shows "a = f (cn_db c) \<and> cn_db c' = cn_db c"
  using assms unfolding stmt_read_def by (auto elim!: stmt_step_cases)

definition loaded_items :: "database \<Rightarrow> item list" where
  "loaded_items d =
     (let items = map item_of_row (select_published d); index = build_index it_id items
      in attach index kr_item_id push_color (select_colors d)
           (attach index zr_item_id push_size (select_sizes d)
             (attach index fst push_tag (select_tags d)
               (attach index mr_item_id push_image (select_images d) items))))"

lemma load_published_items_Inr:
  assumes "load_published_items faults c = (Inr items, c')"
  shows "items = loaded_items (cn_db c) \<and> cn_db c' = cn_db c"
  using assms
  by (auto simp: load_published_items_def loaded_items_def Let_def db_bind_Inr db_return_def dest!: stmt_read_Inr)

lemma select_published_distinct:
  assumes "distinct (map ir_id (db_items d))"
  shows "distinct (map ir_id (select_published d))"
proof -
  have "distinct (map ir_id (filter (\<lambda>r. ir_status r = ''published'') (db_items d)))"
    using assms by (rule distinct_map_filter')
  moreover have "mset (map ir_id (select_published d)) =
      mset (map ir_id (filter (\<lambda>r. ir_status r = ''published'') (db_items d)))"
    using row_order.mset_stable_sort by (simp add: select_published_def)
  ultimately show ?thesis by (metis mset_eq_imp_distinct_iff)
qed

lemma loaded_items_eq:
  assumes "distinct (map ir_id (db_items d))"
  shows "loaded_items d = map (load_one d) (select_published d)"
proof -
  let ?rows = "select_published d" let ?items = "map item_of_row ?rows"
  have ids: "distinct (map it_id ?items)"
    using select_published_distinct [OF assms] by (simp add: comp_def)
  note step = attach_eq [where ?items0.0 = ?items]
  show ?thesis
    unfolding loaded_items_def Let_def
    apply (subst step [OF ids refl], simp)
    apply (subst step, use ids in \<open>simp add: comp_def foldl_push\<close>, simp add: comp_def foldl_push, simp)
    apply (subst step, use ids in \<open>simp add: comp_def foldl_push\<close>, simp add: comp_def foldl_push, simp)
    apply (subst step, use ids in \<open>simp add: comp_def foldl_push\<close>, simp add: comp_def foldl_push, simp)
    apply (simp add: comp_def foldl_push load_one_def select_images_of select_tags_of select_sizes_of select_colors_of)
    done
qed

lemma load_published_items_no_fault: "\<exists>items c'. load_published_items (\<lambda>_. NoFault) c = (Inr items, c')"
  by (simp add: load_published_items_def dbm_simps Let_def)

text \<open>
  \<^bold>\<open>C19.\<close> With distinct item ids (the primary key), the five batched queries of
  \<open>load_published_items\<close> give exactly what one query per item would give: one item for
  every published row, in the order of the feed, with its images by sort order, its tags by
  slug, its sizes and its colours, and nothing of another item. The tables are not
  changed, and when sqlite does not fail the call returns.
\<close>

theorem load_published_items_correct:
  assumes "distinct (map ir_id (db_items (cn_db c)))"
  shows "(load_published_items faults c = (Inr items, c') \<longrightarrow>
      items = map (load_one (cn_db c)) (select_published (cn_db c)) \<and> cn_db c' = cn_db c) \<and>
    fst (load_published_items (\<lambda>_. NoFault) c) = Inr (map (load_one (cn_db c)) (select_published (cn_db c)))"
proof -
  from load_published_items_no_fault obtain its c1 where "load_published_items (\<lambda>_. NoFault) c = (Inr its, c1)"
    by blast
  with load_published_items_Inr loaded_items_eq [OF assms] show ?thesis by fastforce
qed

definition sample_row :: "int \<Rightarrow> string \<Rightarrow> item_row" where
  "sample_row i status = \<lparr> ir_id = i, ir_title = ''t'', ir_description = [], ir_brand = None, ir_price_kopek = 100,
     ir_old_price_kopek = None, ir_currency = ''RUB'', ir_partner_id = None, ir_product_url = ''u'',
     ir_campaign = None, ir_status = status, ir_score = of_int i, ir_source_channel = None, ir_created_at = 0,
     ir_updated_at = 0, ir_published_at = Some 7 \<rparr>"

definition stocked_database :: database where
  "stocked_database = empty_database\<lparr>
     db_items := [sample_row 1 ''published'', sample_row 2 ''draft'', sample_row 3 ''published''],
     db_tags := [\<lparr> tr_id = 1, tr_slug = ''zip'', tr_title = [] \<rparr>, \<lparr> tr_id = 2, tr_slug = ''coat'', tr_title = [] \<rparr>],
     db_item_tags := [\<lparr> xr_item_id = 3, xr_tag_id = 1 \<rparr>, \<lparr> xr_item_id = 1, xr_tag_id = 1 \<rparr>, \<lparr> xr_item_id = 3, xr_tag_id = 2 \<rparr>] \<rparr>"

theorem load_published_items_correct_witness:
  "\<exists>items. fst (load_published_items (\<lambda>_. NoFault) (new_conn stocked_database)) = Inr items \<and>
     map (\<lambda>it. (it_id it, it_tags it)) items = [(3, [''coat'', ''zip'']), (1, [''zip''])]"
proof -
  have "distinct (map ir_id (db_items (cn_db (new_conn stocked_database))))"
    by (simp add: new_conn_def stocked_database_def empty_database_def sample_row_def)
  from load_published_items_correct [OF this] show ?thesis
    by (simp add: new_conn_def stocked_database_def empty_database_def sample_row_def select_published_def
        stable_sort_def item_row_less_def load_one_def tags_of_def char_code_def)
qed

end
