(* ===== verification/Db_Worker.thy ===== *)
theory Db_Worker
  imports Config Catalog Events Db_Metrics Db_Load
begin

text \<open>
  The database thread: \<open>src/db_worker.hpp\<close> and \<open>src/db_worker.cpp\<close>. The worker owns the
  connection and shares the catalog handle and the two queues with the HTTP thread; its
  record holds all of them, and every method is a function on it, with the clock readings and
  the address of a newly allocated snapshot as arguments. Sleeping and logging are left out.
\<close>

section \<open>State\<close>

record worker =
  wk_conn :: "database conn"
  wk_catalog :: catalog_handle
  wk_events :: event_queue
  wk_conversions :: conversion_queue
  wk_next_refresh :: int
  wk_next_maintenance :: int

text \<open>A method that uses the connection and may throw.\<close>

type_synonym 'a work = "worker \<Rightarrow> (sql_error + 'a) \<times> worker"

definition on_conn :: "'a sql \<Rightarrow> 'a work" where
  "on_conn m w = (case m (wk_conn w) of (r, c) \<Rightarrow> (r, w\<lparr> wk_conn := c \<rparr>))"

text \<open>\<open>try { m } catch (std::exception const&) { log }\<close>\<close>

definition logged :: "unit work \<Rightarrow> worker \<Rightarrow> worker" where
  "logged m w = snd (m w)"

section \<open>The jobs\<close>

definition load_snapshot :: "faults \<Rightarrow> ts_ms \<Rightarrow> catalog sql" where
  "load_snapshot faults now =
     db_bind (load_published_items faults) (\<lambda>items.
     db_bind (list_partners faults) (\<lambda>partners.
       db_return (make_catalog now items partners)))"

definition refresh :: "faults \<Rightarrow> ts_ms \<Rightarrow> nat \<Rightarrow> unit work" where
  "refresh faults now addr w =
     (case on_conn (load_snapshot faults now) w of
        (Inl e, w1) \<Rightarrow> (Inl e, w1)
      | (Inr cat, w1) \<Rightarrow> (Inr (), w1\<lparr> wk_catalog := handle_set \<lparr> cp_addr = addr, cp_obj = cat \<rparr> (wk_catalog w1) \<rparr>))"

text \<open>\<open>refresh_now\<close> opens a connection of its own.\<close>

definition refresh_now :: "faults \<Rightarrow> ts_ms \<Rightarrow> nat \<Rightarrow> database \<Rightarrow> catalog_handle \<Rightarrow> sql_error + catalog_handle" where
  "refresh_now faults now addr d h =
     (case fst (with_conn faults d (load_snapshot faults now)) of
        Inl e \<Rightarrow> Inl e
      | Inr cat \<Rightarrow> Inr (handle_set \<lparr> cp_addr = addr, cp_obj = cat \<rparr> h))"

definition flush_events :: "faults \<Rightarrow> unit work" where
  "flush_events faults w =
     (case event_drain [] (wk_events w) of (batch, q) \<Rightarrow>
        let w1 = w\<lparr> wk_events := q \<rparr>
        in if batch = [] then (Inr (), w1) else on_conn (insert_events faults batch) w1)"

fun record_all :: "faults \<Rightarrow> conversion list \<Rightarrow> unit sql" where
  "record_all faults [] = db_return ()"
| "record_all faults (c # cs) = db_bind (record_conversion faults c) (\<lambda>matched. record_all faults cs)"

definition flush_conversions :: "faults \<Rightarrow> unit work" where
  "flush_conversions faults w =
     (case conversion_drain [] (wk_conversions w) of (batch, q) \<Rightarrow>
        on_conn (record_all faults batch) (w\<lparr> wk_conversions := q \<rparr>))"

text \<open>The body of the first \<open>try\<close>: conversions are skipped when writing the events threw.\<close>

definition flush :: "faults \<Rightarrow> unit work" where
  "flush faults w =
     (case flush_events faults w of
        (Inl e, w1) \<Rightarrow> (Inl e, w1)
      | (Inr u, w1) \<Rightarrow> flush_conversions faults w1)"

definition prune_cutoff :: "config \<Rightarrow> ts_ms \<Rightarrow> ts_ms" where
  "prune_cutoff cfg now = now - cfg_event_retention_days cfg * 86400000"

definition maintenance :: "faults \<Rightarrow> config \<Rightarrow> ts_ms \<Rightarrow> int sql" where
  "maintenance faults cfg now =
     (let today = now sdiv 86400000
      in db_bind (rollup_daily faults (today - 1) today) (\<lambda>_. prune_events faults (prune_cutoff cfg now)))"

section \<open>The loop\<close>

text \<open>
  One turn of the loop: the steady clock at its start (in milliseconds), the wall clock when
  a snapshot is built and when maintenance runs, and the address of a new snapshot.
\<close>

record tick =
  tk_loop_start :: int
  tk_built_at :: ts_ms
  tk_now :: ts_ms
  tk_addr :: nat

definition run_refresh :: "faults \<Rightarrow> config \<Rightarrow> tick \<Rightarrow> worker \<Rightarrow> worker" where
  "run_refresh faults cfg t w =
     (if wk_next_refresh w \<le> tk_loop_start t
      then (logged (refresh faults (tk_built_at t) (tk_addr t)) w)\<lparr>
             wk_next_refresh := tk_loop_start t + cfg_refresh_interval cfg * 1000 \<rparr>
      else w)"

definition run_maintenance :: "faults \<Rightarrow> config \<Rightarrow> tick \<Rightarrow> worker \<Rightarrow> worker" where
  "run_maintenance faults cfg t w =
     (if wk_next_maintenance w \<le> tk_loop_start t
      then (snd (on_conn (maintenance faults cfg (tk_now t)) w))\<lparr>
             wk_next_maintenance := tk_loop_start t + 3600000 \<rparr>
      else w)"

definition run_tick :: "faults \<Rightarrow> config \<Rightarrow> tick \<Rightarrow> worker \<Rightarrow> worker" where
  "run_tick faults cfg t w = run_maintenance faults cfg t (logged (flush faults) (run_refresh faults cfg t w))"

text \<open>The last flush after \<open>running_\<close> turned false: events only.\<close>

definition run_exit :: "faults \<Rightarrow> worker \<Rightarrow> worker" where
  "run_exit faults w = logged (flush_events faults) w"

definition run :: "faults \<Rightarrow> config \<Rightarrow> tick list \<Rightarrow> worker \<Rightarrow> worker" where
  "run faults cfg ticks w = run_exit faults (foldl (\<lambda>w t. run_tick faults cfg t w) w ticks)"

definition start_worker :: "database \<Rightarrow> int \<Rightarrow> catalog_handle \<Rightarrow> event_queue \<Rightarrow> conversion_queue \<Rightarrow> worker" where
  "start_worker d steady_now h ev cv = \<lparr> wk_conn = opened_conn d, wk_catalog = h, wk_events = ev, wk_conversions = cv,
     wk_next_refresh = steady_now, wk_next_maintenance = steady_now + 3600000 \<rparr>"

text \<open>
  \<open>DbWorker::start\<close> and \<open>stop\<close>: an atomic flag decides who starts and who joins the thread. The
  destructor calls \<open>stop\<close> again.
\<close>

record worker_thread =
  wt_running :: bool
  wt_threads :: nat

definition worker_start :: "worker_thread \<Rightarrow> worker_thread" where
  "worker_start t = (if wt_running t then t else t\<lparr> wt_running := True, wt_threads := wt_threads t + 1 \<rparr>)"

definition worker_stop :: "worker_thread \<Rightarrow> worker_thread" where
  "worker_stop t = (if \<not> wt_running t then t else t\<lparr> wt_running := False, wt_threads := 0 \<rparr>)"

section \<open>Snapshots\<close>

lemma load_snapshot_Inr:
  assumes "load_snapshot faults now c = (Inr cat, c')"
  shows "cat = make_catalog now (loaded_items (cn_db c)) (map partner_of_row (db_partners (cn_db c))) \<and> cn_db c' = cn_db c"
  using assms
  by (auto simp: load_snapshot_def db_bind_Inr db_return_def list_partners_def
      dest!: load_published_items_Inr stmt_read_Inr)

text \<open>What a snapshot of a database finds: the published rows and the partners.\<close>

lemma snapshot_finds:
  assumes "db_wf d" and cat: "cat = make_catalog now (loaded_items d) (map partner_of_row (db_partners d))"
  shows "cat_find cat i = Some it \<longleftrightarrow>
      (\<exists>row. row \<in> set (db_items d) \<and> ir_id row = i \<and> ir_status row = ''published'' \<and> it = load_one d row)"
    and "cat_partner cat j = Some p \<longleftrightarrow> (\<exists>row. row \<in> set (db_partners d) \<and> pr_id row = j \<and> p = partner_of_row row)"
proof -
  from assms(1) have dist: "distinct (map ir_id (db_items d))" "distinct (map pr_id (db_partners d))"
    by (simp_all add: db_wf_def items_wf_def)
  note items = loaded_items_eq [OF dist(1)]
  have ids: "map it_id (map (load_one d) rows) = map ir_id rows" for rows
    by (simp add: load_one_def)
  have pids: "map pt_id (map partner_of_row rows) = map pr_id rows" for rows
    by (simp add: partner_of_row_def)
  have "distinct (map it_id (loaded_items d))"
    unfolding items ids by (rule select_published_distinct [OF dist(1)])
  moreover have "distinct (map pt_id (map partner_of_row (db_partners d)))" unfolding pids by (rule dist(2))
  ultimately have look:
    "cat_find cat i = Some it \<longleftrightarrow> it \<in> set (loaded_items d) \<and> it_id it = i"
    "cat_partner cat j = Some p \<longleftrightarrow> p \<in> set (map partner_of_row (db_partners d)) \<and> pt_id p = j"
    unfolding cat by (simp_all only: catalog_lookup)
  have mem: "it \<in> set (loaded_items d) \<longleftrightarrow>
      (\<exists>row. row \<in> set (db_items d) \<and> ir_status row = ''published'' \<and> it = load_one d row)"
    unfolding items by (auto simp: select_published_def)
  from look(1) mem show "cat_find cat i = Some it \<longleftrightarrow>
      (\<exists>row. row \<in> set (db_items d) \<and> ir_id row = i \<and> ir_status row = ''published'' \<and> it = load_one d row)"
    by (auto simp: load_one_def)
  from look(2) show "cat_partner cat j = Some p \<longleftrightarrow> (\<exists>row. row \<in> set (db_partners d) \<and> pr_id row = j \<and> p = partner_of_row row)"
    by (auto simp: partner_of_row_def)
qed

text \<open>
  \<^bold>\<open>C13.\<close> A refresh replaces the snapshot or keeps it: when any query fails the handle still
  holds the previous snapshot (the site does not go dark), and when it succeeds the new one
  finds an item exactly for the ids of the rows with status \<open>published\<close>, filled with that
  item's own images, tags, sizes and colours, and a partner exactly for the partner rows. The
  queues are not touched.
\<close>

theorem refresh_publishes:
  assumes "refresh faults now addr w = (r, w')" and "db_wf (cn_db (wk_conn w))"
  shows "wk_events w' = wk_events w \<and> wk_conversions w' = wk_conversions w \<and>
    (case r of
       Inl e \<Rightarrow> wk_catalog w' = wk_catalog w
     | Inr u \<Rightarrow>
         (let d = cn_db (wk_conn w); cat = cp_obj (handle_get (wk_catalog w'))
          in catalog_wf cat \<and>
             (cat_find cat i = Some it \<longleftrightarrow>
                (\<exists>row. row \<in> set (db_items d) \<and> ir_id row = i \<and> ir_status row = ''published'' \<and> it = load_one d row)) \<and>
             (cat_partner cat j = Some p \<longleftrightarrow> (\<exists>row. row \<in> set (db_partners d) \<and> pr_id row = j \<and> p = partner_of_row row))))"
proof (cases "load_snapshot faults now (wk_conn w)")
  case (Pair r1 c1)
  show ?thesis
  proof (cases r1)
    case (Inl e)
    with assms(1) Pair show ?thesis by (auto simp: refresh_def on_conn_def)
  next
    case (Inr cat)
    let ?d = "cn_db (wk_conn w)"
    from load_snapshot_Inr Pair Inr have cat: "cat = make_catalog now (loaded_items ?d) (map partner_of_row (db_partners ?d))"
      by blast
    from assms(1) Pair Inr have w': "w' = w\<lparr> wk_conn := c1, wk_catalog := handle_set \<lparr> cp_addr = addr, cp_obj = cat \<rparr> (wk_catalog w) \<rparr>"
      "r = Inr ()" by (auto simp: refresh_def on_conn_def)
    show ?thesis
      using snapshot_finds [OF assms(2) cat]
      by (auto simp: w' Let_def handle_get_def handle_set_def cat make_catalog_wf)
  qed
qed

lemma stocked_database_wf: "db_wf stocked_database"
  by (simp add: stocked_database_def empty_database_def sample_row_def db_wf_def items_wf_def children_wf_def
      events_wf_def conversions_wf_def stats_wf_def present_def)

definition sample_worker :: "database \<Rightarrow> worker" where
  "sample_worker d = start_worker d 0 \<lparr> ch_ptr = \<lparr> cp_addr = 0, cp_obj = empty_catalog \<rparr> \<rparr> (new_event_queue 10) new_conversion_queue"

theorem refresh_publishes_witness:
  "\<exists>w'. refresh (\<lambda>_. NoFault) 0 1 (sample_worker stocked_database) = (Inr (), w') \<and>
     cat_find (cp_obj (handle_get (wk_catalog w'))) 1 \<noteq> None \<and> cat_find (cp_obj (handle_get (wk_catalog w'))) 2 = None"
proof -
  let ?w = "sample_worker stocked_database"
  obtain r w' where run: "refresh (\<lambda>_. NoFault) 0 1 ?w = (r, w')" by fastforce
  have d: "cn_db (wk_conn ?w) = stocked_database" by (simp add: sample_worker_def start_worker_def opened_conn_def)
  have wf: "db_wf (cn_db (wk_conn ?w))" unfolding d by (rule stocked_database_wf)
  have ok: "r = Inr ()"
    using run by (auto simp: refresh_def on_conn_def load_snapshot_def load_published_items_def list_partners_def
        dbm_simps Let_def)
  note found = refresh_publishes [OF run wf, unfolded d ok]
  have rows: "db_items stocked_database = [sample_row 1 ''published'', sample_row 2 ''draft'', sample_row 3 ''published'']"
    by (simp add: stocked_database_def)
  have fields: "ir_id (sample_row i st) = i" "ir_status (sample_row i st) = st" for i st
    by (simp_all add: sample_row_def)
  have "\<exists>row. row \<in> set (db_items stocked_database) \<and> ir_id row = 1 \<and> ir_status row = ''published'' \<and>
      load_one stocked_database (sample_row 1 ''published'') = load_one stocked_database row"
    by (rule exI [of _ "sample_row 1 ''published''"]) (simp add: rows fields)
  then have "cat_find (cp_obj (handle_get (wk_catalog w'))) 1 = Some (load_one stocked_database (sample_row 1 ''published''))"
    using found [of 1 "load_one stocked_database (sample_row 1 ''published'')"] by (simp add: Let_def)
  moreover have "cat_find (cp_obj (handle_get (wk_catalog w'))) 2 \<noteq> Some it" for it
    using found [of 2 it] by (auto simp: Let_def rows fields)
  ultimately show ?thesis using run ok by (cases "cat_find (cp_obj (handle_get (wk_catalog w'))) 2") auto
qed

section \<open>Flushing\<close>

definition record_one :: "database \<Rightarrow> conversion \<Rightarrow> database" where
  "record_one d c =
     (if token_known d (cv_click_token c) then (case upsert_conversion_stmt c d of Inr (u, d') \<Rightarrow> d' | Inl e \<Rightarrow> d) else d)"

lemma record_conversion_no_fault:
  assumes "\<And>n. faults n = NoFault" and "conversion_status_ok (cv_status c)"
  shows "\<exists>m c'. record_conversion faults c conn = (Inr m, c') \<and> cn_db c' = record_one (cn_db conn) c \<and>
    cn_saved c' = cn_saved conn"
  using assms
  by (auto simp: record_conversion_def dbm_simps record_one_def upsert_conversion_stmt_def Let_def split: sum.splits)

lemma record_all_no_fault:
  assumes "\<And>n. faults n = NoFault" and "list_all (\<lambda>c. conversion_status_ok (cv_status c)) cs"
  shows "\<exists>c'. record_all faults cs conn = (Inr (), c') \<and> cn_db c' = foldl record_one (cn_db conn) cs \<and>
    cn_saved c' = cn_saved conn"
  using assms(2)
proof (induction cs arbitrary: conn)
  case (Cons c cs)
  from record_conversion_no_fault [where faults = faults and c = c and conn = conn, OF assms(1)] Cons.prems obtain m c1 where
    "record_conversion faults c conn = (Inr m, c1)" "cn_db c1 = record_one (cn_db conn) c" "cn_saved c1 = cn_saved conn"
    by auto
  with Cons.IH [of c1] Cons.prems show ?case by (auto simp: db_bind_def)
qed (simp add: db_return_def)

lemma record_one_facts:
  "token_known (record_one d c) t = token_known d t"
  "order_rows ref d \<noteq> [] \<Longrightarrow> order_rows ref (record_one d c) \<noteq> []"
proof -
  consider "record_one d c = d" | d' where "upsert_conversion_stmt c d = Inr ((), d')" "record_one d c = d'"
    by (cases "upsert_conversion_stmt c d"; cases "token_known d (cv_click_token c)") (auto simp: record_one_def)
  then have "token_known (record_one d c) t = token_known d t \<and> (order_rows ref d \<noteq> [] \<longrightarrow> order_rows ref (record_one d c) \<noteq> [])"
  proof cases
    case (2 d')
    from 2(1) show ?thesis
      by (cases rule: upsert_conversion_cases) (auto simp: 2(2) token_known_def order_rows_def filter_empty_conv)
  qed simp
  then show "token_known (record_one d c) t = token_known d t"
    "order_rows ref d \<noteq> [] \<Longrightarrow> order_rows ref (record_one d c) \<noteq> []" by simp_all
qed

lemma record_one_records:
  assumes "token_known d (cv_click_token c)" and "conversion_status_ok (cv_status c)" and "cv_order_ref c \<noteq> []"
  shows "order_rows (cv_order_ref c) (record_one d c) \<noteq> []"
proof -
  have "\<exists>d'. upsert_conversion_stmt c d = Inr ((), d')"
    using assms(2) by (auto simp: upsert_conversion_stmt_def)
  then obtain d' where d': "upsert_conversion_stmt c d = Inr ((), d')" by blast
  then have "order_rows (cv_order_ref c) d' \<noteq> []"
    by (cases rule: upsert_conversion_cases)
      (use assms(3) in \<open>auto simp: order_rows_def filter_empty_conv image_iff\<close>)
  with d' assms(1) show ?thesis by (simp add: record_one_def)
qed

lemma foldl_record_one:
  assumes "list_all (\<lambda>c. conversion_status_ok (cv_status c)) cs"
  shows "token_known (foldl record_one d cs) t = token_known d t"
    and "order_rows ref d \<noteq> [] \<Longrightarrow> order_rows ref (foldl record_one d cs) \<noteq> []"
    and "list_all (\<lambda>c. token_known d (cv_click_token c) \<and> cv_order_ref c \<noteq> [] \<longrightarrow>
      order_rows (cv_order_ref c) (foldl record_one d cs) \<noteq> []) cs"
proof -
  have keep: "token_known (foldl record_one d cs) t = token_known d t \<and>
      (order_rows ref d \<noteq> [] \<longrightarrow> order_rows ref (foldl record_one d cs) \<noteq> [])" for d t ref cs
    by (induction cs arbitrary: d) (simp_all add: record_one_facts)
  then show "token_known (foldl record_one d cs) t = token_known d t"
    "order_rows ref d \<noteq> [] \<Longrightarrow> order_rows ref (foldl record_one d cs) \<noteq> []" by simp_all
  show "list_all (\<lambda>c. token_known d (cv_click_token c) \<and> cv_order_ref c \<noteq> [] \<longrightarrow>
      order_rows (cv_order_ref c) (foldl record_one d cs) \<noteq> []) cs"
    using assms
  proof (induction cs arbitrary: d)
    case (Cons c cs)
    from Cons.IH [of "record_one d c"] Cons.prems show ?case
      using record_one_records [of d c] keep [where d = "record_one d c" and ref = "cv_order_ref c" and cs = cs]
      by (auto simp: record_one_facts list_all_iff)
  qed simp
qed

lemma append_events_tokens:
  "token_known (append_events batch d) t \<longleftrightarrow> token_known d t \<or> t \<in> set (batch_tokens batch)"
proof (induction batch arbitrary: d)
  case (Cons ev batch)
  then show ?case by (auto simp: token_known_snoc batch_tokens_def)
qed (simp add: batch_tokens_def)

lemma flush_events_no_fault:
  assumes "\<And>n. faults n = NoFault" and "cn_saved (wk_conn w) = None"
    and "distinct (batch_tokens (eq_pending (wk_events w)))"
    and "\<And>t. t \<in> set (batch_tokens (eq_pending (wk_events w))) \<Longrightarrow> \<not> token_known (cn_db (wk_conn w)) t"
  shows "\<exists>w'. flush_events faults w = (Inr (), w') \<and>
    cn_db (wk_conn w') = append_events (eq_pending (wk_events w)) (cn_db (wk_conn w)) \<and> cn_saved (wk_conn w') = None \<and>
    eq_pending (wk_events w') = [] \<and> wk_conversions w' = wk_conversions w"
proof (cases "eq_pending (wk_events w) = []")
  case True
  then show ?thesis using assms(2) by (simp add: flush_events_def event_drain_def Let_def)
next
  case False
  let ?batch = "eq_pending (wk_events w)"
  let ?c1 = "(wk_conn w)\<lparr> cn_calls := Suc (cn_calls (wk_conn w)), cn_saved := Some (cn_db (wk_conn w)) \<rparr>"
  from insert_event_rows_succeeds [where faults = faults and batch = ?batch and c = ?c1, OF assms(1,3)] assms(4)
  obtain c2 where c2: "insert_event_rows faults ?batch ?c1 = (Inr (), c2)" "cn_saved c2 = Some (cn_db (wk_conn w))"
    by auto
  from insert_event_rows_result [OF c2(1)] have "cn_db c2 = append_events ?batch (cn_db (wk_conn w))" by simp
  with False c2 assms(1,2) show ?thesis
    by (simp add: flush_events_def event_drain_def Let_def on_conn_def insert_events_def in_transaction_def dbm_simps)
qed

text \<open>
  \<^bold>\<open>C11.\<close> A flush writes everything that was queued, clicks before conversions. On a healthy
  database, with fresh click tokens and statuses the schema accepts (postbacks are checked
  before they are queued), it returns, both queues are empty, the event table is the old one
  with the whole batch appended, and the conversions were recorded one after the other on
  top of it. So a postback for a click that was still waiting in the queue is not lost:
  every pending conversion with an order reference whose click is in the batch or in the
  table has its row afterwards.
\<close>

theorem flush_writes_clicks_first:
  assumes "\<And>n. faults n = NoFault" and "cn_saved (wk_conn w) = None"
    and "distinct (batch_tokens (eq_pending (wk_events w)))"
    and "\<And>t. t \<in> set (batch_tokens (eq_pending (wk_events w))) \<Longrightarrow> \<not> token_known (cn_db (wk_conn w)) t"
    and "list_all (\<lambda>c. conversion_status_ok (cv_status c)) (cq_pending (wk_conversions w))"
  shows "\<exists>w'. flush faults w = (Inr (), w') \<and> eq_pending (wk_events w') = [] \<and> cq_pending (wk_conversions w') = [] \<and>
    cn_db (wk_conn w') = foldl record_one (append_events (eq_pending (wk_events w)) (cn_db (wk_conn w)))
      (cq_pending (wk_conversions w)) \<and>
    list_all (\<lambda>c. (cv_click_token c \<in> set (batch_tokens (eq_pending (wk_events w))) \<or>
        token_known (cn_db (wk_conn w)) (cv_click_token c)) \<and> cv_order_ref c \<noteq> [] \<longrightarrow>
        order_rows (cv_order_ref c) (cn_db (wk_conn w')) \<noteq> []) (cq_pending (wk_conversions w))"
proof -
  let ?batch = "eq_pending (wk_events w)" and ?convs = "cq_pending (wk_conversions w)" and ?d = "cn_db (wk_conn w)"
  from flush_events_no_fault [where faults = faults and w = w, OF assms(1-4)] obtain w1 where w1: "flush_events faults w = (Inr (), w1)"
    "cn_db (wk_conn w1) = append_events ?batch ?d" "eq_pending (wk_events w1) = []" "wk_conversions w1 = wk_conversions w"
    by blast
  from record_all_no_fault [where faults = faults and conn = "wk_conn w1", OF assms(1,5)] obtain c2 where
    c2: "record_all faults ?convs (wk_conn w1) = (Inr (), c2)" "cn_db c2 = foldl record_one (cn_db (wk_conn w1)) ?convs"
    by blast
  have "list_all (\<lambda>c. (cv_click_token c \<in> set (batch_tokens ?batch) \<or> token_known ?d (cv_click_token c)) \<and>
      cv_order_ref c \<noteq> [] \<longrightarrow> order_rows (cv_order_ref c) (foldl record_one (append_events ?batch ?d) ?convs) \<noteq> []) ?convs"
    using foldl_record_one(3) [OF assms(5), of "append_events ?batch ?d"]
    by (simp add: append_events_tokens list_all_iff) blast
  with w1 c2 show ?thesis
    by (simp add: flush_def flush_conversions_def conversion_drain_def on_conn_def Let_def)
qed

theorem flush_writes_clicks_first_witness:
  "\<exists>w'. flush (\<lambda>_. NoFault) ((sample_worker empty_database)\<lparr>
       wk_events := (new_event_queue 10)\<lparr> eq_pending := [event_default\<lparr> ev_click_token := ''TESTTOKEN123'' \<rparr>] \<rparr>,
       wk_conversions := \<lparr> cq_pending = [sample_postback] \<rparr> \<rparr>) = (Inr (), w') \<and>
     order_rows ''A1'' (cn_db (wk_conn w')) \<noteq> []"
proof -
  let ?w = "(sample_worker empty_database)\<lparr>
       wk_events := (new_event_queue 10)\<lparr> eq_pending := [event_default\<lparr> ev_click_token := ''TESTTOKEN123'' \<rparr>] \<rparr>,
       wk_conversions := \<lparr> cq_pending = [sample_postback] \<rparr> \<rparr>"
  have pre: "cn_saved (wk_conn ?w) = None" "distinct (batch_tokens (eq_pending (wk_events ?w)))"
    "t \<in> set (batch_tokens (eq_pending (wk_events ?w))) \<Longrightarrow> \<not> token_known (cn_db (wk_conn ?w)) t"
    "list_all (\<lambda>c. conversion_status_ok (cv_status c)) (cq_pending (wk_conversions ?w))" for t
    by (simp_all add: sample_worker_def start_worker_def opened_conn_def batch_tokens_def event_default_def
        token_known_def empty_database_def sample_postback_def conversion_status_ok_def conversion_default_def)
  from flush_writes_clicks_first [where faults = "\<lambda>_. NoFault" and w = ?w, OF refl pre]
  show ?thesis by (auto simp: batch_tokens_def event_default_def sample_postback_def conversion_default_def)
qed

section \<open>What a failed or final flush leaves behind\<close>

text \<open>The queue is drained before the batch is written: when the write fails the batch is gone.\<close>

lemma flush_events_failure_loses_batch:
  assumes "flush_events faults w = (Inl e, w')" and "cn_saved (wk_conn w) = None"
  shows "eq_pending (wk_events w') = [] \<and> committed (wk_conn w') = cn_db (wk_conn w)"
proof -
  let ?batch = "eq_pending (wk_events w)"
  from assms(1) have ne: "?batch \<noteq> []" and w': "eq_pending (wk_events w') = []"
    and run: "insert_events faults ?batch (wk_conn w) = (Inl e, wk_conn w')"
    by (auto simp: flush_events_def event_drain_def Let_def on_conn_def split: if_splits prod.splits)
  from run ne have "in_transaction faults (insert_event_rows faults ?batch) (wk_conn w) = (Inl e, wk_conn w')"
    by (simp add: insert_events_def)
  from event_batch.atomic [OF this assms(2)] w' show ?thesis by auto
qed

text \<open>The last flush does not look at the conversion queue: postbacks acknowledged with 200 can be lost.\<close>

lemma shutdown_leaves_conversions: "wk_conversions (run_exit faults w) = wk_conversions w"
  by (simp add: run_exit_def logged_def flush_events_def event_drain_def Let_def on_conn_def split: prod.split)

section \<open>Maintenance\<close>

lemma event_day_positive:
  assumes "1 \<le> event_day r"
  shows "0 < er_ts r" "event_day r = er_ts r div 86400000"
proof -
  show pos: "0 < er_ts r"
  proof (rule ccontr)
    assume "\<not> 0 < er_ts r"
    then have "event_day r \<le> 0"
      by (auto simp: event_day_def ms_per_day_def signed_divide_int_def sgn_if mult_le_0_iff not_less)
    with assms show False by simp
  qed
  then show "event_day r = er_ts r div 86400000"
    by (simp add: event_day_def ms_per_day_def signed_divide_int_def sgn_if)
qed

lemma div_bounds:
  fixes x :: int
  assumes "0 < n"
  shows "x div n * n \<le> x" "x < (x div n + 1) * n"
  using div_mult_mod_eq [of x n] pos_mod_bound [OF assms, of x] pos_mod_sign [OF assms, of x]
  by (linarith, simp only: distrib_right mult_1)

text \<open>With two days of retention or more, nothing the rollup may still count is pruned.\<close>

lemma recent_events_kept:
  assumes "2 \<le> cfg_event_retention_days cfg" and "172800000 \<le> now" and "now div 86400000 - 1 \<le> event_day r"
  shows "prune_cutoff cfg now \<le> er_ts r"
proof -
  have "2 \<le> now div 86400000" using zdiv_mono1 [OF assms(2), of 86400000] by simp
  with assms(3) have "1 \<le> event_day r" by linarith
  note day = event_day_positive [OF this]
  have "now div 86400000 - 1 \<le> er_ts r div 86400000" using assms(3) day(2) by simp
  moreover have "now < (now div 86400000 + 1) * 86400000" "er_ts r div 86400000 * 86400000 \<le> er_ts r"
    using div_bounds [of 86400000 now] div_bounds [of 86400000 "er_ts r"] by simp_all
  ultimately have "now - 172800000 \<le> er_ts r" by linarith
  moreover have "2 * 86400000 \<le> cfg_event_retention_days cfg * 86400000" using assms(1) by simp
  ultimately show ?thesis by (simp add: prune_cutoff_def)
qed

lemma maintenance_Inr:
  assumes "maintenance faults cfg now c = (Inr removed, c')" and "0 \<le> now"
  shows "cn_db c' = snd (prune_stmt (prune_cutoff cfg now) (rollup_stmt (now div 86400000 - 1) (now div 86400000) (cn_db c)))"
proof -
  have "now sdiv 86400000 = now div 86400000" using assms(2) by (simp add: signed_divide_int_def sgn_if)
  with assms(1) show ?thesis
    by (auto simp: maintenance_def Let_def db_bind_Inr rollup_daily_def prune_events_def elim!: stmt_step_cases)
qed

lemma human_events_cong: "db_events d' = db_events d \<Longrightarrow> human_events d' day i = human_events d day i"
  by (simp add: human_events_def)

lemma rollup_stmt_depends:
  assumes "\<And>day i. a \<le> day \<Longrightarrow> human_events d' day i = human_events d day i"
    and "rollup_keys a b (db_events d') = rollup_keys a b (db_events d)"
  shows "rollup_rows a b (db_events d') = rollup_rows a b (db_events d)"
  unfolding rollup_rows_eq assms(2) using assms(1)
  by (auto simp: rollup_keys_iff intro!: map_cong)

text \<open>
  \<^bold>\<open>C16.\<close> Maintenance keeps the daily statistics exact. With at least two days of retention
  (the default is 90), a run at any time after the first days of 1970 leaves the statistics
  of today and yesterday at the counts of all their human events, removes exactly the events
  older than the cutoff, and removes no event of today or yesterday: the next hourly run
  recomputes the same numbers.
\<close>

theorem maintenance_keeps_statistics:
  assumes "maintenance faults cfg now c = (Inr removed, c')" and "2 \<le> cfg_event_retention_days cfg"
    and "172800000 \<le> now" and today: "today = now div 86400000"
  shows "db_events (cn_db c') = filter (\<lambda>r. prune_cutoff cfg now \<le> er_ts r) (db_events (cn_db c)) \<and>
    db_stats (cn_db c') = db_stats (rollup_stmt (today - 1) today (cn_db c)) \<and>
    (today - 1 \<le> day \<longrightarrow> human_events (cn_db c') day i = human_events (cn_db c) day i) \<and>
    rollup_stmt (today - 1) today (cn_db c') = cn_db c'"
proof -
  let ?d = "cn_db c" and ?d' = "cn_db c'" and ?r = "rollup_stmt (today - 1) today (cn_db c)"
  have d': "?d' = snd (prune_stmt (prune_cutoff cfg now) ?r)"
    unfolding today by (rule maintenance_Inr [OF assms(1)]) (use assms(3) in simp)
  have evs: "db_events ?d' = filter (\<lambda>r. prune_cutoff cfg now \<le> er_ts r) (db_events ?d)"
    by (simp add: d' prune_stmt_def rollup_stmt_def not_less)
  have stats: "db_stats ?d' = db_stats ?r" by (simp add: d' prune_stmt_def)
  have kept: "prune_cutoff cfg now \<le> er_ts r" if "today - 1 \<le> event_day r" for r
    using recent_events_kept [OF assms(2,3)] that by (simp add: today)
  have human: "human_events ?d' day i = human_events ?d day i" if "today - 1 \<le> day" for day i
    unfolding human_events_def evs filter_filter using kept that by (intro filter_cong) auto
  have "filter (rollup_selects (today - 1) today) (db_events ?d') = filter (rollup_selects (today - 1) today) (db_events ?d)"
    unfolding evs filter_filter using kept by (intro filter_cong) (auto simp: rollup_selects_def)
  then have "rollup_rows (today - 1) today (db_events ?d') = rollup_rows (today - 1) today (db_events ?d)"
    using human by (intro rollup_stmt_depends) (simp_all add: rollup_keys_def)
  then have "db_stats (rollup_stmt (today - 1) today ?d') = foldl upsert_stat (db_stats ?r) (rollup_rows (today - 1) today (db_events ?d))"
    by (simp add: rollup_stmt_def stats)
  also have "\<dots> = db_stats (rollup_stmt (today - 1) today ?r)" by (simp add: rollup_stmt_def)
  also have "\<dots> = db_stats ?r" by (simp only: rollup_idempotent)
  finally have "db_stats (rollup_stmt (today - 1) today ?d') = db_stats ?d'" using stats by simp
  then have "rollup_stmt (today - 1) today ?d' = ?d'" by (simp add: rollup_stmt_def)
  with evs stats human show ?thesis by blast
qed

definition click_at :: "ts_ms \<Rightarrow> event" where
  "click_at t = event_default\<lparr> ev_ts := t, ev_type := Outbound, ev_item_id := Some 7, ev_ua_class := ''desktop'' \<rparr>"

text \<open>Two clicks on the ninth day, at one o'clock and at twenty o'clock.\<close>

definition two_clicks :: database where
  "two_clicks = append_events [click_at 781200000, click_at 849600000] empty_database"

lemma maintenance_no_fault: "\<exists>removed c'. maintenance (\<lambda>_. NoFault) cfg now c = (Inr removed, c')"
  by (simp add: maintenance_def dbm_simps rollup_daily_def prune_events_def Let_def split: prod.split)

theorem maintenance_keeps_statistics_witness:
  "\<exists>removed c'. maintenance (\<lambda>_. NoFault) config_default 907200000 (new_conn two_clicks) = (Inr removed, c') \<and>
     human_events (cn_db c') 9 7 = human_events two_clicks 9 7 \<and> rollup_stmt 9 10 (cn_db c') = cn_db c'"
proof -
  obtain removed c' where run: "maintenance (\<lambda>_. NoFault) config_default 907200000 (new_conn two_clicks) = (Inr removed, c')"
    using maintenance_no_fault by blast
  have "2 \<le> cfg_event_retention_days config_default" by (simp add: config_default_def)
  from maintenance_keeps_statistics [OF run this _ refl, of 9 7] run show ?thesis by (simp add: new_conn_def)
qed

text \<open>
  With one day of retention, which the configuration accepts, the statistics of yesterday
  shrink: the first run counts both clicks, prunes the earlier one, and the next hourly run
  overwrites the count with what is left.
\<close>

lemma event_day_of_row: "event_day (event_row_of k (click_at t)) = t sdiv 86400000"
  by (simp add: event_day_def event_row_of_def click_at_def ms_per_day_def)

lemma short_retention_undercounts:
  assumes cfg: "cfg = config_default\<lparr> cfg_event_retention_days := 1 \<rparr>"
    and one: "maintenance (\<lambda>_. NoFault) cfg 907200000 (new_conn two_clicks) = (Inr m, c1)"
    and two: "maintenance (\<lambda>_. NoFault) cfg 910800000 c1 = (Inr n, c2)"
  shows "map_option sr_outbounds (find_stat (db_stats (cn_db c1)) (9, 7)) = Some 2 \<and>
    map_option sr_outbounds (find_stat (db_stats (cn_db c2)) (9, 7)) = Some 1"
proof -
  let ?row = "\<lambda>k t. event_row_of k (click_at t)"
  have evs0: "db_events two_clicks = [?row 1 781200000, ?row 2 849600000]"
    by (simp add: two_clicks_def empty_database_def next_rowid_def event_row_of_def)
  have human0: "human_events two_clicks 9 7 = db_events two_clicks"
    by (simp add: human_events_def evs0 event_day_of_row) (simp add: event_row_of_def click_at_def)
  have d1: "cn_db c1 = snd (prune_stmt 820800000 (rollup_stmt 9 10 two_clicks))"
    using maintenance_Inr [OF one] by (simp add: cfg prune_cutoff_def new_conn_def)
  have evs1: "db_events (cn_db c1) = [?row 2 849600000]"
    by (simp add: d1 prune_stmt_def rollup_stmt_def evs0) (simp add: event_row_of_def click_at_def)
  have human1: "human_events (cn_db c1) 9 7 = db_events (cn_db c1)"
    by (simp add: human_events_def evs1 event_day_of_row) (simp add: event_row_of_def click_at_def)
  have d2: "cn_db c2 = snd (prune_stmt 824400000 (rollup_stmt 9 10 (cn_db c1)))"
    using maintenance_Inr [OF two] by (simp add: cfg prune_cutoff_def)
  have "map_option sr_outbounds (find_stat (db_stats (cn_db c1)) (9, 7)) = Some 2"
    by (simp add: d1 prune_stmt_def find_stat_rollup human0 evs0 stat_of_group_def count_type_def)
       (simp add: event_row_of_def click_at_def)
  moreover have "map_option sr_outbounds (find_stat (db_stats (cn_db c2)) (9, 7)) = Some 1"
    by (simp add: d2 prune_stmt_def find_stat_rollup human1 evs1 stat_of_group_def count_type_def)
       (simp add: event_row_of_def click_at_def)
  ultimately show ?thesis by simp
qed

end
