(* ===== verification/Templating.thy ===== *)
theory Templating
  imports Prelude "HOL-Library.List_Lexorder" "HOL-Library.Char_ord"
begin

text \<open>
  JSON values as the handlers build and read them, and the template store of
  \<open>src/templating.hpp\<close> and \<open>src/templating.cpp\<close>. The directory listing is an argument;
  the template engine is a library, so parsing a file and rendering a parsed template are
  the parameters \<open>parse_template\<close> and \<open>env_render\<close>, \<open>None\<close> standing for an
  exception.
\<close>

section \<open>JSON values\<close>

text \<open>
  \<open>nlohmann::json\<close>: an object is a \<open>std::map\<close>, so its members are kept sorted by name.
  \<open>JFloat\<close> stands for the numbers that are no integers, which the sources never look into.
\<close>

datatype json = JNull | JBool bool | JInt int | JFloat | JString string | JArray "json list"
  | JObject "(string \<times> json) list"

text \<open>\<open>j[key] = v\<close>\<close>

fun member_set :: "string \<Rightarrow> json \<Rightarrow> (string \<times> json) list \<Rightarrow> (string \<times> json) list" where
  "member_set k v [] = [(k, v)]"
| "member_set k v ((k', v') # ms) =
     (if k = k' then (k, v) # ms else if k < k' then (k, v) # (k', v') # ms else (k', v') # member_set k v ms)"

fun json_set :: "string \<Rightarrow> json \<Rightarrow> json \<Rightarrow> json" where
  "json_set k v (JObject ms) = JObject (member_set k v ms)"
| "json_set k v other = JObject [(k, v)]"

fun json_get :: "json \<Rightarrow> string \<Rightarrow> json option" where
  "json_get (JObject ms) k = map_of ms k"
| "json_get other k = None"

definition json_object :: "(string \<times> json) list \<Rightarrow> json" where
  "json_object kvs = foldl (\<lambda>j (k, v). json_set k v j) JNull kvs"

section \<open>The template store\<close>

datatype template_error = DirectoryMissing | ParseFailed string | NoSuchTemplate string | RenderFailed

record dir_entry =
  de_name :: string
  de_regular :: bool
  de_extension :: string

record 't templating =
  tp_cache :: "string \<rightharpoonup> 't"

fun load_templates ::
  "(string \<Rightarrow> 't option) \<Rightarrow> dir_entry list \<Rightarrow> (string \<rightharpoonup> 't) \<Rightarrow> template_error + (string \<rightharpoonup> 't)" where
  "load_templates parse_template [] cache = Inr cache"
| "load_templates parse_template (e # es) cache =
     (if \<not> de_regular e \<or> de_extension e \<noteq> ''.html'' then load_templates parse_template es cache
      else case parse_template (de_name e) of
             None \<Rightarrow> Inl (ParseFailed (de_name e))
           | Some t \<Rightarrow> load_templates parse_template es (emplace cache (de_name e) t))"

text \<open>The directory is \<open>None\<close> when \<open>is_directory\<close> is false.\<close>

definition new_templating ::
  "(string \<Rightarrow> 't option) \<Rightarrow> dir_entry list option \<Rightarrow> template_error + 't templating" where
  "new_templating parse_template dir =
     (case dir of
        None \<Rightarrow> Inl DirectoryMissing
      | Some entries \<Rightarrow> sum_bind (load_templates parse_template entries Map.empty) (\<lambda>c. Inr \<lparr> tp_cache = c \<rparr>))"

definition tpl_render ::
  "('t \<Rightarrow> json \<Rightarrow> string option) \<Rightarrow> 't templating \<Rightarrow> string \<Rightarrow> json \<Rightarrow> template_error + string" where
  "tpl_render env_render tpl name data =
     (case tp_cache tpl name of
        None \<Rightarrow> Inl (NoSuchTemplate name)
      | Some t \<Rightarrow> (case env_render t data of None \<Rightarrow> Inl RenderFailed | Some html \<Rightarrow> Inr html))"

section \<open>Lemmas on JSON values\<close>

lemma map_of_member_set: "map_of (member_set k v ms) k' = (if k' = k then Some v else map_of ms k')"
  by (induction ms) auto

lemma json_get_set:
  "json_get (json_set k v j) k' = (if k' = k then Some v else json_get j k')"
  by (cases j) (auto simp: map_of_member_set)

lemma json_get_object: "json_get (json_object kvs) k = map_of (rev kvs) k"
proof (induction kvs rule: rev_induct)
  case (snoc kv kvs)
  then show ?case by (cases kv) (simp add: json_object_def json_get_set)
qed (simp add: json_object_def)

section \<open>Properties of the store\<close>

definition is_template :: "dir_entry \<Rightarrow> bool" where
  "is_template e \<longleftrightarrow> de_regular e \<and> de_extension e = ''.html''"

lemma load_templates_Inr:
  "load_templates parse_template es cache = Inr cache' \<longleftrightarrow>
     (\<forall>e \<in> set es. is_template e \<longrightarrow> parse_template (de_name e) \<noteq> None) \<and>
     cache' = (\<lambda>n. if cache n \<noteq> None then cache n
                   else if n \<in> de_name ` set (filter is_template es) then parse_template n else None)"
proof (induction es arbitrary: cache)
  case (Cons e es)
  show ?case
  proof (cases "is_template e")
    case False
    with Cons show ?thesis by (auto simp: is_template_def)
  next
    case True
    then show ?thesis
      by (cases "parse_template (de_name e)")
        (auto simp: is_template_def Cons.IH emplace_def fun_eq_iff)
  qed
next
  case Nil
  have "(\<lambda>n. if cache n \<noteq> None then cache n else None) = cache" by auto
  then show ?case by auto
qed

text \<open>
  The store is complete or the program does not start: construction succeeds
  exactly when the directory exists and every regular \<open>.html\<close> file in it parses, and the
  store then holds the parse of exactly those files, so \<open>render\<close> reports a missing
  template only for a name that no such file has.
\<close>

theorem templating_complete:
  "new_templating parse_template dir = Inr tpl \<longleftrightarrow>
     (\<exists>entries. dir = Some entries \<and>
        (\<forall>e. e \<in> set entries \<and> is_template e \<longrightarrow> parse_template (de_name e) \<noteq> None) \<and>
        tpl = \<lparr> tp_cache = (\<lambda>n. if n \<in> de_name ` set (filter is_template entries) then parse_template n else None) \<rparr>)"
  by (auto simp: new_templating_def sum_bind_Inr load_templates_Inr split: option.splits)

theorem templating_complete_witness:
  "new_templating (\<lambda>n. if n = ''feed.html'' then Some (7 :: nat) else None)
     (Some [\<lparr> de_name = ''feed.html'', de_regular = True, de_extension = ''.html'' \<rparr>,
            \<lparr> de_name = ''notes.txt'', de_regular = True, de_extension = ''.txt'' \<rparr>]) =
   Inr \<lparr> tp_cache = (\<lambda>n. if n = ''feed.html'' then Some 7 else None) \<rparr>"
  by (subst templating_complete) (auto simp: is_template_def fun_eq_iff simp del: set_filter)

end
