(* ===== verification/Links.thy ===== *)
theory Links
  imports Models
begin

text \<open>
  Outbound links: \<open>src/links.hpp\<close> and \<open>src/links.cpp\<close>. The random bytes of
  \<open>make_click_token\<close> come from libsodium's \<open>randombytes_buf\<close> and are an argument.
\<close>

section \<open>Percent-encoding\<close>

definition kBase62 :: string where
  "kBase62 = ''0123456789abcdefghijklmnopqrstuvwxyzABCDEFGHIJKLMNOPQRSTUVWXYZ''"

definition is_unreserved :: "char \<Rightarrow> bool" where
  "is_unreserved c \<longleftrightarrow>
     (65 \<le> char_code c \<and> char_code c \<le> 90) \<or> (97 \<le> char_code c \<and> char_code c \<le> 122) \<or>
     (48 \<le> char_code c \<and> char_code c \<le> 57) \<or>
     c = CHR ''-'' \<or> c = CHR ''_'' \<or> c = CHR ''.'' \<or> c = CHR ''~''"

definition hex_digit :: "nat \<Rightarrow> char" where
  "hex_digit v = char_of (if v < 10 then 48 + v else 65 + (v - 10))"

text \<open>\<open>c >> 4\<close> and \<open>c & 0x0F\<close> of an unsigned byte are \<open>div 16\<close> and \<open>mod 16\<close>.\<close>

fun url_encode :: "string \<Rightarrow> string" where
  "url_encode [] = []"
| "url_encode (ch # rest) =
     (if is_unreserved ch then ch # url_encode rest
      else CHR ''%'' # hex_digit (char_code ch div 16) # hex_digit (char_code ch mod 16) #
           url_encode rest)"

section \<open>Click tokens\<close>

definition kLen :: nat where
  "kLen = 12"

definition make_click_token :: "byte list \<Rightarrow> string" where
  "make_click_token raw = map (\<lambda>b. kBase62 ! (unat b mod length kBase62)) raw"

section \<open>Partner templates\<close>

record link_vars =
  lv_url :: string
  lv_subid :: string
  lv_campaign :: string

definition placeholder :: "link_vars \<Rightarrow> string \<Rightarrow> string" where
  "placeholder vars name =
     (if name = ''url'' then lv_url vars
      else if name = ''url_enc'' then url_encode (lv_url vars)
      else if name = ''subid'' then lv_subid vars
      else if name = ''campaign'' then lv_campaign vars
      else CHR ''{'' # name @ ''}'')"

text \<open>
  The loop of \<open>render_link\<close> on the unread part of the template; \<open>close\<close> is relative
  to it, so the name is the \<open>close - 1\<close> characters after the brace and the loop
  continues after the closing brace.
\<close>

function render_link :: "string \<Rightarrow> link_vars \<Rightarrow> string" where
  "render_link [] vars = []"
| "render_link (c # cs) vars =
     (if c \<noteq> CHR ''{'' then c # render_link cs vars
      else (case find_char (CHR ''}'') (c # cs) of
              None \<Rightarrow> c # cs
            | Some close \<Rightarrow> placeholder vars (take (close - 1) cs) @ render_link (drop close cs) vars))"
  by pat_completeness auto
termination
  by (relation "measure (\<lambda>(t, v). length t)") auto

definition outbound_url :: "item \<Rightarrow> partner \<Rightarrow> string \<Rightarrow> string" where
  "outbound_url it pt click_token =
     render_link (pt_link_template pt)
       \<lparr> lv_url = it_product_url it, lv_subid = click_token, lv_campaign = it_campaign it \<rparr>"

section \<open>Lemmas on percent-encoding\<close>

lemma hex_digit_unreserved: "v < 16 \<Longrightarrow> is_unreserved (hex_digit v)"
  by (auto simp: is_unreserved_def hex_digit_def char_code_def)

lemma url_encode_append: "url_encode (s @ t) = url_encode s @ url_encode t"
  by (induction s) auto

lemma url_encode_chars: "c \<in> set (url_encode s) \<Longrightarrow> is_unreserved c \<or> c = CHR ''%''"
proof (induction s)
  case (Cons ch s)
  then show ?case
    by (auto simp: hex_digit_unreserved split: if_splits)
qed simp

lemma url_encode_unreserved: "(\<And>c. c \<in> set s \<Longrightarrow> is_unreserved c) \<Longrightarrow> url_encode s = s"
  by (induction s) auto

section \<open>Lemmas on click tokens\<close>

lemma kBase62_unreserved: "c \<in> set kBase62 \<Longrightarrow> is_unreserved c"
proof -
  have "list_all is_unreserved kBase62" by code_simp
  then show "c \<in> set kBase62 \<Longrightarrow> is_unreserved c" by (simp add: list_all_iff)
qed

lemma click_token_chars: "set (make_click_token raw) \<subseteq> set kBase62"
proof -
  have "0 < length kBase62" by (simp add: kBase62_def)
  then show ?thesis by (auto simp: make_click_token_def intro!: nth_mem)
qed

lemma click_token_unreserved: "c \<in> set (make_click_token raw) \<Longrightarrow> is_unreserved c"
  using click_token_chars kBase62_unreserved by blast

section \<open>What a template means\<close>

text \<open>
  The abstract view of a template: literal text and named holes. \<open>template_text\<close> is
  the concrete syntax of a list of pieces, \<open>fill\<close> its meaning. The meaning is written out
  without the functions of the program: the unreserved characters of RFC 3986 as a text, the
  two hexadecimal digits of any other character, the four names a hole may have.
\<close>

definition unreserved_text :: string where
  "unreserved_text = ''ABCDEFGHIJKLMNOPQRSTUVWXYZabcdefghijklmnopqrstuvwxyz0123456789-_.~''"

definition percent_form :: "char \<Rightarrow> string" where
  "percent_form c =
     (if c \<in> set unreserved_text then [c]
      else [CHR ''%'', ''0123456789ABCDEF'' ! (char_code c div 16), ''0123456789ABCDEF'' ! (char_code c mod 16)])"

datatype piece = Lit string | Hole string

fun piece_ok :: "piece \<Rightarrow> bool" where
  "piece_ok (Lit s) = (CHR ''{'' \<notin> set s)"
| "piece_ok (Hole n) = (CHR ''}'' \<notin> set n)"

fun piece_text :: "piece \<Rightarrow> string" where
  "piece_text (Lit s) = s"
| "piece_text (Hole n) = CHR ''{'' # n @ ''}''"

fun fill :: "link_vars \<Rightarrow> piece \<Rightarrow> string" where
  "fill vars (Lit s) = s"
| "fill vars (Hole n) =
     (case map_of [(''url'', lv_url vars), (''url_enc'', concat (map percent_form (lv_url vars))),
                   (''subid'', lv_subid vars), (''campaign'', lv_campaign vars)] n of
        Some value \<Rightarrow> value
      | None \<Rightarrow> ''{'' @ n @ ''}'')"

definition template_text :: "piece list \<Rightarrow> string" where
  "template_text ps = concat (map piece_text ps)"

text \<open>What is left after the last complete piece: nothing, or an unterminated brace.\<close>

definition template_tail :: "string \<Rightarrow> bool" where
  "template_tail t \<longleftrightarrow> t = [] \<or> (\<exists>r. t = CHR ''{'' # r \<and> CHR ''}'' \<notin> set r)"

text \<open>The link a template stands for: its literals and the values of its holes, in order.\<close>

definition link_means :: "string \<Rightarrow> link_vars \<Rightarrow> string \<Rightarrow> bool" where
  "link_means template vars url \<longleftrightarrow>
     (\<exists>ps tail. template = template_text ps @ tail \<and> (\<forall>p \<in> set ps. piece_ok p) \<and> template_tail tail \<and>
        url = concat (map (fill vars) ps) @ tail)"

lemma unreserved_tail: "unreserved_text = (''ABCDEFGHIJKLMNOPQRSTUVWXYZabcdefghijklmnopqrstuvwxyz0123456789'' @ ''-_.~'')"
  by (simp add: unreserved_text_def)

lemma is_unreserved_iff: "is_unreserved c \<longleftrightarrow> c \<in> set unreserved_text"
proof
  have "list_all is_unreserved unreserved_text" by code_simp
  then show "c \<in> set unreserved_text \<Longrightarrow> is_unreserved c" by (simp add: list_all_iff)
next
  have "list_all (\<lambda>n. char_of n \<in> set unreserved_text) ([65..<91] @ [97..<123] @ [48..<58])"
    by (simp add: upt_rec unreserved_text_def char_of_def bit_0)
  then have "\<forall>n \<in> {65..<91::nat} \<union> {97..<123} \<union> {48..<58}. char_of n \<in> set unreserved_text"
    by (simp only: list_all_iff set_append set_upt Un_assoc)
  moreover assume "is_unreserved c"
  then have "char_code c \<in> {65..<91} \<union> {97..<123} \<union> {48..<58} \<or> c \<in> set ''-_.~''"
    by (auto simp: is_unreserved_def)
  ultimately show "c \<in> set unreserved_text"
    by (metis Un_iff char_code_def char_of_char set_append unreserved_tail)
qed

lemma hex_digit_nth: "v < 16 \<Longrightarrow> hex_digit v = ''0123456789ABCDEF'' ! v"
proof -
  have "list_all (\<lambda>v. hex_digit v = ''0123456789ABCDEF'' ! v) [0..<16]" by code_simp
  then show "v < 16 \<Longrightarrow> hex_digit v = ''0123456789ABCDEF'' ! v" by (simp add: list_all_iff)
qed

lemma url_encode_percent: "url_encode s = concat (map percent_form s)"
proof (induction s)
  case (Cons c s)
  have "char_code c < 256" by (simp add: char_code_def)
  then have "char_code c div 16 < 16" by simp
  with Cons show ?case by (simp add: percent_form_def is_unreserved_iff hex_digit_nth)
qed simp

lemma fill_hole: "fill vars (Hole n) = placeholder vars n"
  by (simp add: placeholder_def url_encode_percent)

lemma render_link_lit: "CHR ''{'' \<notin> set s \<Longrightarrow> render_link (s @ t) vars = s @ render_link t vars"
  by (induction s) auto

lemma render_link_hole:
  assumes "CHR ''}'' \<notin> set n"
  shows "render_link (CHR ''{'' # n @ CHR ''}'' # t) vars = placeholder vars n @ render_link t vars"
  using find_char_append [OF assms, of t] by simp

lemma render_link_tail: "template_tail t \<Longrightarrow> render_link t vars = t"
  by (auto simp: template_tail_def)

lemma render_link_pieces:
  assumes "\<forall>p \<in> set ps. piece_ok p" and "template_tail t"
  shows "render_link (template_text ps @ t) vars = concat (map (fill vars) ps) @ t"
  using assms
proof (induction ps)
  case Nil
  then show ?case by (simp add: template_text_def render_link_tail)
next
  case (Cons p ps)
  then show ?case
    by (cases p)
      (simp_all add: template_text_def render_link_lit render_link_hole fill_hole del: render_link.simps(2) fill.simps(2))
qed

lemma template_pieces_exist:
  "\<exists>ps t. s = template_text ps @ t \<and> (\<forall>p \<in> set ps. piece_ok p) \<and> template_tail t"
proof (induction "length s" arbitrary: s rule: less_induct)
  case less
  show ?case
  proof (cases s)
    case Nil
    then have "s = template_text [] @ [] \<and> template_tail []"
      by (simp add: template_text_def template_tail_def)
    then show ?thesis by fastforce
  next
    case (Cons c cs)
    have extend: ?thesis
      if "piece_ok p" and "s = piece_text p @ r" and "length r < length s" for p r
    proof -
      from less [OF that(3)] obtain ps t where
        "r = template_text ps @ t" "\<forall>p \<in> set ps. piece_ok p" "template_tail t"
        by blast
      with that(1,2) have "s = template_text (p # ps) @ t \<and> (\<forall>p \<in> set (p # ps). piece_ok p) \<and> template_tail t"
        by (simp add: template_text_def)
      then show ?thesis by blast
    qed
    show ?thesis
    proof (cases "c = CHR ''{''")
      case False
      then show ?thesis using extend [of "Lit [c]" cs] Cons by simp
    next
      case True
      show ?thesis
      proof (cases "find_char (CHR ''}'') cs")
        case None
        with True Cons have "s = template_text [] @ s \<and> template_tail s"
          by (simp add: template_text_def template_tail_def find_char_None_iff)
        then show ?thesis by fastforce
      next
        case (Some n)
        from find_char_split [OF this] True Cons show ?thesis
          by (intro extend [of "Hole (take n cs)" "drop (Suc n) cs"]) auto
      qed
    qed
  qed
qed

section \<open>Properties\<close>

lemma link_means_render: "link_means s vars url \<longleftrightarrow> url = render_link s vars"
proof
  assume "link_means s vars url"
  then show "url = render_link s vars" unfolding link_means_def using render_link_pieces by fastforce
next
  assume "url = render_link s vars"
  with template_pieces_exist [of s] show "link_means s vars url"
    unfolding link_means_def using render_link_pieces by blast
qed

text \<open>
  \<^bold>\<open>C32.\<close> \<open>render_link\<close> computes exactly the link the template stands for. Every template is a
  sequence of literal text and \<open>{name}\<close> holes followed at most by an unterminated brace, and
  the link is the literals and the values of the holes in order with the unterminated rest
  copied verbatim: \<open>{url}\<close> the address as it is, \<open>{url_enc}\<close> the address with every
  character outside the unreserved set of RFC 3986 as a percent sign and two upper-case
  hexadecimal digits, \<open>{subid}\<close> and \<open>{campaign}\<close> the click token and the campaign, any
  other hole verbatim with its braces. However the template is cut into pieces, there is no
  other such link.
\<close>

theorem render_link_meaning:
  "(\<exists>ps tail. s = template_text ps @ tail \<and> (\<forall>p \<in> set ps. piece_ok p) \<and> template_tail tail \<and>
      url = concat (map (fill vars) ps) @ tail) \<longleftrightarrow>
    url = render_link s vars"
  using link_means_render [of s vars url] by (simp only: link_means_def)

theorem render_link_meaning_witness:
  "render_link ''{url}?u={url_enc}&s={subid}&c={campaign}&{x}{oops''
       \<lparr> lv_url = ''/a b'', lv_subid = ''S1'', lv_campaign = ''C2'' \<rparr> =
     ''/a b?u=%2Fa%20b&s=S1&c=C2&{x}{oops''"
proof (rule render_link_meaning [THEN iffD1, symmetric], intro exI conjI)
  let ?ps = "[Hole ''url'', Lit ''?u='', Hole ''url_enc'', Lit ''&s='', Hole ''subid'', Lit ''&c='', Hole ''campaign'',
    Lit ''&'', Hole ''x'']"
  show "''{url}?u={url_enc}&s={subid}&c={campaign}&{x}{oops'' = template_text ?ps @ ''{oops''" by code_simp
  show "\<forall>p \<in> set ?ps. piece_ok p" by code_simp
  show "template_tail ''{oops''" by (simp add: template_tail_def)
  show "''/a b?u=%2Fa%20b&s=S1&c=C2&{x}{oops'' =
    concat (map (fill \<lparr> lv_url = ''/a b'', lv_subid = ''S1'', lv_campaign = ''C2'' \<rparr>) ?ps) @ ''{oops''" by code_simp
qed

text \<open>
  A click token built from the 12 random bytes is 12 characters of the base62
  alphabet and survives as a query parameter unchanged: percent-encoding it is the
  identity.
\<close>

theorem click_token_url_safe:
  assumes "length raw = kLen"
  shows "length (make_click_token raw) = 12 \<and> set (make_click_token raw) \<subseteq> set kBase62 \<and>
    url_encode (make_click_token raw) = make_click_token raw"
proof (intro conjI)
  show "length (make_click_token raw) = 12"
    using assms by (simp add: make_click_token_def kLen_def)
  show "set (make_click_token raw) \<subseteq> set kBase62" by (rule click_token_chars)
  show "url_encode (make_click_token raw) = make_click_token raw"
    by (rule url_encode_unreserved) (rule click_token_unreserved)
qed

theorem click_token_url_safe_witness:
  "length (make_click_token [0, 10, 61, 62, 255, 1, 2, 3, 4, 5, 6, 7]) = 12 \<and>
   url_encode (make_click_token [0, 10, 61, 62, 255, 1, 2, 3, 4, 5, 6, 7]) =
     make_click_token [0, 10, 61, 62, 255, 1, 2, 3, 4, 5, 6, 7]"
  using click_token_url_safe [of "[0, 10, 61, 62, 255, 1, 2, 3, 4, 5, 6, 7]"]
  by (simp add: kLen_def)

end
