(* ===== verification/Request_Text.thy ===== *)
theory Request_Text
  imports Links
begin

text \<open>
  The text helpers of \<open>src/handlers.cpp\<close>: reading integers, percent-decoding, query
  strings, cookies, the request target and the source of a visit. A
  \<open>std::unordered_map\<close> of query parameters is a map \<open>string \<rightharpoonup> string\<close>.
\<close>

section \<open>Integers and identifiers\<close>

definition parse_int :: "string \<Rightarrow> int option" where
  "parse_int s =
     (case from_chars int64_min int64_max s of
        None \<Rightarrow> None
      | Some (v, rest) \<Rightarrow> if rest = [] then Some v else None)"

definition kHex :: string where
  "kHex = ''0123456789abcdef''"

text \<open>The 16 bytes of \<open>randombytes_buf\<close> are the argument.\<close>

definition random_id :: "byte list \<Rightarrow> string" where
  "random_id raw = concat (map (\<lambda>b. [kHex ! unat (drop_bit 4 b), kHex ! unat (and b 15)]) raw)"

section \<open>Percent-decoding\<close>

definition hex_value :: "char \<Rightarrow> int" where
  "hex_value c =
     (if 48 \<le> char_code c \<and> char_code c \<le> 57 then int (char_code c) - 48
      else if 97 \<le> char_code c \<and> char_code c \<le> 102 then int (char_code c) - 97 + 10
      else if 65 \<le> char_code c \<and> char_code c \<le> 70 then int (char_code c) - 65 + 10
      else - 1)"

text \<open>\<open>i + 2 < in.size()\<close> says that two characters follow the percent sign.\<close>

function url_decode :: "string \<Rightarrow> string" where
  "url_decode [] = []"
| "url_decode (c # cs) =
     (if c = CHR ''+'' then CHR '' '' # url_decode cs
      else if c = CHR ''%'' \<and> 2 \<le> length cs then
        (let hi = hex_value (cs ! 0); lo = hex_value (cs ! 1)
         in if 0 \<le> hi \<and> 0 \<le> lo then char_of (nat (hi * 16 + lo)) # url_decode (drop 2 cs)
            else c # url_decode cs)
      else c # url_decode cs)"
  by pat_completeness auto
termination
  by (relation "measure length") auto

section \<open>Query strings\<close>

text \<open>\<open>substr(0, n)\<close> with \<open>n\<close> possibly \<open>npos\<close>.\<close>

fun upto :: "nat option \<Rightarrow> string \<Rightarrow> string" where
  "upto None s = s"
| "upto (Some n) s = take n s"

definition add_pair :: "string \<Rightarrow> (string \<rightharpoonup> string) \<Rightarrow> (string \<rightharpoonup> string)" where
  "add_pair pair out =
     (if pair = [] then out
      else case find_char (CHR ''='') pair of
             None \<Rightarrow> emplace out (url_decode pair) []
           | Some eq \<Rightarrow> out(url_decode (take eq pair) \<mapsto> url_decode (drop (eq + 1) pair)))"

function parse_query_loop :: "string \<Rightarrow> (string \<rightharpoonup> string) \<Rightarrow> (string \<rightharpoonup> string)" where
  "parse_query_loop qs out =
     (if qs = [] then out
      else let amp = find_char (CHR ''&'') qs; out' = add_pair (upto amp qs) out
           in case amp of None \<Rightarrow> out' | Some n \<Rightarrow> parse_query_loop (drop (n + 1) qs) out')"
  by pat_completeness auto
termination
  by (relation "measure (\<lambda>(qs, out). length qs)") auto

declare parse_query_loop.simps [simp del]

definition parse_query :: "string \<Rightarrow> (string \<rightharpoonup> string)" where
  "parse_query qs = parse_query_loop qs Map.empty"

section \<open>Cookies\<close>

function cookie_value :: "string \<Rightarrow> string \<Rightarrow> string" where
  "cookie_value header name =
     (if header = [] then []
      else let h = dropWhile (\<lambda>c. c = CHR '' '' \<or> c = CHR '';'') header;
               semi = find_char (CHR '';'') h;
               pair = upto semi h;
               next_pair = (\<lambda>_::unit. case semi of None \<Rightarrow> [] | Some n \<Rightarrow> cookie_value (drop (n + 1) h) name)
           in case find_char (CHR ''='') pair of
                None \<Rightarrow> next_pair ()
              | Some eq \<Rightarrow> if take eq pair = name then drop (eq + 1) pair else next_pair ())"
  by pat_completeness auto
termination
  by (relation "measure (\<lambda>(h, n). length h)")
    (auto simp: find_char_Some_iff intro: le_less_trans [OF diff_le_mono [OF length_dropWhile_le]])

declare cookie_value.simps [simp del]

section \<open>Targets and sources\<close>

record target =
  tg_path :: string
  tg_query :: string

definition split_target :: "string \<Rightarrow> target" where
  "split_target t =
     (case find_char (CHR ''?'') t of
        None \<Rightarrow> \<lparr> tg_path = t, tg_query = [] \<rparr>
      | Some q \<Rightarrow> \<lparr> tg_path = take q t, tg_query = drop (q + 1) t \<rparr>)"

definition referer_host :: "string \<Rightarrow> string" where
  "referer_host referer =
     (let start = (case find_sub ''://'' referer of None \<Rightarrow> 0 | Some scheme \<Rightarrow> scheme + 3);
          rest = drop start referer
      in upto (find_char (CHR ''/'') rest) rest)"

definition visit_source :: "(string \<rightharpoonup> string) \<Rightarrow> string \<Rightarrow> string" where
  "visit_source q referer =
     (case q ''utm_source'' of
        Some (u # us) \<Rightarrow> u # us
      | _ \<Rightarrow> if referer = [] then ''direct'' else referer_host referer)"

section \<open>Lemmas on the helpers\<close>

lemma upto_takeWhile: "upto (find_char c s) s = takeWhile (\<lambda>x. x \<noteq> c) s"
proof (induction s)
  case (Cons x xs)
  then show ?case by (cases "find_char c xs") auto
qed simp

lemma upto_notin: "c \<notin> set (upto (find_char c s) s)"
  using set_takeWhileD [of _ "\<lambda>x. x \<noteq> c" s] by (auto simp: upto_takeWhile)

lemma parse_int_int_to_string [simp]: "in_int64 i \<Longrightarrow> parse_int (int_to_string i) = Some i"
  by (simp add: parse_int_def in_int64_def from_chars_int_to_string)

lemma parse_int_range: "parse_int s = Some i \<Longrightarrow> in_int64 i"
  by (auto simp: parse_int_def in_int64_def split: option.splits if_splits dest: from_chars_range)

lemma split_target_append:
  "CHR ''?'' \<notin> set p \<Longrightarrow> split_target (p @ CHR ''?'' # q) = \<lparr> tg_path = p, tg_query = q \<rparr>"
  by (simp add: split_target_def)

subsection \<open>Percent-encoding and decoding\<close>

lemma hex_value_hex_digit: "n < 16 \<Longrightarrow> hex_value (hex_digit n) = int n"
  by (auto simp: hex_value_def hex_digit_def char_code_char_of)

lemma url_decode_escape:
  "url_decode (CHR ''%'' # hex_digit (char_code c div 16) # hex_digit (char_code c mod 16) # rest)
     = c # url_decode rest"
proof -
  have "nat (int (char_code c div 16) * 16 + int (char_code c mod 16)) =
      nat (int (char_code c div 16 * 16 + char_code c mod 16))"
    by (simp only: of_nat_add of_nat_mult of_nat_numeral)
  then have "nat (int (char_code c div 16) * 16 + int (char_code c mod 16)) = char_code c"
    by (simp only: div_mult_mod_eq nat_int)
  then show ?thesis
    by (simp add: hex_value_hex_digit)
qed

lemma url_decode_plain:
  "c \<noteq> CHR ''+'' \<Longrightarrow> c \<noteq> CHR ''%'' \<Longrightarrow> url_decode (c # cs) = c # url_decode cs"
  by simp

lemma not_unreserved_special [simp]:
  "\<not> is_unreserved (CHR ''+'')" "\<not> is_unreserved (CHR ''%'')" "\<not> is_unreserved (CHR ''&'')"
  "\<not> is_unreserved (CHR ''='')" "\<not> is_unreserved (CHR ''?'')" "\<not> is_unreserved (CHR ''/'')"
  "\<not> is_unreserved (CHR ''#'')" "\<not> is_unreserved (CHR '' '')"
  by (simp_all add: is_unreserved_def char_code_def)

lemma url_decode_url_encode_append: "url_decode (url_encode s @ t) = s @ url_decode t"
proof (induction s)
  case (Cons c cs)
  show ?case
  proof (cases "is_unreserved c")
    case True
    then have "c \<noteq> CHR ''+''" and "c \<noteq> CHR ''%''" by auto
    with True Cons show ?thesis by (simp add: url_decode_plain del: url_decode.simps(2))
  next
    case False
    with Cons show ?thesis by (simp add: url_decode_escape del: url_decode.simps(2))
  qed
qed simp

lemma url_decode_url_encode [simp]: "url_decode (url_encode s) = s"
  using url_decode_url_encode_append [of s "[]"] by simp

interpretation percent: codec url_encode "\<lambda>s. Some (url_decode s)"
  by unfold_locales simp

lemma url_encode_notin:
  assumes "\<not> is_unreserved c" and "c \<noteq> CHR ''%''"
  shows "c \<notin> set (url_encode s)"
  using assms url_encode_chars [of c s] by blast

subsection \<open>Query strings\<close>

text \<open>The query string a client writes for a list of parameters.\<close>

fun pair_text :: "string \<times> string \<Rightarrow> string" where
  "pair_text (k, v) = url_encode k @ CHR ''='' # url_encode v"

fun encode_query :: "(string \<times> string) list \<Rightarrow> string" where
  "encode_query [] = []"
| "encode_query [p] = pair_text p"
| "encode_query (p # ps) = pair_text p @ CHR ''&'' # encode_query ps"

lemma add_pair_pair_text: "add_pair (pair_text (k, v)) out = out(k \<mapsto> v)"
  by (simp add: add_pair_def url_encode_notin)

lemma pair_text_facts [simp]: "pair_text p \<noteq> []" "CHR ''&'' \<notin> set (pair_text p)"
  by (cases p; simp add: url_encode_notin)+

lemma parse_query_loop_last:
  "s \<noteq> [] \<Longrightarrow> CHR ''&'' \<notin> set s \<Longrightarrow> parse_query_loop s out = add_pair s out"
  by (subst parse_query_loop.simps) simp

lemma parse_query_loop_step:
  "CHR ''&'' \<notin> set s \<Longrightarrow>
     parse_query_loop (s @ CHR ''&'' # t) out = parse_query_loop t (add_pair s out)"
  by (subst parse_query_loop.simps) simp

lemma parse_query_loop_encode:
  "parse_query_loop (encode_query kvs) out = out ++ map_of (rev kvs)"
proof (induction kvs arbitrary: out rule: encode_query.induct)
  case 1
  then show ?case by (subst parse_query_loop.simps) simp
next
  case (2 p)
  then show ?case
    by (cases p) (simp add: parse_query_loop_last add_pair_pair_text map_add_def fun_eq_iff
        del: pair_text.simps)
next
  case (3 p q ps)
  obtain k v where p: "p = (k, v)" by fastforce
  have "parse_query_loop (encode_query (p # q # ps)) out =
      parse_query_loop (encode_query (q # ps)) (out(k \<mapsto> v))"
    by (simp add: parse_query_loop_step add_pair_pair_text p del: pair_text.simps)
  also have "\<dots> = out(k \<mapsto> v) ++ map_of (rev (q # ps))"
    by (rule 3)
  also have "\<dots> = out ++ map_of (rev (p # q # ps))"
    by (auto simp: p map_add_def fun_eq_iff split: option.splits)
  finally show ?case .
qed

subsection \<open>Cookies\<close>

text \<open>The \<open>Cookie\<close> header a browser sends for a list of cookies.\<close>

fun cookie_header :: "(string \<times> string) list \<Rightarrow> string" where
  "cookie_header [] = []"
| "cookie_header [(n, v)] = n @ CHR ''='' # v"
| "cookie_header ((n, v) # c # cs) = n @ CHR ''='' # v @ ''; '' @ cookie_header (c # cs)"

fun cookie_ok :: "string \<times> string \<Rightarrow> bool" where
  "cookie_ok (n, v) \<longleftrightarrow> CHR ''='' \<notin> set n \<and> CHR '';'' \<notin> set n \<and> \<not> starts_with n '' '' \<and> CHR '';'' \<notin> set v"

lemma cookie_value_Nil [simp]: "cookie_value [] name = []"
  by (subst cookie_value.simps) simp

lemma cookie_value_space: "cookie_value (CHR '' '' # t) name = cookie_value t name"
proof (cases t)
  case Nil
  then show ?thesis by (simp add: cookie_value.simps [of "[CHR '' '']"])
next
  case (Cons a l)
  then show ?thesis
    by (simp add: cookie_value.simps [of "CHR '' '' # a # l"] cookie_value.simps [of "a # l"])
qed

lemma cookie_start:
  "cookie_ok (n, v) \<Longrightarrow> dropWhile (\<lambda>c. c = CHR '' '' \<or> c = CHR '';'') (n @ CHR ''='' # r) = n @ CHR ''='' # r"
  by (cases n) auto

lemma cookie_value_last:
  assumes "cookie_ok (n, v)"
  shows "cookie_value (n @ CHR ''='' # v) name = (if n = name then v else [])"
  using assms cookie_start [OF assms, of v]
  by (subst cookie_value.simps) (simp add: find_char_notin)

lemma cookie_value_step:
  assumes "cookie_ok (n, v)"
  shows "cookie_value (n @ CHR ''='' # v @ CHR '';'' # t) name = (if n = name then v else cookie_value t name)"
proof -
  have "find_char (CHR '';'') ((n @ CHR ''='' # v) @ CHR '';'' # t) = Some (length (n @ CHR ''='' # v))"
    using assms by (intro find_char_append) simp
  then show ?thesis
    using assms cookie_start [OF assms, of "v @ CHR '';'' # t"]
    by (subst cookie_value.simps) simp
qed

lemma cookie_value_no_semicolon: "CHR '';'' \<notin> set (cookie_value header name)"
proof (induction "length header" arbitrary: header rule: less_induct)
  case less
  define h where "h = dropWhile (\<lambda>c. c = CHR '' '' \<or> c = CHR '';'') header"
  define pair where "pair = upto (find_char (CHR '';'') h) h"
  have "CHR '';'' \<notin> set pair" unfolding pair_def by (rule upto_notin)
  then have found: "CHR '';'' \<notin> set (drop n pair)" for n
    by (meson in_set_dropD)
  have rest: "CHR '';'' \<notin> set (cookie_value (drop (n + 1) h) name)"
    if "find_char (CHR '';'') h = Some n" for n
  proof -
    from find_char_split(3) [OF that] have "length (drop (n + 1) h) < length h" by simp
    also have "\<dots> \<le> length header" unfolding h_def by (rule length_dropWhile_le)
    finally show ?thesis by (rule less)
  qed
  show ?case
    unfolding cookie_value.simps [of header] Let_def h_def [symmetric] pair_def [symmetric]
    using found rest by (simp split: option.split)
qed

subsection \<open>Identifiers\<close>

lemma and_15: "and b 15 = take_bit 4 b" for b :: byte
  by (simp add: take_bit_eq_mask mask_eq_exp_minus_1)

lemma nibble_values: "unat (drop_bit 4 b) = unat b div 16" "unat (and b 15) = unat b mod 16" for b :: byte
proof -
  have "unat (drop_bit 4 b) = drop_bit 4 (unat b)" by (rule unat_drop_bit_eq)
  then show "unat (drop_bit 4 b) = unat b div 16" by (simp add: drop_bit_eq_div)
  have "unat (and b 15) = take_bit 4 (unat b)" unfolding and_15 by (rule unsigned_take_bit_eq)
  then show "unat (and b 15) = unat b mod 16" by (simp add: take_bit_eq_mod)
qed

lemma byte_nibbles: "unat b = 16 * unat (drop_bit 4 b) + unat (and b 15)" for b :: byte
  by (simp add: nibble_values)

lemma nibble_bounds: "unat (drop_bit 4 b) < 16" "unat (and b 15) < 16" for b :: byte
  using unsigned_less [where 'a = nat, of b] by (simp_all add: nibble_values)

lemma kHex_eq_iff: "i < 16 \<Longrightarrow> j < 16 \<Longrightarrow> kHex ! i = kHex ! j \<longleftrightarrow> i = j"
  by (rule nth_eq_iff_index_eq) (simp_all add: kHex_def)

lemma random_id_inj: "random_id a = random_id b \<longleftrightarrow> a = b"
proof
  show "random_id a = random_id b \<Longrightarrow> a = b"
  proof (induction a arbitrary: b)
    case Nil
    then show ?case by (cases b) (simp_all add: random_id_def)
  next
    case (Cons x xs)
    then obtain y ys where b: "b = y # ys" by (cases b) (simp_all add: random_id_def)
    with Cons.prems have "unat (drop_bit 4 x) = unat (drop_bit 4 y)"
      and "unat (and x 15) = unat (and y 15)" and ids: "random_id xs = random_id ys"
      by (simp_all add: random_id_def kHex_eq_iff nibble_bounds)
    then have "unat x = unat y" by (metis byte_nibbles)
    with Cons.IH [OF ids] b show ?case by (simp add: word_unat_eq_iff)
  qed
qed simp

lemma random_id_length: "length (random_id raw) = 2 * length raw"
  by (induction raw) (simp_all add: random_id_def)

lemma random_id_chars: "set (random_id raw) \<subseteq> set kHex"
proof -
  have "length kHex = 16" by (simp add: kHex_def)
  then have "kHex ! i \<in> set kHex" if "i < 16" for i
    using that by (simp only: nth_mem)
  with nibble_bounds show ?thesis
    by (induction raw) (simp_all add: random_id_def)
qed

lemma cookie_value_header:
  "\<forall>c \<in> set cs. cookie_ok c \<Longrightarrow>
     cookie_value (cookie_header cs) name = (case map_of cs name of None \<Rightarrow> [] | Some v \<Rightarrow> v)"
proof (induction cs rule: cookie_header.induct)
  case 1
  show ?case by simp
next
  case (2 n v)
  then show ?case by (simp add: cookie_value_last del: cookie_ok.simps)
next
  case (3 n v c cs)
  then show ?case
    by (simp add: cookie_value_step cookie_value_space del: cookie_ok.simps)
qed

section \<open>Properties\<close>

text \<open>
  The link a partner receives can be read back: percent-decoding what
  \<open>url_encode\<close> produced gives the original bytes, whatever they are, and the encoded
  text holds no character that could end or split a query parameter.
\<close>

theorem url_encode_roundtrip:
  "url_decode (url_encode s) = s \<and>
   set (url_encode s) \<inter> {CHR ''&'', CHR ''='', CHR ''?'', CHR ''#'', CHR ''/'', CHR ''+'', CHR '' ''} = {}"
  using url_encode_notin [of _ s] by auto

text \<open>
  \<^bold>\<open>C40.\<close> A query string written from a list of parameters is parsed back to exactly
  those parameters, names and values decoded, the last value winning where a name is
  repeated.
\<close>

theorem parse_query_roundtrip: "parse_query (encode_query kvs) = map_of (rev kvs)"
  by (simp add: parse_query_def parse_query_loop_encode)

text \<open>
  \<open>cookie_value\<close> reads the header a browser sends: the value of the first
  cookie of exactly that name, and the empty string when there is none (so a name that is
  only a suffix of another never matches).
\<close>

theorem cookie_value_correct:
  assumes "\<forall>c \<in> set cs. cookie_ok c"
  shows "cookie_value (cookie_header cs) name = (case map_of cs name of None \<Rightarrow> [] | Some v \<Rightarrow> v)"
  using assms by (rule cookie_value_header)

theorem cookie_value_correct_witness:
  "cookie_value (cookie_header [(''aid'', ''abc''), (''sid'', ''x=y'')]) ''sid'' = ''x=y'' \<and>
   cookie_value (cookie_header [(''aid'', ''abc''), (''sid'', ''x=y'')]) ''id'' = []"
  using cookie_value_correct [of "[(''aid'', ''abc''), (''sid'', ''x=y'')]"] by simp

text \<open>
  Splitting a request target loses nothing: the path has no question mark, and
  putting the question mark back gives the target.
\<close>

lemma split_target_correct:
  "CHR ''?'' \<notin> set (tg_path (split_target t)) \<and>
   (t = tg_path (split_target t) \<and> tg_query (split_target t) = [] \<or>
    t = tg_path (split_target t) @ CHR ''?'' # tg_query (split_target t))"
  by (auto simp: split_target_def find_char_None_iff dest: find_char_split split: option.splits)

text \<open>
  Distinct random bytes give distinct identifiers: \<open>random_id\<close> prints 16
  bytes as 32 lower-case hexadecimal digits and loses nothing.
\<close>

theorem random_id_faithful:
  assumes "length raw = 16"
  shows "length (random_id raw) = 32 \<and> set (random_id raw) \<subseteq> set kHex \<and>
    (random_id raw = random_id raw' \<longleftrightarrow> raw = raw')"
  using assms by (simp add: random_id_length random_id_chars random_id_inj)

theorem random_id_faithful_witness:
  "length (random_id [0, 1, 2, 3, 4, 5, 6, 7, 8, 9, 10, 11, 12, 13, 254, 255]) = 32"
  using random_id_faithful [of "[0, 1, 2, 3, 4, 5, 6, 7, 8, 9, 10, 11, 12, 13, 254, 255]"] by simp

end
