(* ===== verification/Amounts.thy ===== *)
theory Amounts
  imports Request_Text Events "HOL-Library.Log_Nat"
begin

text \<open>
  The amount of a postback, \<open>static_cast<Kopek>(std::stod(text) * 100.0)\<close> in
  \<open>handle_postback\<close> of \<open>src/handlers.cpp\<close>: what \<open>std::stod\<close> reads, IEEE double rounding
  (round to nearest, ties to even), and the truncating cast. A cast of a value outside
  \<open>int64_t\<close> is undefined in C++; what it yields is the parameter \<open>wild\<close>.
\<close>

section \<open>Doubles\<close>

datatype dbl = Fin rat | Infinity bool | NaN

definition pow2 :: "int \<Rightarrow> rat" where
  "pow2 e = (if 0 \<le> e then 2 ^ nat e else 1 / 2 ^ nat (- e))"

definition half_even :: "rat \<Rightarrow> int" where
  "half_even q =
     (let f = floor q; r = q - of_int f
      in if r < 1 / 2 then f else if 1 / 2 < r then f + 1 else if even f then f else f + 1)"

text \<open>The exponent at which a positive number has a 53-bit significand, or the smallest one.\<close>

definition exponent_of :: "rat \<Rightarrow> int" where
  "exponent_of q =
     (let (n, d) = quotient_of q;
          e = bitlen n - bitlen d - 53
      in max (- 1074) (if 2 ^ 53 \<le> q / pow2 e then e + 1 else e))"

definition round_positive :: "rat \<Rightarrow> rat" where
  "round_positive q = (let e = exponent_of q in of_int (half_even (q / pow2 e)) * pow2 e)"

definition round_rat :: "rat \<Rightarrow> rat" where
  "round_rat q = (if q = 0 then 0 else if q < 0 then - round_positive (- q) else round_positive q)"

definition to_dbl :: "rat \<Rightarrow> dbl" where
  "to_dbl q = (if 2 ^ 1024 \<le> \<bar>round_rat q\<bar> then Infinity (q < 0) else Fin (round_rat q))"

fun times_hundred :: "dbl \<Rightarrow> dbl" where
  "times_hundred (Fin q) = to_dbl (q * 100)"
| "times_hundred (Infinity neg) = Infinity neg"
| "times_hundred NaN = NaN"

section \<open>std::stod\<close>

definition is_space :: "char \<Rightarrow> bool" where
  "is_space c \<longleftrightarrow> char_code c = 32 \<or> (9 \<le> char_code c \<and> char_code c \<le> 13)"

text \<open>An exponent part \<open>e[+-]digits\<close> introduced by \<open>mark\<close>, 0 when there is none.\<close>

definition read_exponent :: "char \<Rightarrow> string \<Rightarrow> int" where
  "read_exponent mark s =
     (case s of
        [] \<Rightarrow> 0
      | c # cs \<Rightarrow>
          if tolower c \<noteq> mark then 0
          else let neg = (cs \<noteq> [] \<and> hd cs = CHR ''-'');
                   body = (if cs \<noteq> [] \<and> hd cs \<in> {CHR ''-'', CHR ''+''} then tl cs else cs);
                   v = int (digits_value (takeWhile is_digit body))
               in if neg then - v else v)"

text \<open>Digits, an optional point and more digits: both runs and the unread rest.\<close>

definition read_mantissa :: "(char \<Rightarrow> bool) \<Rightarrow> string \<Rightarrow> string \<times> string \<times> string" where
  "read_mantissa dig s =
     (case dropWhile dig s of
        [] \<Rightarrow> (takeWhile dig s, [], [])
      | c # cs \<Rightarrow> if c = CHR ''.'' then (takeWhile dig s, takeWhile dig cs, dropWhile dig cs)
                 else (takeWhile dig s, [], c # cs))"

definition pow10 :: "int \<Rightarrow> rat" where
  "pow10 e = (if 0 \<le> e then 10 ^ nat e else 1 / 10 ^ nat (- e))"

definition read_decimal :: "string \<Rightarrow> rat option" where
  "read_decimal s =
     (case read_mantissa is_digit s of (ip, fp, rest) \<Rightarrow>
        if ip = [] \<and> fp = [] then None
        else Some (of_nat (digits_value (ip @ fp)) * pow10 (read_exponent (CHR ''e'') rest - int (length fp))))"

definition read_hex :: "string \<Rightarrow> rat option" where
  "read_hex s =
     (if \<not> starts_with (map tolower s) ''0x'' then None
      else case read_mantissa (\<lambda>c. 0 \<le> hex_value c) (drop 2 s) of (ip, fp, rest) \<Rightarrow>
             if ip = [] \<and> fp = [] then None
             else Some (of_int (foldl (\<lambda>acc c. 16 * acc + hex_value c) 0 (ip @ fp)) *
                        pow2 (read_exponent (CHR ''p'') rest - 4 * int (length fp))))"

definition read_magnitude :: "string \<Rightarrow> rat option" where
  "read_magnitude s = (case read_hex s of Some q \<Rightarrow> Some q | None \<Rightarrow> read_decimal s)"

definition in_range :: "bool \<Rightarrow> rat \<Rightarrow> dbl option" where
  "in_range neg q =
     (let v = round_rat q
      in if 2 ^ 1024 \<le> v \<or> (q < pow2 (- 1022) \<and> v \<noteq> q) then None
         else Some (Fin (if neg then - v else v)))"

text \<open>
  \<open>None\<close> is an exception: \<open>std::invalid_argument\<close> when nothing converts,
  \<open>std::out_of_range\<close> when the value overflows or underflows. Text after the number is
  ignored, as \<open>std::stod\<close> does when it is not asked for the position.
\<close>

definition stod :: "string \<Rightarrow> dbl option" where
  "stod s =
     (let s1 = dropWhile is_space s;
          neg = (s1 \<noteq> [] \<and> hd s1 = CHR ''-'');
          s2 = (if s1 \<noteq> [] \<and> hd s1 \<in> {CHR ''-'', CHR ''+''} then tl s1 else s1)
      in if starts_with (map tolower s2) ''inf'' then Some (Infinity neg)
         else if starts_with (map tolower s2) ''nan'' then Some NaN
         else case read_magnitude s2 of None \<Rightarrow> None | Some q \<Rightarrow> in_range neg q)"

section \<open>The amount in kopecks\<close>

definition truncate :: "rat \<Rightarrow> int" where
  "truncate q = (if q < 0 then - floor (- q) else floor q)"

definition cast_int64 :: "(dbl \<Rightarrow> int) \<Rightarrow> dbl \<Rightarrow> int" where
  "cast_int64 wild d =
     (case d of Fin q \<Rightarrow> if in_int64 (truncate q) then truncate q else wild d | _ \<Rightarrow> wild d)"

definition amount_of :: "(dbl \<Rightarrow> int) \<Rightarrow> string \<Rightarrow> kopek option" where
  "amount_of wild text = map_option (\<lambda>d. cast_int64 wild (times_hundred d)) (stod text)"

section \<open>Whole numbers are exact\<close>

lemma half_even_of_int [simp]: "half_even (of_int n) = n"
  by (simp add: half_even_def Let_def)

lemma pow2_pos [simp]: "0 < pow2 e"
  by (simp add: pow2_def)

lemma round_positive_exact:
  assumes "0 < n" and "n < 2 ^ 53"
  shows "round_positive (of_int n) = of_int n"
proof -
  let ?q = "of_int n :: rat"
  have quot: "quotient_of ?q = (n, 1)" by (simp add: quotient_of_int)
  have "bitlen n \<le> 53"
    using assms by (subst bitlen_le_iff_power) auto
  then have "exponent_of ?q \<le> 0"
    by (simp add: exponent_of_def quot Let_def bitlen_def floorlog_def)
  then obtain k where k: "exponent_of ?q = - int k" by (metis nonpos_int_cases)
  have "?q / pow2 (- int k) = of_int (n * 2 ^ k)" by (simp add: pow2_def)
  then have "round_positive ?q = of_int (n * 2 ^ k) * pow2 (- int k)"
    by (simp only: round_positive_def Let_def k half_even_of_int)
  then show ?thesis by (simp add: pow2_def)
qed

lemma round_rat_exact: "0 \<le> n \<Longrightarrow> n < 2 ^ 53 \<Longrightarrow> round_rat (of_int n) = of_int n"
  by (auto simp: round_rat_def round_positive_exact)

lemma digit_not_special:
  assumes "is_digit c"
  shows "\<not> is_space c" "c \<noteq> CHR ''-''" "c \<noteq> CHR ''+''" "c \<noteq> CHR ''.''"
    "tolower c = c" "c \<noteq> CHR ''i''" "c \<noteq> CHR ''n''" "c \<noteq> CHR ''x''"
  using assms by (auto simp: is_digit_def is_space_def tolower_def char_code_def)

lemma stod_digits:
  assumes "s \<noteq> []" and "\<And>c. c \<in> set s \<Longrightarrow> is_digit c" and "digits_value s < 2 ^ 53"
  shows "stod s = Some (Fin (of_nat (digits_value s)))"
proof -
  obtain c cs where s: "s = c # cs" using assms(1) by (cases s) auto
  have digs: "\<forall>c \<in> set s. is_digit c" using assms(2) by blast
  have c: "is_digit c" using digs s by simp
  have low: "map tolower s = s" using digs digit_not_special(5) by (simp add: map_idI)
  have hex: "\<not> starts_with s ''0x''"
    using digs digit_not_special(8) by (cases cs) (auto simp: s)
  have "takeWhile is_digit s = s" "dropWhile is_digit s = []" using digs by (simp_all add: takeWhile_eq_all_conv)
  then have "read_mantissa is_digit s = (s, [], [])" by (simp only: read_mantissa_def list.case)
  then have dec: "read_decimal s = Some (of_nat (digits_value s))"
    using assms(1) by (simp add: read_decimal_def read_exponent_def pow10_def)
  have exact: "round_rat (of_nat (digits_value s)) = of_nat (digits_value s)"
    using round_rat_exact [of "int (digits_value s)"] assms(3) by simp
  have "(of_nat (digits_value s) :: rat) < of_nat (2 ^ 53)" using assms(3) by (simp only: of_nat_less_iff)
  also have "\<dots> < 2 ^ 1024" by simp
  finally have small: "\<not> (2 ^ 1024 :: rat) \<le> of_nat (digits_value s)" by simp
  have "dropWhile is_space s = s" "hd s = c" using s digit_not_special(1) [OF c] by simp_all
  moreover have "\<not> starts_with s ''inf''" "\<not> starts_with s ''nan''"
    using s digit_not_special(6,7) [OF c] by auto
  moreover have "read_magnitude s = Some (of_nat (digits_value s))"
    by (simp only: read_magnitude_def read_hex_def low hex dec option.case not_False_eq_True if_True)
  moreover have "in_range False (of_nat (digits_value s)) = Some (Fin (of_nat (digits_value s)))"
    using small by (simp only: in_range_def Let_def exact if_False simp_thms)
  moreover have "\<not> (s \<noteq> [] \<and> c = CHR ''-'')" "\<not> (s \<noteq> [] \<and> c \<in> {CHR ''-'', CHR ''+''})"
    using digit_not_special(2,3) [OF c] by auto
  ultimately show ?thesis
    by (simp only: stod_def Let_def low if_False option.case)
qed

lemma truncate_of_int [simp]: "truncate (of_int n) = n"
  by (simp add: truncate_def)

text \<open>
  An amount quoted in whole rubles is stored exactly: for every whole number
  of rubles up to ninety trillion the postback amount is that number times 100 kopecks.
\<close>

theorem whole_rubles_exact:
  assumes "n \<le> 90000000000000"
  shows "amount_of wild (nat_to_string n) = Some (100 * int n)"
proof -
  have big: "(90000000000000 :: nat) * 100 < 2 ^ 53" by simp
  have "stod (nat_to_string n) = Some (Fin (of_nat (digits_value (nat_to_string n))))"
    using assms nat_to_string_digits by (intro stod_digits) simp_all
  then have st: "stod (nat_to_string n) = Some (Fin (of_nat n))" by simp
  have lt: "100 * int n < 2 ^ 53" using assms by simp
  then have r: "round_rat (of_int (100 * int n)) = of_int (100 * int n)"
    by (intro round_rat_exact) simp_all
  have "(of_int (100 * int n) :: rat) < of_int (2 ^ 53)" using lt by (simp only: of_int_less_iff)
  also have "\<dots> < 2 ^ 1024" by simp
  finally have "\<not> (2 ^ 1024 :: rat) \<le> \<bar>of_int (100 * int n)\<bar>" by simp
  with r have "to_dbl (of_int (100 * int n)) = Fin (of_int (100 * int n))"
    by (simp only: to_dbl_def if_False)
  moreover have "(of_nat n :: rat) * 100 = of_int (100 * int n)" by simp
  moreover have "in_int64 (100 * int n)" using lt by (simp add: in_int64_def int64_min_def int64_max_def)
  ultimately show ?thesis
    by (simp only: amount_of_def st times_hundred.simps option.map cast_int64_def dbl.case truncate_of_int if_True)
qed

theorem whole_rubles_exact_witness: "amount_of (\<lambda>_. 0) (nat_to_string 4990) = Some 499000"
  using whole_rubles_exact [of 4990 "\<lambda>_. 0"] by simp

lemma stod_19_99: "stod ''19.99'' = Some (Fin (5626684784446013 / 281474976710656))"
proof -
  have "read_decimal ''19.99'' = Some (1999 / 100)"
    by (simp add: read_decimal_def read_mantissa_def is_digit_def char_code_def digits_value_def pow10_def
        read_exponent_def)
  moreover have "read_hex ''19.99'' = None" by (simp add: read_hex_def tolower_def char_code_def)
  moreover have "round_rat (1999 / 100) = 5626684784446013 / 281474976710656" by code_simp
  then have "in_range False (1999 / 100) = Some (Fin (5626684784446013 / 281474976710656))"
    by (simp add: in_range_def pow2_def Let_def)
  ultimately show ?thesis
    by (simp add: stod_def read_magnitude_def is_space_def char_code_def tolower_def)
qed

lemma times_hundred_19_99:
  "times_hundred (Fin (5626684784446013 / 281474976710656)) = Fin (8791694975696895 / 4398046511104)"
proof -
  have "round_rat (5626684784446013 / 281474976710656 * 100) = 8791694975696895 / 4398046511104" by code_simp
  then show ?thesis by (simp add: to_dbl_def)
qed

text \<open>
  An amount with kopecks can lose one: 19.99 rubles are stored as 1998 kopecks,
  because the double nearest to 19.99 times 100 rounds to a value below 1999 and the cast
  truncates. \<open>nan\<close> is accepted as an amount and cast, which C++ leaves undefined.
\<close>

theorem kopecks_truncated:
  "amount_of wild ''19.99'' = Some 1998 \<and> amount_of wild ''nan'' = Some (wild NaN)"
proof
  have "truncate (8791694975696895 / 4398046511104) = 1998" by code_simp
  then show "amount_of wild ''19.99'' = Some 1998"
    by (simp add: amount_of_def stod_19_99 times_hundred_19_99 cast_int64_def in_int64_def int64_min_def int64_max_def
        del: times_hundred.simps)
  have "stod ''nan'' = Some NaN" by (simp add: stod_def is_space_def char_code_def tolower_def)
  then show "amount_of wild ''nan'' = Some (wild NaN)" by (simp add: amount_of_def cast_int64_def)
qed

end
