(* ===== verification/Handlers.thy ===== *)
theory Handlers
  imports Config Templating Catalog Amounts
begin

text \<open>
  The request handlers of \<open>src/handlers.hpp\<close> and \<open>src/handlers.cpp\<close>. A handler is a
  function from the context (\<open>HandlerContext\<close>) to a response, or an exception, and the
  context after it; \<open>dispatch\<close> routes, turns an exception into a 500 and adds the headers
  every response carries.

  Everything outside the sources is an argument: the libraries (\<open>web\<close>: the hash and the
  constant-time comparison of libsodium, the JSON parser, the template engine), the file
  system (\<open>file_system\<close>), the random bytes of the request (\<open>entropy\<close>) and the clock, whose
  n-th reading during the request is \<open>clock n\<close>.
\<close>

section \<open>Requests and responses\<close>

datatype verb = GetVerb | PostVerb | OtherVerb

text \<open>A header field that is absent reads as the empty string, as in Beast.\<close>

record request =
  rq_verb :: verb
  rq_target :: string
  rq_cookie :: string
  rq_user_agent :: string
  rq_referer :: string
  rq_if_none_match :: string
  rq_x_forwarded_for :: string
  rq_keep_alive :: bool
  rq_body :: string

record response =
  rs_status :: nat
  rs_headers :: "(string \<times> string) list"
  rs_body :: string

text \<open>\<open>res.set\<close> replaces every field of that name, \<open>res.insert\<close> adds one more.\<close>

definition header_set :: "string \<Rightarrow> string \<Rightarrow> response \<Rightarrow> response" where
  "header_set name v res = res\<lparr> rs_headers := filter (\<lambda>h. fst h \<noteq> name) (rs_headers res) @ [(name, v)] \<rparr>"

definition header_insert :: "string \<Rightarrow> string \<Rightarrow> response \<Rightarrow> response" where
  "header_insert name v res = res\<lparr> rs_headers := rs_headers res @ [(name, v)] \<rparr>"

definition header_values :: "response \<Rightarrow> string \<Rightarrow> string list" where
  "header_values res name = map snd (filter (\<lambda>h. fst h = name) (rs_headers res))"

definition make_response :: "nat \<Rightarrow> string \<Rightarrow> string \<Rightarrow> response" where
  "make_response st body content_type =
     header_set ''Content-Type'' content_type \<lparr> rs_status = st, rs_headers = [], rs_body = body \<rparr>"

definition text_response :: "nat \<Rightarrow> string \<Rightarrow> response" where
  "text_response st body = make_response st body ''text/plain; charset=utf-8''"

definition html_type :: string where
  "html_type = ''text/html; charset=utf-8''"

section \<open>Context\<close>

record 't web =
  web_generichash :: "nat \<Rightarrow> string \<Rightarrow> string \<Rightarrow> byte list option"
  web_memcmp :: "string \<Rightarrow> string \<Rightarrow> nat \<Rightarrow> int"
  web_json_parse :: "string \<Rightarrow> json option"
  web_render :: "'t \<Rightarrow> json \<Rightarrow> string option"
  web_wild_cast :: "dbl \<Rightarrow> int"
  web_prepare_payload :: "response \<Rightarrow> response option"
  web_keep_alive :: "bool \<Rightarrow> response \<Rightarrow> response"

record file_system =
  fs_weakly_canonical :: "string \<Rightarrow> string option"
  fs_last_write_time :: "string \<Rightarrow> int option"
  fs_file_size :: "string \<Rightarrow> nat option"
  fs_read :: "string \<Rightarrow> string option"

record entropy =
  en_anon :: "byte list"
  en_session :: "byte list"
  en_token :: "byte list"

text \<open>
  \<open>feed_cache\<close> is an \<open>unordered_map\<close>; its entries are an association list with distinct
  keys. \<open>feed_cache_for\<close> is a shared pointer, null at first.
\<close>

record 't handler_context =
  hc_cfg :: config
  hc_catalog :: catalog_handle
  hc_events :: event_queue
  hc_conversions :: conversion_queue
  hc_tpl :: "'t templating"
  hc_feed_cache_for :: "catalog_ptr option"
  hc_feed_cache :: "(string \<times> string) list"

definition new_handler_context ::
  "(string \<Rightarrow> 't option) \<Rightarrow> dir_entry list option \<Rightarrow> config \<Rightarrow> catalog_handle \<Rightarrow> event_queue \<Rightarrow>
     conversion_queue \<Rightarrow> template_error + 't handler_context" where
  "new_handler_context parse_template dir c cat ev cv =
     sum_bind (new_templating parse_template dir) (\<lambda>tpl.
       Inr \<lparr> hc_cfg = c, hc_catalog = cat, hc_events = ev, hc_conversions = cv, hc_tpl = tpl,
             hc_feed_cache_for = None, hc_feed_cache = [] \<rparr>)"

type_synonym 't handler = "'t handler_context \<Rightarrow> (template_error + response) \<times> 't handler_context"

section \<open>Identity\<close>

record identity =
  idn_anon_id :: string
  idn_session_id :: string
  idn_set_anon :: bool
  idn_set_session :: bool

definition identify :: "entropy \<Rightarrow> request \<Rightarrow> identity" where
  "identify en req =
     (let aid = cookie_value (rq_cookie req) ''aid''; sid = cookie_value (rq_cookie req) ''sid''
      in \<lparr> idn_anon_id = (if aid = [] then random_id (en_anon en) else aid),
           idn_session_id = (if sid = [] then random_id (en_session en) else sid),
           idn_set_anon = (aid = []), idn_set_session = (sid = []) \<rparr>)"

definition cookie_text :: "config \<Rightarrow> string \<Rightarrow> string \<Rightarrow> int \<Rightarrow> string" where
  "cookie_text cfg name v max_age =
     name @ ''='' @ v @ ''; Path='' @ (if cfg_base_path cfg = [] then ''/'' else cfg_base_path cfg) @
     ''; Max-Age='' @ int_to_string max_age @ ''; HttpOnly; SameSite=Lax'' @
     (if cfg_cookie_secure cfg then ''; Secure'' else [])"

definition apply_identity :: "config \<Rightarrow> identity \<Rightarrow> response \<Rightarrow> response" where
  "apply_identity cfg ident res =
     (let res1 = (if idn_set_anon ident
                  then header_insert ''Set-Cookie'' (cookie_text cfg ''aid'' (idn_anon_id ident) (cfg_anon_cookie_ttl cfg)) res
                  else res)
      in header_insert ''Set-Cookie'' (cookie_text cfg ''sid'' (idn_session_id ident) (cfg_session_idle_ttl cfg)) res1)"

section \<open>Events\<close>

text \<open>A full queue only logs a warning, so the result of the push is not used.\<close>

definition log_event :: "'t web \<Rightarrow> ts_ms \<Rightarrow> identity \<Rightarrow> request \<Rightarrow> string \<Rightarrow> event \<Rightarrow> 't handler_context \<Rightarrow> 't handler_context" where
  "log_event web now ident req client_ip ev ctx =
     (let ev' = ev\<lparr> ev_ts := now, ev_anon_id := idn_anon_id ident, ev_session_id := idn_session_id ident,
                    ev_ua_class := classify_ua (rq_user_agent req),
                    ev_ip_hash := hash_ip (web_generichash web) client_ip (cfg_ip_hash_secret (hc_cfg ctx)) \<rparr>
      in ctx\<lparr> hc_events := snd (event_push ev' (hc_events ctx)) \<rparr>)"

definition param_or :: "(string \<rightharpoonup> string) \<Rightarrow> string \<Rightarrow> string \<Rightarrow> string" where
  "param_or q name d = (case q name of None \<Rightarrow> d | Some v \<Rightarrow> v)"

definition position_param :: "(string \<rightharpoonup> string) \<Rightarrow> int option" where
  "position_param q = (case q ''p'' of None \<Rightarrow> None | Some s \<Rightarrow> map_option int32_of (parse_int s))"

section \<open>Pages\<close>

definition item_to_json :: "item \<Rightarrow> config \<Rightarrow> int \<Rightarrow> json" where
  "item_to_json it cfg position =
     json_object
       ([(''id'', JInt (it_id it)), (''title'', JString (it_title it)), (''brand'', JString (it_brand it)),
         (''price'', JInt (it_price_kopek it sdiv 100))] @
        (case it_old_price_kopek it of None \<Rightarrow> [] | Some p \<Rightarrow> [(''old_price'', JInt (p sdiv 100))]) @
        [(''tags'', JArray (map JString (it_tags it))), (''sizes'', JArray (map JString (it_sizes it))),
         (''position'', JInt position),
         (''url'', JString (cfg_base_path cfg @ ''/item/'' @ int_to_string (it_id it))),
         (''out'', JString (cfg_base_path cfg @ ''/r/'' @ int_to_string (it_id it) @ ''?p='' @ int_to_string position)),
         (''image'', JString (case it_images it of
            [] \<Rightarrow> []
          | img # _ \<Rightarrow> cfg_base_path cfg @ ''/media/'' @
                       (if img_thumb_path img = [] then img_path img else img_thumb_path img))),
         (''colors'', JArray (map (\<lambda>c. json_object [(''name'', JString (col_name c)), (''hex'', JString (col_hex c))])
            (it_colors it)))])"

text \<open>The page titles contain a dash and Cyrillic letters, written here as UTF-8 bytes.\<close>

definition feed_title :: string where
  "feed_title = ''s-size'' @
     [CHR 0x20, CHR 0xE2, CHR 0x80, CHR 0x94, CHR 0x20, CHR 0xD0, CHR 0xBE, CHR 0xD1, CHR 0x82,
      CHR 0xD0, CHR 0xBE, CHR 0xD0, CHR 0xB1, CHR 0xD1, CHR 0x80, CHR 0xD0, CHR 0xB0, CHR 0xD0,
      CHR 0xBD, CHR 0xD0, CHR 0xBD, CHR 0xD1, CHR 0x8B, CHR 0xD0, CHR 0xB5, CHR 0x20, CHR 0xD0,
      CHR 0xB2, CHR 0xD0, CHR 0xB5, CHR 0xD1, CHR 0x89, CHR 0xD0, CHR 0xB8]"

definition title_dash :: string where
  "title_dash = [CHR 0x20, CHR 0xE2, CHR 0x80, CHR 0x94, CHR 0x20]"

definition feed_data :: "config \<Rightarrow> catalog \<Rightarrow> string \<Rightarrow> string \<Rightarrow> string \<Rightarrow> json" where
  "feed_data cfg cat tag sz query =
     json_object
       [(''base'', JString (cfg_base_path cfg)), (''page_title'', JString feed_title), (''query'', JString query),
        (''metrica_counter'', JInt (cfg_metrica_counter cfg)), (''active_tag'', JString tag),
        (''active_size'', JString sz),
        (''items'', JArray (map (\<lambda>(i, it). item_to_json it cfg (int32_of (int i))) (enumerate 0 (cat_query cat tag sz 0 120)))),
        (''total'', JInt (int (cat_size cat))), (''tags'', JArray (map JString (cat_all_tags cat)))]"

definition kMaxCachedFeeds :: nat where
  "kMaxCachedFeeds = 64"

text \<open>The unit separator \<open>\x1f\<close> between the two filters.\<close>

definition feed_key :: "string \<Rightarrow> string \<Rightarrow> string" where
  "feed_key tag sz = tag @ [CHR 0x1F] @ sz"

definition cache_emplace :: "string \<Rightarrow> string \<Rightarrow> (string \<times> string) list \<Rightarrow> (string \<times> string) list" where
  "cache_emplace k v cache = (if map_of cache k = None then cache @ [(k, v)] else cache)"

text \<open>\<open>feed_cache_for != catalog\<close> compares the pointers, not the objects.\<close>

definition same_ptr :: "catalog_ptr option \<Rightarrow> catalog_ptr \<Rightarrow> bool" where
  "same_ptr p q = (case p of None \<Rightarrow> False | Some p' \<Rightarrow> cp_addr p' = cp_addr q)"

definition handle_feed :: "'t web \<Rightarrow> (string \<rightharpoonup> string) \<Rightarrow> 't handler" where
  "handle_feed web q ctx =
     (let catalog = handle_get (hc_catalog ctx);
          tag = param_or q ''tag'' []; sz = param_or q ''size'' []; query = param_or q ''q'' [];
          ctx1 = (if same_ptr (hc_feed_cache_for ctx) catalog then ctx
                  else ctx\<lparr> hc_feed_cache := [], hc_feed_cache_for := Some catalog \<rparr>);
          cacheable = (query = []);
          key = feed_key tag sz;
          hit = (if cacheable then map_of (hc_feed_cache ctx1) key else None)
      in case hit of
           Some html \<Rightarrow> (Inr (make_response 200 html html_type), ctx1)
         | None \<Rightarrow>
             (case tpl_render (web_render web) (hc_tpl ctx1) ''feed.html'' (feed_data (hc_cfg ctx1) (cp_obj catalog) tag sz query) of
                Inl e \<Rightarrow> (Inl e, ctx1)
              | Inr html \<Rightarrow>
                  (Inr (make_response 200 html html_type),
                   if cacheable \<and> length (hc_feed_cache ctx1) < kMaxCachedFeeds
                   then ctx1\<lparr> hc_feed_cache := cache_emplace key html (hc_feed_cache ctx1) \<rparr> else ctx1)))"

definition item_data :: "config \<Rightarrow> item \<Rightarrow> int option \<Rightarrow> json" where
  "item_data cfg it position =
     json_object
       [(''base'', JString (cfg_base_path cfg)), (''page_title'', JString (it_title it @ title_dash @ ''s-size'')),
        (''query'', JString []), (''metrica_counter'', JInt (cfg_metrica_counter cfg)),
        (''item'',
           json_set ''images'' (JArray (map (\<lambda>img. JString (cfg_base_path cfg @ ''/media/'' @ img_path img)) (it_images it)))
             (json_set ''description'' (JString (it_description it))
               (item_to_json it cfg (case position of None \<Rightarrow> - 1 | Some p \<Rightarrow> p))))]"

definition handle_item :: "'t web \<Rightarrow> ts_ms \<Rightarrow> identity \<Rightarrow> request \<Rightarrow> string \<Rightarrow> int \<Rightarrow> (string \<rightharpoonup> string) \<Rightarrow> 't handler" where
  "handle_item web now ident req client_ip item_id q ctx =
     (case cat_find (cp_obj (handle_get (hc_catalog ctx))) item_id of
        None \<Rightarrow> (Inr (text_response 404 ''not found''), ctx)
      | Some it \<Rightarrow>
          (let position = position_param q;
               ctx1 = log_event web now ident req client_ip
                 (event_default\<lparr> ev_type := CardClick, ev_item_id := Some item_id, ev_position := position,
                    ev_surface := param_or q ''s'' ''feed'', ev_source := visit_source q (rq_referer req) \<rparr>) ctx
           in case tpl_render (web_render web) (hc_tpl ctx1) ''item.html'' (item_data (hc_cfg ctx1) it position) of
                Inl e \<Rightarrow> (Inl e, ctx1)
              | Inr html \<Rightarrow> (Inr (make_response 200 html html_type), ctx1)))"

section \<open>The outbound redirect\<close>

definition redirect_target :: "item \<Rightarrow> partner option \<Rightarrow> string \<Rightarrow> string" where
  "redirect_target it pt token =
     (case pt of
        None \<Rightarrow> it_product_url it
      | Some p \<Rightarrow> if pt_enabled p then outbound_url it p token else it_product_url it)"

definition handle_redirect ::
  "'t web \<Rightarrow> byte list \<Rightarrow> ts_ms \<Rightarrow> identity \<Rightarrow> request \<Rightarrow> string \<Rightarrow> int \<Rightarrow> (string \<rightharpoonup> string) \<Rightarrow> 't handler" where
  "handle_redirect web raw now ident req client_ip item_id q ctx =
     (let catalog = cp_obj (handle_get (hc_catalog ctx))
      in case cat_find catalog item_id of
           None \<Rightarrow> (Inr (text_response 404 ''not found''), ctx)
         | Some it \<Rightarrow>
             (let pt = cat_partner catalog (it_partner_id it);
                  token = make_click_token raw;
                  ctx1 = log_event web now ident req client_ip
                    (event_default\<lparr> ev_type := Outbound, ev_item_id := Some item_id, ev_position := position_param q,
                       ev_surface := param_or q ''s'' ''feed'', ev_click_token := token,
                       ev_source := visit_source q (rq_referer req) \<rparr>) ctx
              in (Inr (header_set ''Referrer-Policy'' ''no-referrer''
                        (header_set ''Cache-Control'' ''no-store''
                          (header_set ''Location'' (redirect_target it pt token)
                            \<lparr> rs_status = 302, rs_headers = [], rs_body = [] \<rparr>))), ctx1)))"

section \<open>Files\<close>

text \<open>
  \<open>dir / path(rel).relative_path()\<close>: the root directory, any number of leading slashes, is
  dropped, and the rest of the pathname is taken over as it is written, repeated slashes
  included; \<open>weakly_canonical\<close>, a parameter, normalises the result.
\<close>

definition append_path :: "string \<Rightarrow> string \<Rightarrow> string" where
  "append_path dir rel =
     (let rel' = dropWhile (\<lambda>c. c = CHR ''/'') rel
      in if dir = [] \<or> last dir = CHR ''/'' then dir @ rel' else dir @ ''/'' @ rel')"

definition path_filename :: "string \<Rightarrow> string" where
  "path_filename p = rev (takeWhile (\<lambda>c. c \<noteq> CHR ''/'') (rev p))"

definition path_extension :: "string \<Rightarrow> string" where
  "path_extension p =
     (let name = path_filename p; stem_rev = dropWhile (\<lambda>c. c \<noteq> CHR ''.'') (rev name)
      in if name = ''..'' \<or> length stem_rev \<le> 1 then []
         else CHR ''.'' # rev (takeWhile (\<lambda>c. c \<noteq> CHR ''.'') (rev name)))"

definition mime_type :: "string \<Rightarrow> string" where
  "mime_type ext =
     (if ext = ''.css'' then ''text/css; charset=utf-8''
      else if ext = ''.js'' then ''application/javascript; charset=utf-8''
      else if ext = ''.svg'' then ''image/svg+xml''
      else if ext = ''.webp'' then ''image/webp''
      else if ext = ''.avif'' then ''image/avif''
      else if ext = ''.png'' then ''image/png''
      else if ext = ''.jpg'' \<or> ext = ''.jpeg'' then ''image/jpeg''
      else ''application/octet-stream'')"

text \<open>
  Both pairs of file system calls share one \<open>error_code\<close>, and a successful call clears it: the
  code tested after the pair is that of the second call. A failed \<open>weakly_canonical\<close>
  returns the empty path, a failed \<open>last_write_time\<close> the smallest time.
\<close>

definition file_etag :: "file_system \<Rightarrow> string \<Rightarrow> string" where
  "file_etag fs path =
     (let mtime = (case fs_last_write_time fs path of None \<Rightarrow> int64_min | Some t \<Rightarrow> t)
      in case fs_file_size fs path of
           None \<Rightarrow> []
         | Some n \<Rightarrow> [CHR 0x22] @ int_to_string mtime @ ''-'' @ nat_to_string n @ [CHR 0x22])"

definition handle_file :: "file_system \<Rightarrow> request \<Rightarrow> string \<Rightarrow> string \<Rightarrow> response" where
  "handle_file fs req dir rel =
     (if contains rel ''..'' then text_response 403 ''forbidden''
      else let canonical_root = (case fs_weakly_canonical fs dir of None \<Rightarrow> [] | Some p \<Rightarrow> p)
           in case fs_weakly_canonical fs (append_path dir rel) of
                None \<Rightarrow> text_response 403 ''forbidden''
              | Some path \<Rightarrow>
                  if \<not> starts_with path canonical_root then text_response 403 ''forbidden''
                  else let etag = file_etag fs path
                       in if etag \<noteq> [] \<and> rq_if_none_match req = etag
                          then header_set ''Cache-Control'' ''no-cache''
                                 (header_set ''ETag'' etag \<lparr> rs_status = 304, rs_headers = [], rs_body = [] \<rparr>)
                          else case fs_read fs path of
                                 None \<Rightarrow> text_response 404 ''not found''
                               | Some body \<Rightarrow>
                                   let res = header_set ''Cache-Control'' ''no-cache''
                                         (make_response 200 body (mime_type (path_extension path)))
                                   in if etag \<noteq> [] then header_set ''ETag'' etag res else res)"

section \<open>Postbacks\<close>

definition handle_postback :: "'t web \<Rightarrow> ts_ms \<Rightarrow> (string \<rightharpoonup> string) \<Rightarrow> 't handler_context \<Rightarrow> response \<times> 't handler_context" where
  "handle_postback web now q ctx =
     (let secret = cfg_postback_secret (hc_cfg ctx)
      in if secret = [] then (text_response 503 ''not configured'', ctx)
         else if (case q ''sign'' of
                    None \<Rightarrow> True
                  | Some sign \<Rightarrow> length sign \<noteq> length secret \<or> web_memcmp web sign secret (length secret) \<noteq> 0)
           then (text_response 403 ''bad signature'', ctx)
         else case q ''subid'' of
                None \<Rightarrow> (text_response 400 ''missing subid'', ctx)
              | Some subid \<Rightarrow>
                  if subid = [] then (text_response 400 ''missing subid'', ctx)
                  else case (case q ''amount'' of
                               None \<Rightarrow> Some None
                             | Some text \<Rightarrow> map_option Some (amount_of (web_wild_cast web) text)) of
                         None \<Rightarrow> (text_response 400 ''bad amount'', ctx)
                       | Some amount \<Rightarrow>
                           let conv = conversion_default\<lparr> cv_click_token := subid, cv_ts := now,
                                 cv_order_ref := param_or q ''order'' [], cv_status := param_or q ''status'' ''pending'',
                                 cv_amount := amount \<rparr>
                           in if cv_status conv \<noteq> ''pending'' \<and> cv_status conv \<noteq> ''approved'' \<and> cv_status conv \<noteq> ''rejected''
                              then (text_response 400 ''bad status'', ctx)
                              else (text_response 200 ''ok'',
                                    ctx\<lparr> hc_conversions := snd (conversion_push conv (hc_conversions ctx)) \<rparr>))"

section \<open>Beacons\<close>

definition kMaxBatch :: nat where
  "kMaxBatch = 200"

text \<open>
  One element of the batch: \<open>get<std::int64_t>\<close> and \<open>get<int>\<close> convert an integer that does
  not fit by wrapping. \<open>None\<close> is \<open>continue\<close>.
\<close>

definition beacon_event :: "json \<Rightarrow> event option" where
  "beacon_event e =
     (case e of
        JObject ms \<Rightarrow>
          (case json_get e ''item'' of
             Some (JInt i) \<Rightarrow>
               Some (event_default\<lparr> ev_type := Impression, ev_item_id := Some (int64_of i),
                 ev_position := (case json_get e ''p'' of Some (JInt p) \<Rightarrow> Some (int32_of p) | _ \<Rightarrow> None),
                 ev_surface := (case json_get e ''s'' of Some (JString s) \<Rightarrow> s | _ \<Rightarrow> []) \<rparr>)
           | _ \<Rightarrow> None)
      | _ \<Rightarrow> None)"

fun beacon_loop ::
  "'t web \<Rightarrow> (nat \<Rightarrow> ts_ms) \<Rightarrow> identity \<Rightarrow> request \<Rightarrow> string \<Rightarrow> json list \<Rightarrow> nat \<Rightarrow> 't handler_context \<Rightarrow> 't handler_context" where
  "beacon_loop web clock ident req client_ip [] accepted ctx = ctx"
| "beacon_loop web clock ident req client_ip (e # es) accepted ctx =
     (if kMaxBatch \<le> accepted then ctx
      else case beacon_event e of
             None \<Rightarrow> beacon_loop web clock ident req client_ip es accepted ctx
           | Some ev \<Rightarrow>
               beacon_loop web clock ident req client_ip es (accepted + 1)
                 (log_event web (clock accepted) ident req client_ip ev ctx))"

definition handle_beacon ::
  "'t web \<Rightarrow> (nat \<Rightarrow> ts_ms) \<Rightarrow> identity \<Rightarrow> request \<Rightarrow> string \<Rightarrow> 't handler_context \<Rightarrow> response \<times> 't handler_context" where
  "handle_beacon web clock ident req client_ip ctx =
     (case web_json_parse web (rq_body req) of
        None \<Rightarrow> (text_response 400 ''bad json'', ctx)
      | Some (JArray es) \<Rightarrow> (text_response 204 [], beacon_loop web clock ident req client_ip es 0 ctx)
      | Some _ \<Rightarrow> (text_response 400 ''expected array'', ctx))"

section \<open>Dispatch\<close>

text \<open>The path after the deployment prefix.\<close>

definition route_path :: "string \<Rightarrow> string \<Rightarrow> string" where
  "route_path base path =
     (let p = (if base \<noteq> [] \<and> starts_with path base then drop (length base) path else path)
      in if p = [] then ''/'' else p)"

definition route ::
  "'t web \<Rightarrow> file_system \<Rightarrow> entropy \<Rightarrow> (nat \<Rightarrow> ts_ms) \<Rightarrow> identity \<Rightarrow> request \<Rightarrow> string \<Rightarrow> 't handler" where
  "route web fs en clock ident req client_ip ctx =
     (let t = split_target (rq_target req);
          q = parse_query (tg_query t);
          p = route_path (cfg_base_path (hc_cfg ctx)) (tg_path t);
          is_get = (rq_verb req = GetVerb)
      in if is_get \<and> p = ''/'' then handle_feed web q ctx
         else if is_get \<and> starts_with p ''/item/'' then
           (case parse_int (drop 6 p) of
              Some i \<Rightarrow> handle_item web (clock 0) ident req client_ip i q ctx
            | None \<Rightarrow> (Inr (text_response 400 ''bad id''), ctx))
         else if is_get \<and> starts_with p ''/r/'' then
           (case parse_int (drop 3 p) of
              Some i \<Rightarrow> handle_redirect web (en_token en) (clock 0) ident req client_ip i q ctx
            | None \<Rightarrow> (Inr (text_response 400 ''bad id''), ctx))
         else if is_get \<and> starts_with p ''/static/'' then
           (Inr (handle_file fs req (cfg_static_dir (hc_cfg ctx)) (drop 8 p)), ctx)
         else if is_get \<and> starts_with p ''/media/'' then
           (Inr (handle_file fs req (cfg_media_root (hc_cfg ctx)) (drop 7 p)), ctx)
         else if rq_verb req = PostVerb \<and> p = ''/api/ev'' then
           (case handle_beacon web clock ident req client_ip ctx of (res, ctx') \<Rightarrow> (Inr res, ctx'))
         else if is_get \<and> p = ''/cpa/postback'' then
           (case handle_postback web (clock 0) q ctx of (res, ctx') \<Rightarrow> (Inr res, ctx'))
         else if is_get \<and> p = ''/healthz'' then (Inr (text_response 200 ''ok''), ctx)
         else (Inr (text_response 404 ''not found''), ctx))"

definition finish_response :: "config \<Rightarrow> identity \<Rightarrow> response \<Rightarrow> response" where
  "finish_response cfg ident res =
     (let res1 = header_set ''Server'' ''ssize'' (apply_identity cfg ident res)
      in if header_values res1 ''Cache-Control'' = [] then header_set ''Cache-Control'' ''no-store'' res1 else res1)"

definition dispatch ::
  "'t web \<Rightarrow> file_system \<Rightarrow> entropy \<Rightarrow> (nat \<Rightarrow> ts_ms) \<Rightarrow> request \<Rightarrow> string \<Rightarrow> 't handler_context \<Rightarrow> response \<times> 't handler_context" where
  "dispatch web fs en clock req client_ip ctx =
     (let ident = identify en req
      in case route web fs en clock ident req client_ip ctx of
           (r, ctx') \<Rightarrow>
             (finish_response (hc_cfg ctx') ident
                (case r of Inr res \<Rightarrow> res | Inl e \<Rightarrow> text_response 500 ''internal error''), ctx'))"

end
