(* ===== verification/Handlers_Facts.thy ===== *)
theory Handlers_Facts
  imports Handlers
begin

text \<open>
  Properties of the request handlers: what every response carries, the outbound redirect
  and the links that lead to it, the identity cookies, postbacks, beacons and files. The
  feed page and its cache are in \<open>Feed_Cache\<close>.
\<close>

section \<open>Headers\<close>

named_theorems header_simps \<open>reading headers after writing them\<close>

lemma header_values_set [header_simps]:
  "header_values (header_set n v res) m = (if m = n then [v] else header_values res m)"
  by (auto simp: header_values_def header_set_def filter_filter intro!: arg_cong [where f = "map snd"] filter_cong)

lemma header_values_insert [header_simps]:
  "header_values (header_insert n v res) m = header_values res m @ (if m = n then [v] else [])"
  by (simp add: header_values_def header_insert_def)

lemma header_values_empty [header_simps]: "header_values \<lparr> rs_status = s, rs_headers = [], rs_body = b \<rparr> m = []"
  by (simp add: header_values_def)

lemma header_keeps [simp]:
  "rs_status (header_set n v res) = rs_status res" "rs_body (header_set n v res) = rs_body res"
  "rs_status (header_insert n v res) = rs_status res" "rs_body (header_insert n v res) = rs_body res"
  by (simp_all add: header_set_def header_insert_def)

lemma make_response_simps [simp]:
  "rs_status (make_response s b t) = s" "rs_body (make_response s b t) = b"
  "rs_status (text_response s b) = s" "rs_body (text_response s b) = b"
  by (simp_all add: make_response_def text_response_def)

lemma header_values_make [header_simps]:
  "header_values (make_response s b t) m = (if m = ''Content-Type'' then [t] else [])"
  "header_values (text_response s b) m = (if m = ''Content-Type'' then [''text/plain; charset=utf-8''] else [])"
  by (simp_all add: make_response_def text_response_def header_simps)

section \<open>What handlers return\<close>

definition handled_statuses :: "nat set" where
  "handled_statuses = {200, 204, 302, 304, 400, 403, 404, 503}"

text \<open>
  A response as a handler builds it: a documented status, no cookies, no server name,
  at most one \<open>Cache-Control\<close>, and no body with a status that does not take one.
\<close>

definition plain_response :: "response \<Rightarrow> bool" where
  "plain_response res \<longleftrightarrow> rs_status res \<in> handled_statuses \<and> header_values res ''Set-Cookie'' = [] \<and>
     header_values res ''Server'' = [] \<and> length (header_values res ''Cache-Control'') \<le> 1 \<and>
     (rs_status res \<in> {204, 304} \<longrightarrow> rs_body res = [])"

lemma plain_text [simp]: "plain_response (text_response s b) \<longleftrightarrow> s \<in> handled_statuses \<and> (s \<in> {204, 304} \<longrightarrow> b = [])"
  by (simp add: plain_response_def header_simps)

lemma plain_make [simp]: "plain_response (make_response s b t) \<longleftrightarrow> s \<in> handled_statuses \<and> (s \<in> {204, 304} \<longrightarrow> b = [])"
  by (simp add: plain_response_def header_simps)

lemma handled_statuses_iff [simp]:
  "s \<in> handled_statuses \<longleftrightarrow> s = 200 \<or> s = 204 \<or> s = 302 \<or> s = 304 \<or> s = 400 \<or> s = 403 \<or> s = 404 \<or> s = 503"
  by (simp add: handled_statuses_def)

text \<open>What no handler changes.\<close>

definition same_setup :: "'t handler_context \<Rightarrow> 't handler_context \<Rightarrow> bool" where
  "same_setup ctx ctx' \<longleftrightarrow> hc_cfg ctx' = hc_cfg ctx \<and> hc_catalog ctx' = hc_catalog ctx \<and> hc_tpl ctx' = hc_tpl ctx"

lemma log_event_simps [simp]:
  "hc_cfg (log_event web now ident req ip ev ctx) = hc_cfg ctx"
  "hc_catalog (log_event web now ident req ip ev ctx) = hc_catalog ctx"
  "hc_tpl (log_event web now ident req ip ev ctx) = hc_tpl ctx"
  "hc_conversions (log_event web now ident req ip ev ctx) = hc_conversions ctx"
  "hc_feed_cache (log_event web now ident req ip ev ctx) = hc_feed_cache ctx"
  "hc_feed_cache_for (log_event web now ident req ip ev ctx) = hc_feed_cache_for ctx"
  by (simp_all add: log_event_def Let_def)

lemma beacon_loop_simps [simp]:
  "hc_cfg (beacon_loop web clock ident req ip es n ctx) = hc_cfg ctx"
  "hc_catalog (beacon_loop web clock ident req ip es n ctx) = hc_catalog ctx"
  "hc_tpl (beacon_loop web clock ident req ip es n ctx) = hc_tpl ctx"
  "hc_conversions (beacon_loop web clock ident req ip es n ctx) = hc_conversions ctx"
  "hc_feed_cache (beacon_loop web clock ident req ip es n ctx) = hc_feed_cache ctx"
  "hc_feed_cache_for (beacon_loop web clock ident req ip es n ctx) = hc_feed_cache_for ctx"
  by (induction es arbitrary: n ctx) (simp_all split: option.split)

lemma handle_feed_plain:
  "handle_feed web q ctx = (r, ctx') \<Longrightarrow> (\<forall>res. r = Inr res \<longrightarrow> plain_response res) \<and> same_setup ctx ctx'"
  by (auto simp: handle_feed_def Let_def same_setup_def split: option.splits sum.splits if_splits)

lemma handle_item_plain:
  "handle_item web now ident req ip i q ctx = (r, ctx') \<Longrightarrow>
     (\<forall>res. r = Inr res \<longrightarrow> plain_response res) \<and> same_setup ctx ctx'"
  by (auto simp: handle_item_def Let_def same_setup_def split: option.splits sum.splits)

lemma handle_redirect_plain:
  "handle_redirect web raw now ident req ip i q ctx = (r, ctx') \<Longrightarrow>
     (\<forall>res. r = Inr res \<longrightarrow> plain_response res) \<and> same_setup ctx ctx'"
  by (auto simp: handle_redirect_def Let_def same_setup_def plain_response_def header_simps split: option.splits)

lemma handle_file_plain: "plain_response (handle_file fs req dir rel)"
  unfolding handle_file_def Let_def
  by (auto simp: plain_response_def header_simps split: option.split)

lemma handle_postback_plain:
  "handle_postback web now q ctx = (res, ctx') \<Longrightarrow> plain_response res \<and> same_setup ctx ctx'"
  by (auto simp: handle_postback_def Let_def same_setup_def split: option.splits if_splits)

lemma handle_beacon_plain:
  "handle_beacon web clock ident req ip ctx = (res, ctx') \<Longrightarrow> plain_response res \<and> same_setup ctx ctx'"
  by (auto simp: handle_beacon_def same_setup_def split: option.splits json.splits)

lemmas handlers_plain = handle_feed_plain handle_item_plain handle_redirect_plain
  handle_postback_plain handle_beacon_plain

lemma same_setup_refl [simp]: "same_setup ctx ctx"
  by (simp add: same_setup_def)

lemma route_plain:
  assumes "route web fs en clock ident req ip ctx = (r, ctx')"
  shows "(\<forall>res. r = Inr res \<longrightarrow> plain_response res) \<and> same_setup ctx ctx'"
  using assms unfolding route_def Let_def
  by (auto split: if_splits option.splits prod.splits dest: handlers_plain intro: handle_file_plain)

section \<open>Every response\<close>

lemma finish_response_headers:
  "header_values (finish_response cfg ident res) m =
     (let mine = header_values res m @
        (if m = ''Set-Cookie''
         then (if idn_set_anon ident then [cookie_text cfg ''aid'' (idn_anon_id ident) (cfg_anon_cookie_ttl cfg)] else []) @
              [cookie_text cfg ''sid'' (idn_session_id ident) (cfg_session_idle_ttl cfg)]
         else [])
      in if m = ''Server'' then [''ssize'']
         else if m = ''Cache-Control'' \<and> header_values res m = [] then [''no-store''] else mine)"
  by (cases "m = ''Cache-Control''") (auto simp: finish_response_def apply_identity_def Let_def header_simps)

lemma finish_response_keeps [simp]:
  "rs_status (finish_response cfg ident res) = rs_status res" "rs_body (finish_response cfg ident res) = rs_body res"
  by (simp_all add: finish_response_def apply_identity_def Let_def)

lemma dispatch_cases:
  assumes "dispatch web fs en clock req ip ctx = (res, ctx')"
  obtains r body where "route web fs en clock (identify en req) req ip ctx = (r, ctx')"
    "body = (case r of Inr b \<Rightarrow> b | Inl e \<Rightarrow> text_response 500 ''internal error'')"
    "res = finish_response (hc_cfg ctx) (identify en req) body"
    "rs_status body \<in> insert 500 handled_statuses" "header_values body ''Set-Cookie'' = []"
    "length (header_values body ''Cache-Control'') \<le> 1" "same_setup ctx ctx'"
    "rs_status body \<in> {204, 304} \<longrightarrow> rs_body body = []"
proof -
  obtain r ctx1 where r: "route web fs en clock (identify en req) req ip ctx = (r, ctx1)" by fastforce
  note plain = route_plain [OF r]
  from assms r have "ctx1 = ctx'" and res: "res = finish_response (hc_cfg ctx') (identify en req)
      (case r of Inr b \<Rightarrow> b | Inl e \<Rightarrow> text_response 500 ''internal error'')"
    by (auto simp: dispatch_def Let_def)
  with r plain show ?thesis
    by (intro that [OF _ refl]) (auto simp: same_setup_def plain_response_def header_simps split: sum.splits)
qed

text \<open>Beast refuses to send a body with 204 or 304; no response of the program has one.\<close>

lemma dispatch_payload:
  assumes "dispatch web fs en clock req ip ctx = (res, ctx')"
  shows "rs_status res \<in> {200, 204, 302, 304, 400, 403, 404, 500, 503}" and "rs_status res \<in> {204, 304} \<longrightarrow> rs_body res = []"
proof -
  from assms obtain body where "res = finish_response (hc_cfg ctx) (identify en req) body"
    "rs_status body \<in> insert 500 handled_statuses" "rs_status body \<in> {204, 304} \<longrightarrow> rs_body body = []"
    by (rule dispatch_cases)
  then show "rs_status res \<in> {200, 204, 302, 304, 400, 403, 404, 500, 503}" "rs_status res \<in> {204, 304} \<longrightarrow> rs_body res = []"
    by auto
qed

text \<open>
  \<^bold>\<open>C24.\<close> Whatever the request and whatever a handler does, exceptions included,
  \<open>dispatch\<close> returns a response with one of the documented status codes, exactly one
  \<open>Server\<close> and one \<open>Cache-Control\<close> field, the sliding session cookie, and the device cookie
  exactly when the client sent none; the configuration, the catalog handle and the templates
  are never changed by a request.
\<close>

theorem dispatch_envelope:
  assumes "dispatch web fs en clock req ip ctx = (res, ctx')"
  shows "rs_status res \<in> {200, 204, 302, 304, 400, 403, 404, 500, 503} \<and>
    header_values res ''Server'' = [''ssize''] \<and> length (header_values res ''Cache-Control'') = 1 \<and>
    header_values res ''Set-Cookie'' =
      (if cookie_value (rq_cookie req) ''aid'' = []
       then [cookie_text (hc_cfg ctx) ''aid'' (random_id (en_anon en)) (cfg_anon_cookie_ttl (hc_cfg ctx))] else []) @
      [cookie_text (hc_cfg ctx) ''sid'' (idn_session_id (identify en req)) (cfg_session_idle_ttl (hc_cfg ctx))] \<and>
    hc_cfg ctx' = hc_cfg ctx \<and> hc_catalog ctx' = hc_catalog ctx \<and> hc_tpl ctx' = hc_tpl ctx"
proof -
  from assms obtain body where res: "res = finish_response (hc_cfg ctx) (identify en req) body"
    and body: "rs_status body \<in> insert 500 handled_statuses" "header_values body ''Set-Cookie'' = []"
      "length (header_values body ''Cache-Control'') \<le> 1" and same: "same_setup ctx ctx'"
    by (rule dispatch_cases)
  have "length (header_values res ''Cache-Control'') = 1"
    using body(3) by (cases "header_values body ''Cache-Control''") (simp_all add: res finish_response_headers Let_def)
  with body same show ?thesis
    by (auto simp: res finish_response_headers Let_def same_setup_def identify_def)
qed

definition sample_web :: "nat web" where
  "sample_web = \<lparr> web_generichash = toy_generichash,
     web_memcmp = (\<lambda>a b n. if take n a = take n b then 0 else - 1),
     web_json_parse = (\<lambda>s. if s = ''[{item:7,p:2},1]''
        then Some (JArray [JObject [(''item'', JInt 7), (''p'', JInt 2)], JInt 1]) else None),
     web_render = (\<lambda>t data. Some ''page''), web_wild_cast = (\<lambda>_. 0),
     web_prepare_payload = (\<lambda>res. if rs_body res \<noteq> [] \<and> (rs_status res < 200 \<or> rs_status res \<in> {204, 304}) then None
        else Some (header_set ''Content-Length'' (nat_to_string (length (rs_body res))) res)),
     web_keep_alive = (\<lambda>keep res. if keep then res else header_set ''Connection'' ''close'' res) \<rparr>"

definition sample_fs :: file_system where
  "sample_fs = \<lparr> fs_weakly_canonical = Some, fs_last_write_time = (\<lambda>_. Some 5), fs_file_size = (\<lambda>_. Some 3),
     fs_read = (\<lambda>_. Some ''css'') \<rparr>"

definition sample_partner :: partner where
  "sample_partner = \<lparr> pt_id = 1, pt_code = ''admitad'', pt_title = [],
     pt_link_template = ''https://ad/{campaign}/?subid={subid}&ulp={url_enc}'', pt_enabled = True \<rparr>"

definition sample_catalog :: catalog where
  "sample_catalog = make_catalog 0
     [(sample_item 7 0 0)\<lparr> it_partner_id := 1, it_product_url := ''https://s/7'', it_campaign := ''c9'' \<rparr>] [sample_partner]"

definition sample_context :: "nat handler_context" where
  "sample_context = \<lparr> hc_cfg = config_default\<lparr> cfg_ip_hash_secret := ''s'', cfg_postback_secret := ''pw'' \<rparr>,
     hc_catalog = \<lparr> ch_ptr = \<lparr> cp_addr = 1, cp_obj = sample_catalog \<rparr> \<rparr>, hc_events = new_event_queue 10,
     hc_conversions = new_conversion_queue, hc_tpl = \<lparr> tp_cache = (\<lambda>_. Some 0) \<rparr>,
     hc_feed_cache_for = None, hc_feed_cache = [] \<rparr>"

definition sample_request :: "string \<Rightarrow> request" where
  "sample_request t = \<lparr> rq_verb = GetVerb, rq_target = t, rq_cookie = [], rq_user_agent = [], rq_referer = [],
     rq_if_none_match = [], rq_x_forwarded_for = [], rq_keep_alive = True, rq_body = [] \<rparr>"

definition sample_entropy :: entropy where
  "sample_entropy = \<lparr> en_anon = replicate 16 1, en_session = replicate 16 2, en_token = replicate 12 3 \<rparr>"

theorem dispatch_envelope_witness:
  "header_values (fst (dispatch sample_web sample_fs sample_entropy (\<lambda>_. 0) (sample_request ''/r/99'') ''::1'' sample_context))
     ''Server'' = [''ssize'']"
  using dispatch_envelope [of sample_web sample_fs sample_entropy "\<lambda>_. 0" "sample_request ''/r/99''" "''::1''" sample_context]
  by (metis prod.collapse)

section \<open>Identity\<close>

lemma no_semicolon_random_id: "length raw = 16 \<Longrightarrow> CHR '';'' \<notin> set (random_id raw)"
  using random_id_chars [of raw] by (auto simp: kHex_def)

lemma random_id_nonempty: "length raw = 16 \<Longrightarrow> random_id raw \<noteq> []"
  using random_id_length [of raw] by force

lemma identity_facts:
  assumes "length (en_anon en) = 16" and "length (en_session en) = 16"
  shows "idn_anon_id (identify en req) \<noteq> []" "CHR '';'' \<notin> set (idn_anon_id (identify en req))"
    "idn_session_id (identify en req) \<noteq> []" "CHR '';'' \<notin> set (idn_session_id (identify en req))"
  using assms
  by (simp_all add: identify_def Let_def no_semicolon_random_id random_id_nonempty cookie_value_no_semicolon)

text \<open>
  \<^bold>\<open>C34.\<close> A visitor keeps their identity: the ids a request was given, sent back by the
  browser as cookies, among any others of different names, are the ids of the next request,
  whatever random bytes that request would have drawn, and no new device id is issued.
\<close>

theorem identity_sticks:
  assumes "length (en_anon en) = 16" and "length (en_session en) = 16" and "ident = identify en req"
    and "rq_cookie req' = cookie_header (others @ [(''aid'', idn_anon_id ident), (''sid'', idn_session_id ident)])"
    and "\<forall>c \<in> set others. cookie_ok c \<and> fst c \<noteq> ''aid'' \<and> fst c \<noteq> ''sid''"
  shows "identify en' req' = \<lparr> idn_anon_id = idn_anon_id ident, idn_session_id = idn_session_id ident,
    idn_set_anon = False, idn_set_session = False \<rparr>"
proof -
  let ?cs = "others @ [(''aid'', idn_anon_id ident), (''sid'', idn_session_id ident)]"
  note facts = identity_facts [OF assms(1,2), of req]
  have ok: "\<forall>c \<in> set ?cs. cookie_ok c" using assms(3,5) facts by auto
  have "map_of others ''aid'' = None" "map_of others ''sid'' = None" using assms(5) by (auto simp: map_of_eq_None_iff)
  then have look: "map_of ?cs ''aid'' = Some (idn_anon_id ident)" "map_of ?cs ''sid'' = Some (idn_session_id ident)"
    by (auto simp: map_add_def)
  then have "cookie_value (rq_cookie req') ''aid'' = idn_anon_id ident"
    "cookie_value (rq_cookie req') ''sid'' = idn_session_id ident"
    unfolding assms(4) cookie_value_header [OF ok] look by simp_all
  with assms(3) facts show ?thesis by (simp add: identify_def Let_def)
qed

theorem identity_sticks_witness:
  "identify \<lparr> en_anon = [], en_session = [], en_token = [] \<rparr>
     ((sample_request ''/'')\<lparr> rq_cookie := cookie_header [(''x'', ''1''),
        (''aid'', random_id (replicate 16 1)), (''sid'', random_id (replicate 16 2))] \<rparr>) =
   \<lparr> idn_anon_id = random_id (replicate 16 1), idn_session_id = random_id (replicate 16 2),
     idn_set_anon = False, idn_set_session = False \<rparr>"
proof -
  have ident: "\<lparr> idn_anon_id = random_id (replicate 16 1), idn_session_id = random_id (replicate 16 2),
      idn_set_anon = True, idn_set_session = True \<rparr> = identify sample_entropy (sample_request ''/'')"
    by (simp add: sample_entropy_def sample_request_def identify_def Let_def)
  have len: "length (en_anon sample_entropy) = 16" "length (en_session sample_entropy) = 16"
    by (simp_all add: sample_entropy_def)
  show ?thesis
    by (subst identity_sticks [OF len ident, of _ "[(''x'', ''1'')]"]) simp_all
qed

end
