(* ===== verification/Feed_Cache.thy ===== *)
theory Feed_Cache
  imports Handlers_Facts
begin

text \<open>
  The cache of rendered feed pages in \<open>handle_feed\<close>: it is bounded, it never serves a page of
  an old snapshot, and with filters free of the separator character a cached page is the page
  that would have been rendered. The invariant is kept by every handler.
\<close>

section \<open>The invariant\<close>

text \<open>The page without a cache.\<close>

definition fresh_page :: "'t web \<Rightarrow> 't handler_context \<Rightarrow> catalog \<Rightarrow> string \<Rightarrow> string \<Rightarrow> string \<Rightarrow> template_error + string" where
  "fresh_page web ctx cat tag sz query =
     tpl_render (web_render web) (hc_tpl ctx) ''feed.html'' (feed_data (hc_cfg ctx) cat tag sz query)"

definition entry_ok :: "'t web \<Rightarrow> 't handler_context \<Rightarrow> catalog \<Rightarrow> string \<times> string \<Rightarrow> bool" where
  "entry_ok web ctx cat entry \<longleftrightarrow>
     (\<exists>tag sz. fst entry = feed_key tag sz \<and> fresh_page web ctx cat tag sz [] = Inr (snd entry))"

definition cache_inv :: "'t web \<Rightarrow> 't handler_context \<Rightarrow> bool" where
  "cache_inv web ctx \<longleftrightarrow> length (hc_feed_cache ctx) \<le> kMaxCachedFeeds \<and> distinct (map fst (hc_feed_cache ctx)) \<and>
     (case hc_feed_cache_for ctx of
        None \<Rightarrow> hc_feed_cache ctx = []
      | Some p \<Rightarrow> list_all (entry_ok web ctx (cp_obj p)) (hc_feed_cache ctx))"

text \<open>
  An address names one snapshot as long as somebody holds it, which the shared pointer in
  the context does.
\<close>

definition pointers_ok :: "'t handler_context \<Rightarrow> bool" where
  "pointers_ok ctx \<longleftrightarrow>
     (case hc_feed_cache_for ctx of
        None \<Rightarrow> True
      | Some p \<Rightarrow> cp_addr p = cp_addr (handle_get (hc_catalog ctx)) \<longrightarrow> p = handle_get (hc_catalog ctx))"

lemma entry_ok_cong:
  "hc_tpl ctx' = hc_tpl ctx \<Longrightarrow> hc_cfg ctx' = hc_cfg ctx \<Longrightarrow> entry_ok web ctx' cat e = entry_ok web ctx cat e"
  by (simp add: entry_ok_def fresh_page_def)

lemma cache_update_irrelevant [simp]:
  "entry_ok web (ctx\<lparr> hc_feed_cache := x \<rparr>) = entry_ok web ctx"
  "pointers_ok (ctx\<lparr> hc_feed_cache := x \<rparr>) = pointers_ok ctx"
  by (simp_all add: entry_ok_def fresh_page_def pointers_ok_def fun_eq_iff split: option.split)

lemma cache_inv_cong:
  assumes "same_setup ctx ctx'" and "hc_feed_cache ctx' = hc_feed_cache ctx" and "hc_feed_cache_for ctx' = hc_feed_cache_for ctx"
  shows "cache_inv web ctx' = cache_inv web ctx" and "pointers_ok ctx' = pointers_ok ctx"
proof -
  from assms(1) have "entry_ok web ctx' cat = entry_ok web ctx cat" for cat
    by (intro ext entry_ok_cong) (simp_all add: same_setup_def)
  with assms show "cache_inv web ctx' = cache_inv web ctx" "pointers_ok ctx' = pointers_ok ctx"
    by (simp_all add: cache_inv_def pointers_ok_def same_setup_def split: option.split)
qed

lemma feed_key_inj:
  assumes "CHR 0x1F \<notin> set tag" and "CHR 0x1F \<notin> set sz"
  shows "feed_key tag sz = feed_key tag' sz' \<longleftrightarrow> tag' = tag \<and> sz' = sz"
  using append_Cons_eq_iff [OF assms, of tag' sz'] by (auto simp: feed_key_def)

section \<open>The handler\<close>

definition current_page :: "'t web \<Rightarrow> (string \<rightharpoonup> string) \<Rightarrow> 't handler_context \<Rightarrow> template_error + string" where
  "current_page web q ctx = fresh_page web ctx (cp_obj (handle_get (hc_catalog ctx)))
     (param_or q ''tag'' []) (param_or q ''size'' []) (param_or q ''q'' [])"

text \<open>The context after the snapshot check: the cache now belongs to the current snapshot.\<close>

definition revalidated :: "'t handler_context \<Rightarrow> 't handler_context" where
  "revalidated ctx =
     (if same_ptr (hc_feed_cache_for ctx) (handle_get (hc_catalog ctx)) then ctx
      else ctx\<lparr> hc_feed_cache := [], hc_feed_cache_for := Some (handle_get (hc_catalog ctx)) \<rparr>)"

lemma revalidated_facts:
  assumes "cache_inv web ctx" and "pointers_ok ctx"
  shows "cache_inv web (revalidated ctx)" "hc_feed_cache_for (revalidated ctx) = Some (handle_get (hc_catalog ctx))"
    "same_setup ctx (revalidated ctx)"
  using assms
  by (auto simp: revalidated_def cache_inv_def pointers_ok_def same_ptr_def same_setup_def kMaxCachedFeeds_def
      split: option.splits)

lemma handle_feed_eq:
  "handle_feed web q ctx =
     (let tag = param_or q ''tag'' []; sz = param_or q ''size'' []; query = param_or q ''q'' []; ctx1 = revalidated ctx
      in case (if query = [] then map_of (hc_feed_cache ctx1) (feed_key tag sz) else None) of
           Some html \<Rightarrow> (Inr (make_response 200 html html_type), ctx1)
         | None \<Rightarrow>
             (case current_page web q ctx of
                Inl e \<Rightarrow> (Inl e, ctx1)
              | Inr html \<Rightarrow>
                  (Inr (make_response 200 html html_type),
                   if query = [] \<and> length (hc_feed_cache ctx1) < kMaxCachedFeeds
                   then ctx1\<lparr> hc_feed_cache := cache_emplace (feed_key tag sz) html (hc_feed_cache ctx1) \<rparr> else ctx1)))"
proof -
  have "hc_tpl (revalidated ctx) = hc_tpl ctx" "hc_cfg (revalidated ctx) = hc_cfg ctx"
    by (simp_all add: revalidated_def)
  then show ?thesis
    by (simp only: handle_feed_def Let_def current_page_def fresh_page_def revalidated_def [symmetric])
qed

lemma emplace_inv:
  assumes "cache_inv web ctx" and "hc_feed_cache_for ctx = Some p" and "length (hc_feed_cache ctx) < kMaxCachedFeeds"
    and "fresh_page web ctx (cp_obj p) tag sz [] = Inr html"
  shows "cache_inv web (ctx\<lparr> hc_feed_cache := cache_emplace (feed_key tag sz) html (hc_feed_cache ctx) \<rparr>)"
proof -
  have "entry_ok web ctx (cp_obj p) (feed_key tag sz, html)" using assms(4) by (auto simp: entry_ok_def)
  moreover have "list_all (entry_ok web ctx (cp_obj p)) (hc_feed_cache ctx)"
    "distinct (map fst (hc_feed_cache ctx))"
    using assms(1,2) by (simp_all add: cache_inv_def)
  ultimately show ?thesis
    using assms(2,3) by (simp add: cache_inv_def cache_emplace_def map_of_eq_None_iff image_iff)
qed

text \<open>The outcomes of a feed request: a hit, a failed rendering, a page that is stored, a page that is not.\<close>

lemma handle_feed_cases:
  assumes "handle_feed web q ctx = (r, ctx')"
  obtains (hit) html where "param_or q ''q'' [] = []"
      "map_of (hc_feed_cache (revalidated ctx)) (feed_key (param_or q ''tag'' []) (param_or q ''size'' [])) = Some html"
      "r = Inr (make_response 200 html html_type)" "ctx' = revalidated ctx"
  | (failed) e where "current_page web q ctx = Inl e" "r = Inl e" "ctx' = revalidated ctx"
  | (stored) html where "current_page web q ctx = Inr html" "r = Inr (make_response 200 html html_type)"
      "param_or q ''q'' [] = []" "length (hc_feed_cache (revalidated ctx)) < kMaxCachedFeeds"
      "ctx' = (revalidated ctx)\<lparr> hc_feed_cache :=
         cache_emplace (feed_key (param_or q ''tag'' []) (param_or q ''size'' [])) html (hc_feed_cache (revalidated ctx)) \<rparr>"
  | (rendered) html where "current_page web q ctx = Inr html" "r = Inr (make_response 200 html html_type)"
      "ctx' = revalidated ctx"
proof -
  let ?hit = "if param_or q ''q'' [] = []
    then map_of (hc_feed_cache (revalidated ctx)) (feed_key (param_or q ''tag'' []) (param_or q ''size'' [])) else None"
  note run = assms [unfolded handle_feed_eq Let_def]
  show ?thesis
  proof (cases ?hit)
    case (Some html)
    with run show ?thesis by (intro hit [of html]) (simp_all split: if_splits)
  next
    case None
    show ?thesis
    proof (cases "current_page web q ctx")
      case (Inl e)
      with run None show ?thesis by (intro failed [of e]) simp_all
    next
      case (Inr html)
      show ?thesis
      proof (cases "param_or q ''q'' [] = [] \<and> length (hc_feed_cache (revalidated ctx)) < kMaxCachedFeeds")
        case True
        with run None Inr show ?thesis by (intro stored [of html]) simp_all
      next
        case False
        with run None Inr show ?thesis by (intro rendered [of html]) (auto split: if_splits)
      qed
    qed
  qed
qed

lemma handle_feed_inv:
  assumes "cache_inv web ctx" and "pointers_ok ctx" and run: "handle_feed web q ctx = (r, ctx')"
  shows "cache_inv web ctx' \<and> pointers_ok ctx'"
proof -
  let ?tag = "param_or q ''tag'' []" and ?sz = "param_or q ''size'' []" and ?ctx1 = "revalidated ctx"
  note facts = revalidated_facts [OF assms(1,2)]
  have p1: "pointers_ok ?ctx1" using facts(2,3) by (simp add: pointers_ok_def same_setup_def)
  from run show ?thesis
  proof (cases rule: handle_feed_cases)
    case (stored html)
    have "fresh_page web ?ctx1 (cp_obj (handle_get (hc_catalog ctx))) ?tag ?sz [] = Inr html"
      using stored(1,3) facts(3) by (simp add: current_page_def fresh_page_def same_setup_def)
    from emplace_inv [OF facts(1,2) stored(4) this] stored(5) p1 show ?thesis by simp
  qed (use facts(1) p1 in simp_all)
qed

lemma handle_feed_fresh:
  assumes "cache_inv web ctx" and "pointers_ok ctx" and "handle_feed web q ctx = (r, ctx')"
    and "CHR 0x1F \<notin> set (param_or q ''tag'' [])" and "CHR 0x1F \<notin> set (param_or q ''size'' [])"
  shows "r = (case current_page web q ctx of Inl e \<Rightarrow> Inl e | Inr html \<Rightarrow> Inr (make_response 200 html html_type))"
proof -
  let ?tag = "param_or q ''tag'' []" and ?sz = "param_or q ''size'' []" and ?ctx1 = "revalidated ctx"
  note facts = revalidated_facts [OF assms(1,2)]
  have hit: "current_page web q ctx = Inr html"
    if "param_or q ''q'' [] = []" "map_of (hc_feed_cache ?ctx1) (feed_key ?tag ?sz) = Some html" for html
  proof -
    from map_of_SomeD [OF that(2)] facts(1,2)
    have "entry_ok web ?ctx1 (cp_obj (handle_get (hc_catalog ctx))) (feed_key ?tag ?sz, html)"
      by (auto simp: cache_inv_def list_all_iff)
    with feed_key_inj [OF assms(4,5)] facts(3) that(1) show ?thesis
      by (auto simp: entry_ok_def current_page_def fresh_page_def same_setup_def)
  qed
  show ?thesis
    using assms(3) by (cases rule: handle_feed_cases) (simp_all add: hit)
qed

text \<open>
  \<^bold>\<open>C25.\<close> The feed cache is invisible to requests whose filters have no separator character: when neither
  tag nor size contains 0x1F (with it, pages of other filters can be served, see
  \<open>feed_cache_collision\<close>), the response to a feed request is the page rendered from the current snapshot
  for exactly these filters and this search text, whether it came from the cache or not, for
  every visitor; and the cache afterwards is again consistent and holds at most 64 pages.
\<close>

theorem feed_cache_transparent:
  assumes "cache_inv web ctx" and "pointers_ok ctx" and "handle_feed web q ctx = (r, ctx')"
    and "CHR 0x1F \<notin> set (param_or q ''tag'' [])" and "CHR 0x1F \<notin> set (param_or q ''size'' [])"
  shows "r = (case fresh_page web ctx (cp_obj (handle_get (hc_catalog ctx)))
      (param_or q ''tag'' []) (param_or q ''size'' []) (param_or q ''q'' []) of
        Inl e \<Rightarrow> Inl e | Inr html \<Rightarrow> Inr (make_response 200 html html_type)) \<and>
    cache_inv web ctx' \<and> length (hc_feed_cache ctx') \<le> 64"
  using handle_feed_fresh [OF assms] handle_feed_inv [OF assms(1-3)]
  by (simp add: current_page_def cache_inv_def kMaxCachedFeeds_def)

theorem feed_cache_transparent_witness:
  "\<exists>ctx1 r ctx2. handle_feed sample_web Map.empty sample_context = (r, ctx1) \<and> length (hc_feed_cache ctx1) = 1 \<and>
     handle_feed sample_web Map.empty ctx1 = (Inr (make_response 200 ''page'' html_type), ctx2)"
proof -
  obtain r1 ctx1 where one: "handle_feed sample_web Map.empty sample_context = (r1, ctx1)" by fastforce
  obtain r2 ctx2 where two: "handle_feed sample_web Map.empty ctx1 = (r2, ctx2)" by fastforce
  have inv0: "cache_inv sample_web sample_context" "pointers_ok sample_context"
    by (simp_all add: cache_inv_def pointers_ok_def sample_context_def)
  have ctx1: "length (hc_feed_cache ctx1) = 1" "hc_tpl ctx1 = hc_tpl sample_context"
    using one by (auto simp: handle_feed_def Let_def sample_context_def tpl_render_def sample_web_def same_ptr_def
        param_or_def kMaxCachedFeeds_def cache_emplace_def)
  from handle_feed_inv [OF inv0 one] have inv1: "cache_inv sample_web ctx1" "pointers_ok ctx1" by simp_all
  from feed_cache_transparent [OF inv1 two] have "r2 = Inr (make_response 200 ''page'' html_type)"
    using ctx1(2) by (simp add: param_or_def fresh_page_def tpl_render_def sample_web_def sample_context_def)
  with one two ctx1 show ?thesis by blast
qed

section \<open>A separator inside a filter\<close>

text \<open>
  Without the assumption on the filters two pages can share a key: after a request with tag
  \<open>a\<close>, separator, \<open>b\<close> and no size, the page for tag \<open>a\<close> and the size \<open>b\<close>, separator, is
  answered with the first request's page.
\<close>

lemma feed_key_collision: "feed_key (a @ CHR 0x1F # b) sz = feed_key a (b @ CHR 0x1F # sz)"
  by (simp add: feed_key_def)

lemma feed_cache_collision:
  assumes "cache_inv web ctx" and "pointers_ok ctx" and "hc_feed_cache_for ctx = Some (handle_get (hc_catalog ctx))"
    and "map_of (hc_feed_cache ctx) (feed_key (a @ CHR 0x1F # b) sz) = Some html"
    and "q ''tag'' = Some a" and "q ''size'' = Some (b @ CHR 0x1F # sz)" and "q ''q'' = None"
  shows "handle_feed web q ctx = (Inr (make_response 200 html html_type), ctx)"
  using assms by (simp add: handle_feed_def Let_def same_ptr_def param_or_def feed_key_collision)

section \<open>Every handler keeps the invariant\<close>

lemma route_cache_inv:
  assumes "cache_inv web ctx" and "pointers_ok ctx" and run: "route web fs en clock ident req ip ctx = (r, ctx')"
  shows "cache_inv web ctx' \<and> pointers_ok ctx'"
proof -
  have "handle_feed web (parse_query (tg_query (split_target (rq_target req)))) ctx = (r, ctx') \<or>
      (hc_feed_cache ctx' = hc_feed_cache ctx \<and> hc_feed_cache_for ctx' = hc_feed_cache_for ctx)"
    using run unfolding route_def Let_def
    by (auto simp: handle_item_def handle_redirect_def handle_beacon_def handle_postback_def Let_def
        split: if_splits option.splits sum.splits json.splits)
  with handle_feed_inv [OF assms(1,2)] cache_inv_cong route_plain [OF run] assms(1,2) show ?thesis by blast
qed

lemma dispatch_cache_inv:
  assumes "cache_inv web ctx" and "pointers_ok ctx" and "dispatch web fs en clock req ip ctx = (res, ctx')"
  shows "cache_inv web ctx' \<and> pointers_ok ctx'"
  using assms(3) route_cache_inv [OF assms(1,2)] by (auto simp: dispatch_def Let_def split: prod.splits)

end
