(* ===== verification/Outbound.thy ===== *)
theory Outbound
  imports Handlers_Facts
begin

text \<open>
  The path from a card of a page to the partner: the redirect handler, and the links the
  pages print for it.
\<close>

section \<open>Logging\<close>

text \<open>The event as it reaches the queue: the handler's fields and the common ones.\<close>

definition stamped :: "'t web \<Rightarrow> ts_ms \<Rightarrow> identity \<Rightarrow> request \<Rightarrow> string \<Rightarrow> config \<Rightarrow> event \<Rightarrow> event" where
  "stamped web now ident req ip cfg ev = ev\<lparr> ev_ts := now, ev_anon_id := idn_anon_id ident,
     ev_session_id := idn_session_id ident, ev_ua_class := classify_ua (rq_user_agent req),
     ev_ip_hash := hash_ip (web_generichash web) ip (cfg_ip_hash_secret cfg) \<rparr>"

lemma log_event_eq:
  "log_event web now ident req ip ev ctx =
     ctx\<lparr> hc_events := snd (event_push (stamped web now ident req ip (hc_cfg ctx) ev) (hc_events ctx)) \<rparr>"
  by (simp add: log_event_def stamped_def)

definition outbound_event :: "entropy \<Rightarrow> int \<Rightarrow> (string \<rightharpoonup> string) \<Rightarrow> request \<Rightarrow> event" where
  "outbound_event en i q req = event_default\<lparr> ev_type := Outbound, ev_item_id := Some i, ev_position := position_param q,
     ev_surface := param_or q ''s'' ''feed'', ev_click_token := make_click_token (en_token en),
     ev_source := visit_source q (rq_referer req) \<rparr>"

section \<open>Routing\<close>

definition request_path :: "config \<Rightarrow> request \<Rightarrow> string" where
  "request_path cfg req = route_path (cfg_base_path cfg) (tg_path (split_target (rq_target req)))"

definition request_query :: "request \<Rightarrow> (string \<rightharpoonup> string)" where
  "request_query req = parse_query (tg_query (split_target (rq_target req)))"

lemma route_redirect:
  assumes "rq_verb req = GetVerb" and "request_path (hc_cfg ctx) req = ''/r/'' @ int_to_string i" and "in_int64 i"
  shows "route web fs en clock ident req ip ctx =
    handle_redirect web (en_token en) (clock 0) ident req ip i (request_query req) ctx"
  using assms by (simp add: route_def Let_def request_path_def request_query_def)

lemma dispatch_redirect:
  assumes "rq_verb req = GetVerb" and "request_path (hc_cfg ctx) req = ''/r/'' @ int_to_string i" and "in_int64 i"
    and cat: "cat = cp_obj (handle_get (hc_catalog ctx))" and "cat_find cat i = Some it"
    and "dispatch web fs en clock req ip ctx = (res, ctx')"
  shows "rs_status res = 302"
    and "header_values res ''Location'' =
      [redirect_target it (cat_partner cat (it_partner_id it)) (make_click_token (en_token en))]"
    and "header_values res ''Cache-Control'' = [''no-store'']"
    and "header_values res ''Referrer-Policy'' = [''no-referrer'']"
    and "ctx' = ctx\<lparr> hc_events := snd (event_push (stamped web (clock 0) (identify en req) req ip (hc_cfg ctx)
      (outbound_event en i (request_query req) req)) (hc_events ctx)) \<rparr>"
proof -
  let ?ident = "identify en req"
  obtain body where body: "handle_redirect web (en_token en) (clock 0) ?ident req ip i (request_query req) ctx = (Inr body, ctx')"
    "res = finish_response (hc_cfg ctx) ?ident body"
    using assms(5,6) unfolding cat
    by (auto simp: dispatch_def Let_def route_redirect [OF assms(1-3)] handle_redirect_def)
  from body(1) assms(5) show "rs_status res = 302"
    "header_values res ''Location'' = [redirect_target it (cat_partner cat (it_partner_id it)) (make_click_token (en_token en))]"
    "header_values res ''Cache-Control'' = [''no-store'']" "header_values res ''Referrer-Policy'' = [''no-referrer'']"
    "ctx' = ctx\<lparr> hc_events := snd (event_push (stamped web (clock 0) ?ident req ip (hc_cfg ctx)
      (outbound_event en i (request_query req) req)) (hc_events ctx)) \<rparr>"
    unfolding cat
    by (auto simp: body(2) handle_redirect_def Let_def finish_response_headers header_simps log_event_eq outbound_event_def)
qed

text \<open>
  Where a click on an item leads: an enabled partner's template, with the item's address, the
  click token and the item's campaign in its holes; without an enabled partner the address itself.
\<close>

definition click_leads_to :: "item \<Rightarrow> partner option \<Rightarrow> string \<Rightarrow> string \<Rightarrow> bool" where
  "click_leads_to it pt token url \<longleftrightarrow>
     (if \<exists>p. pt = Some p \<and> pt_enabled p
      then link_means (pt_link_template (the pt))
        \<lparr> lv_url = it_product_url it, lv_subid = token, lv_campaign = it_campaign it \<rparr> url
      else url = it_product_url it)"

lemma redirect_target_leads: "click_leads_to it pt token (redirect_target it pt token)"
  by (cases pt) (simp_all add: click_leads_to_def redirect_target_def outbound_url_def link_means_render)

text \<open>
  \<^bold>\<open>C3.\<close> The outbound redirect: a GET of \<open>/r/<id>\<close> for an item of the snapshot answers
  302. When the item's partner is in the snapshot and enabled, \<open>Location\<close> is the link the
  partner's template stands for with the item's address, the click token and the item's campaign
  in its holes; when the partner is missing or disabled it is the item's own address. The answer
  is never cacheable and sent without a referrer, and exactly one outbound event is pushed,
  which carries the very token that is in the link, the item, the position, the visitor and the
  time. The link has nothing of the visitor in it. An unknown item is a 404 and pushes nothing.
\<close>

theorem redirect_correct:
  assumes "rq_verb req = GetVerb" and "request_path (hc_cfg ctx) req = ''/r/'' @ int_to_string i" and "in_int64 i"
    and "cat = cp_obj (handle_get (hc_catalog ctx))"
    and "dispatch web fs en clock req ip ctx = (res, ctx')"
  shows "case cat_find cat i of
      None \<Rightarrow> rs_status res = 404 \<and> ctx' = ctx
    | Some it \<Rightarrow>
        rs_status res = 302 \<and>
        (\<exists>url. header_values res ''Location'' = [url] \<and>
           (if \<exists>p. cat_partner cat (it_partner_id it) = Some p \<and> pt_enabled p
            then link_means (pt_link_template (the (cat_partner cat (it_partner_id it))))
              \<lparr> lv_url = it_product_url it, lv_subid = make_click_token (en_token en), lv_campaign = it_campaign it \<rparr> url
            else url = it_product_url it)) \<and>
        header_values res ''Cache-Control'' = [''no-store''] \<and>
        header_values res ''Referrer-Policy'' = [''no-referrer''] \<and>
        (\<exists>ev. ctx' = ctx\<lparr> hc_events := snd (event_push ev (hc_events ctx)) \<rparr> \<and>
           ev_type ev = Outbound \<and> ev_item_id ev = Some i \<and> ev_click_token ev = make_click_token (en_token en) \<and>
           ev_position ev = position_param (request_query req) \<and> ev_ts ev = clock 0 \<and>
           ev_anon_id ev = idn_anon_id (identify en req) \<and> ev_session_id ev = idn_session_id (identify en req))"
proof (cases "cat_find cat i")
  case None
  with assms show ?thesis
    by (auto simp: dispatch_def Let_def route_redirect [OF assms(1-3)] handle_redirect_def)
next
  case (Some it)
  note facts = dispatch_redirect [OF assms(1-4) Some assms(5)]
  let ?ev = "stamped web (clock 0) (identify en req) req ip (hc_cfg ctx) (outbound_event en i (request_query req) req)"
  have "ctx' = ctx\<lparr> hc_events := snd (event_push ?ev (hc_events ctx)) \<rparr> \<and> ev_type ?ev = Outbound \<and>
      ev_item_id ?ev = Some i \<and> ev_click_token ?ev = make_click_token (en_token en) \<and>
      ev_position ?ev = position_param (request_query req) \<and> ev_ts ?ev = clock 0 \<and>
      ev_anon_id ?ev = idn_anon_id (identify en req) \<and> ev_session_id ?ev = idn_session_id (identify en req)"
    using facts(5) by (simp add: stamped_def outbound_event_def)
  with Some facts(1-4) redirect_target_leads [of it "cat_partner cat (it_partner_id it)" "make_click_token (en_token en)"]
  show ?thesis unfolding click_leads_to_def by auto
qed

lemma sample_path: "request_path (hc_cfg sample_context) (sample_request ''/r/7'') = ''/r/'' @ int_to_string 7"
proof -
  have "int_to_string 7 = ''7''" by code_simp
  then show ?thesis
    by (simp add: request_path_def route_path_def split_target_def sample_request_def sample_context_def config_default_def)
qed

lemma sample_find: "cat_find (cp_obj (handle_get (hc_catalog sample_context))) 7 =
    Some ((sample_item 7 0 0)\<lparr> it_partner_id := 1, it_product_url := ''https://s/7'', it_campaign := ''c9'' \<rparr>)"
  by (simp add: sample_context_def handle_get_def sample_catalog_def cat_find_def make_catalog_def stable_sort_def
      build_index_def emplace_def sample_item_def item_default_def Let_def)

lemma sample_partner_find: "cat_partner (cp_obj (handle_get (hc_catalog sample_context))) 1 = Some sample_partner"
  by (simp add: sample_context_def handle_get_def sample_catalog_def cat_partner_eq make_catalog_wf)
    (simp add: make_catalog_def Let_def sample_partner_def)

theorem redirect_correct_witness:
  "header_values (fst (dispatch sample_web sample_fs sample_entropy (\<lambda>_. 0) (sample_request ''/r/7'') ''::1'' sample_context))
     ''Location'' = [''https://ad/c9/?subid=333333333333&ulp=https%3A%2F%2Fs%2F7'']"
proof -
  let ?d = "dispatch sample_web sample_fs sample_entropy (\<lambda>_. 0) (sample_request ''/r/7'') ''::1'' sample_context"
  have "rq_verb (sample_request ''/r/7'') = GetVerb" "in_int64 7"
    by (simp_all add: sample_request_def in_int64_def int64_min_def int64_max_def)
  note fact = redirect_correct [OF this(1) sample_path this(2) refl, of sample_web sample_fs sample_entropy "\<lambda>_. 0" "''::1''" "fst ?d" "snd ?d"]
  have token: "make_click_token (en_token sample_entropy) = ''333333333333''" by code_simp
  from fact obtain url where "header_values (fst ?d) ''Location'' = [url]" and
    "link_means ''https://ad/{campaign}/?subid={subid}&ulp={url_enc}''
       \<lparr> lv_url = ''https://s/7'', lv_subid = ''333333333333'', lv_campaign = ''c9'' \<rparr> url"
    by (auto simp: sample_find sample_partner_find sample_partner_def token)
  moreover have "render_link ''https://ad/{campaign}/?subid={subid}&ulp={url_enc}''
       \<lparr> lv_url = ''https://s/7'', lv_subid = ''333333333333'', lv_campaign = ''c9'' \<rparr> =
      ''https://ad/c9/?subid=333333333333&ulp=https%3A%2F%2Fs%2F7''" by code_simp
  ultimately show ?thesis by (simp only: link_means_render)
qed

section \<open>The links the pages print\<close>

lemma item_out_link:
  "json_get (item_to_json it cfg pos) ''out'' =
     Some (JString (cfg_base_path cfg @ ''/r/'' @ int_to_string (it_id it) @ ''?p='' @ int_to_string pos))"
  by (simp add: item_to_json_def json_get_object split: option.split)

lemma int_to_string_unreserved: "c \<in> set (int_to_string i) \<Longrightarrow> is_unreserved c"
  using int_to_string_chars [of c i] by (auto simp: is_unreserved_def is_digit_def)

lemma url_encode_int [simp]: "url_encode (int_to_string i) = int_to_string i"
  by (rule url_encode_unreserved) (rule int_to_string_unreserved)

lemma parse_position: "parse_query (''p='' @ int_to_string pos) ''p'' = Some (int_to_string pos)"
proof -
  have "''p='' @ int_to_string pos = encode_query [(''p'', int_to_string pos)]"
    by (simp add: is_unreserved_def char_code_def)
  then show ?thesis by (simp only: parse_query_def parse_query_loop_encode) simp
qed

lemma question_mark_not_in_int: "CHR ''?'' \<notin> set (int_to_string i)"
  using int_to_string_unreserved by fastforce

lemma split_out_link:
  assumes "CHR ''?'' \<notin> set base"
  shows "split_target (base @ ''/r/'' @ int_to_string i @ ''?p='' @ int_to_string pos) =
    \<lparr> tg_path = base @ ''/r/'' @ int_to_string i, tg_query = ''p='' @ int_to_string pos \<rparr>"
  using split_target_append [of "base @ ''/r/'' @ int_to_string i" "''p='' @ int_to_string pos"] assms
    question_mark_not_in_int by simp

lemma route_path_base: "route_path base (base @ CHR ''/'' # p) = CHR ''/'' # p"
  by (simp add: route_path_def)

text \<open>
  \<^bold>\<open>C4.\<close> Every card leads out: take an item of any page of the snapshot that is being
  served and follow the \<open>out\<close> link its card carries. The request is answered by a redirect
  for exactly that item, and the event it pushes has that item's id and the card's position,
  so the link text, the routing, the query string and the lookup agree.
\<close>

theorem card_link_redirects:
  assumes "cat = cp_obj (handle_get (hc_catalog ctx))" and "catalog_wf cat"
    and "distinct (map it_id (cat_feed cat))" and "it \<in> set (cat_query cat tag sz n k)"
    and "in_int64 (it_id it)" and "- (2 ^ 31) \<le> pos" and "pos < 2 ^ 31"
    and "CHR ''?'' \<notin> set (cfg_base_path (hc_cfg ctx))"
    and "json_get (item_to_json it (hc_cfg ctx) pos) ''out'' = Some (JString url)"
    and "rq_verb req = GetVerb" and "rq_target req = url"
    and "dispatch web fs en clock req ip ctx = (res, ctx')"
  shows "rs_status res = 302 \<and>
    header_values res ''Location'' =
      [redirect_target it (cat_partner cat (it_partner_id it)) (make_click_token (en_token en))] \<and>
    (\<exists>ev. hc_events ctx' = snd (event_push ev (hc_events ctx)) \<and> ev_type ev = Outbound \<and>
       ev_item_id ev = Some (it_id it) \<and> ev_position ev = Some pos)"
proof -
  have target: "rq_target req =
      cfg_base_path (hc_cfg ctx) @ ''/r/'' @ int_to_string (it_id it) @ ''?p='' @ int_to_string pos"
    using assms(9,11) item_out_link by simp
  note split = split_out_link [OF assms(8), of "it_id it" pos]
  have path: "request_path (hc_cfg ctx) req = ''/r/'' @ int_to_string (it_id it)"
    by (simp only: request_path_def target split target.simps) (simp add: route_path_base)
  have query: "position_param (request_query req) = Some pos"
  proof -
    have "in_int64 pos" using assms(6,7) by (simp add: in_int64_def int64_min_def int64_max_def)
    then show ?thesis
      using int32_of_id [OF assms(6,7)] parse_position [of pos]
      by (simp only: position_param_def request_query_def target split target.simps option.case
          parse_int_int_to_string option.map)
  qed
  have "cat_find cat (it_id it) = Some it"
    using snapshot.page_item_unique [OF assms(2,3,4)] .
  note facts = dispatch_redirect [OF assms(10) path assms(5,1) this assms(12)]
  let ?ev = "stamped web (clock 0) (identify en req) req ip (hc_cfg ctx) (outbound_event en (it_id it) (request_query req) req)"
  have "hc_events ctx' = snd (event_push ?ev (hc_events ctx)) \<and> ev_type ?ev = Outbound \<and>
      ev_item_id ?ev = Some (it_id it) \<and> ev_position ?ev = Some pos"
    using facts(5) query by (simp add: stamped_def outbound_event_def)
  with facts(1,2) show ?thesis by blast
qed

theorem card_link_redirects_witness:
  "\<exists>it url. it \<in> set (cat_query sample_catalog [] [] 0 120) \<and>
     json_get (item_to_json it (hc_cfg sample_context) 0) ''out'' = Some (JString url) \<and>
     rs_status (fst (dispatch sample_web sample_fs sample_entropy (\<lambda>_. 0) (sample_request url) ''::1'' sample_context)) = 302"
proof -
  let ?it = "(sample_item 7 0 0)\<lparr> it_partner_id := 1, it_product_url := ''https://s/7'', it_campaign := ''c9'' \<rparr>"
  let ?url = "cfg_base_path (hc_cfg sample_context) @ ''/r/'' @ int_to_string (it_id ?it) @ ''?p='' @ int_to_string 0"
  let ?d = "dispatch sample_web sample_fs sample_entropy (\<lambda>_. 0) (sample_request ?url) ''::1'' sample_context"
  have items: "cat_items sample_catalog = [?it]"
    by (simp add: sample_catalog_def make_catalog_def stable_sort_def Let_def)
  have cat: "sample_catalog = cp_obj (handle_get (hc_catalog sample_context))"
    by (simp add: sample_context_def handle_get_def)
  have wf: "catalog_wf sample_catalog" unfolding sample_catalog_def by (rule make_catalog_wf)
  have mem: "?it \<in> set (cat_query sample_catalog [] [] 0 120)"
    by (simp add: cat_query_eq items matches_def)
  note link = item_out_link [of ?it "hc_cfg sample_context" 0]
  have "rs_status (fst ?d) = 302"
    using card_link_redirects [OF cat wf _ mem _ _ _ _ link, of "sample_request ?url" sample_web sample_fs
        sample_entropy "\<lambda>_. 0" "''::1''" "fst ?d" "snd ?d"]
    by (simp add: items cat_feed_def sample_item_def item_default_def in_int64_def int64_min_def int64_max_def
        sample_context_def config_default_def sample_request_def)
  with mem link show ?thesis by blast
qed

end
