(* ===== verification/Intake.thy ===== *)
theory Intake
  imports Outbound
begin

text \<open>
  What comes in from outside and is stored or read on behalf of a stranger: affiliate
  postbacks, beacon batches and file requests.
\<close>

section \<open>Postbacks\<close>

definition amount_param :: "'t web \<Rightarrow> (string \<rightharpoonup> string) \<Rightarrow> kopek option option" where
  "amount_param web q =
     (case q ''amount'' of None \<Rightarrow> Some None | Some text \<Rightarrow> map_option Some (amount_of (web_wild_cast web) text))"

definition postback_ok :: "'t web \<Rightarrow> config \<Rightarrow> (string \<rightharpoonup> string) \<Rightarrow> bool" where
  "postback_ok web cfg q \<longleftrightarrow>
     cfg_postback_secret cfg \<noteq> [] \<and> q ''sign'' = Some (cfg_postback_secret cfg) \<and>
     q ''subid'' \<noteq> None \<and> q ''subid'' \<noteq> Some [] \<and> amount_param web q \<noteq> None \<and>
     param_or q ''status'' ''pending'' \<in> {''pending'', ''approved'', ''rejected''}"

definition queued_conversion :: "'t web \<Rightarrow> ts_ms \<Rightarrow> (string \<rightharpoonup> string) \<Rightarrow> conversion" where
  "queued_conversion web now q = conversion_default\<lparr> cv_click_token := the (q ''subid''), cv_ts := now,
     cv_order_ref := param_or q ''order'' [], cv_status := param_or q ''status'' ''pending'',
     cv_amount := the (amount_param web q) \<rparr>"

lemma queue_update: "(q :: conversion_queue)\<lparr> cq_pending := x \<rparr> = \<lparr> cq_pending = x \<rparr>"
  by (cases q) simp

text \<open>The comparison of the signature, and what follows it.\<close>

definition signed :: "config \<Rightarrow> (string \<rightharpoonup> string) \<Rightarrow> bool" where
  "signed cfg q \<longleftrightarrow> cfg_postback_secret cfg \<noteq> [] \<and> q ''sign'' = Some (cfg_postback_secret cfg)"

lemma unsigned_refused:
  assumes memcmp: "\<And>a b. length a = length b \<Longrightarrow> web_memcmp web a b (length b) = 0 \<longleftrightarrow> a = b"
    and "\<not> signed (hc_cfg ctx) q"
  shows "\<exists>res. handle_postback web now q ctx = (res, ctx) \<and> rs_status res \<in> {403, 503}"
proof -
  have "cfg_postback_secret (hc_cfg ctx) = [] \<or>
      (case q ''sign'' of None \<Rightarrow> True
       | Some sign \<Rightarrow> length sign \<noteq> length (cfg_postback_secret (hc_cfg ctx)) \<or>
           web_memcmp web sign (cfg_postback_secret (hc_cfg ctx)) (length (cfg_postback_secret (hc_cfg ctx))) \<noteq> 0)"
    using assms(2) memcmp by (auto simp: signed_def split: option.split)
  then show ?thesis by (auto simp: handle_postback_def Let_def)
qed

lemma signed_postback:
  assumes memcmp: "\<And>a b. length a = length b \<Longrightarrow> web_memcmp web a b (length b) = 0 \<longleftrightarrow> a = b"
    and "signed (hc_cfg ctx) q"
  shows "handle_postback web now q ctx =
      (case q ''subid'' of
         None \<Rightarrow> (text_response 400 ''missing subid'', ctx)
       | Some subid \<Rightarrow>
           if subid = [] then (text_response 400 ''missing subid'', ctx)
           else case amount_param web q of
                  None \<Rightarrow> (text_response 400 ''bad amount'', ctx)
                | Some amount \<Rightarrow>
                    if param_or q ''status'' ''pending'' \<notin> {''pending'', ''approved'', ''rejected''}
                    then (text_response 400 ''bad status'', ctx)
                    else (text_response 200 ''ok'', ctx\<lparr> hc_conversions :=
                      \<lparr> cq_pending = cq_pending (hc_conversions ctx) @ [queued_conversion web now q] \<rparr> \<rparr>))"
proof -
  have "web_memcmp web (cfg_postback_secret (hc_cfg ctx)) (cfg_postback_secret (hc_cfg ctx))
      (length (cfg_postback_secret (hc_cfg ctx))) = 0"
    using memcmp by blast
  with assms(2) show ?thesis
    by (simp add: signed_def handle_postback_def Let_def amount_param_def queued_conversion_def conversion_push_def queue_update
        split: option.split)
qed

text \<open>
  \<^bold>\<open>C10.\<close> Only an authentic, complete postback is queued. Given that
  \<open>sodium_memcmp\<close> tells equal buffers of one length from different ones, the answer is 200
  exactly when a secret is configured, \<open>sign\<close> is that secret, a click token is given, the
  amount (if any) reads as a number and the status is one the database accepts; then
  exactly one conversion with those values is appended to the queue. Every other postback is
  answered 503, 403 or 400 and changes nothing.
\<close>

theorem postback_authenticated:
  assumes memcmp: "\<And>a b. length a = length b \<Longrightarrow> web_memcmp web a b (length b) = 0 \<longleftrightarrow> a = b"
    and run: "handle_postback web now q ctx = (res, ctx')"
  shows "(rs_status res = 200 \<longleftrightarrow> postback_ok web (hc_cfg ctx) q) \<and>
    (if postback_ok web (hc_cfg ctx) q
     then ctx' = ctx\<lparr> hc_conversions := \<lparr> cq_pending = cq_pending (hc_conversions ctx) @ [queued_conversion web now q] \<rparr> \<rparr>
     else ctx' = ctx \<and> rs_status res \<in> {400, 403, 503})"
proof (cases "signed (hc_cfg ctx) q")
  case False
  then have "\<not> postback_ok web (hc_cfg ctx) q" by (auto simp: postback_ok_def signed_def)
  with unsigned_refused [OF memcmp False, of now] run show ?thesis by auto
next
  case True
  then have ok: "postback_ok web (hc_cfg ctx) q \<longleftrightarrow> q ''subid'' \<noteq> None \<and> q ''subid'' \<noteq> Some [] \<and> amount_param web q \<noteq> None \<and>
      param_or q ''status'' ''pending'' \<in> {''pending'', ''approved'', ''rejected''}"
    by (simp add: postback_ok_def signed_def)
  show ?thesis
    unfolding ok using trans [OF signed_postback [OF memcmp True, symmetric] run] by (auto split: option.splits if_splits)
qed

definition sample_postback_query :: "string \<rightharpoonup> string" where
  "sample_postback_query = [''sign'' \<mapsto> ''pw'', ''subid'' \<mapsto> ''TESTTOKEN123'', ''order'' \<mapsto> ''A1'', ''status'' \<mapsto> ''approved'']"

theorem postback_authenticated_witness:
  "cq_pending (hc_conversions (snd (handle_postback sample_web 9 sample_postback_query sample_context))) =
     [queued_conversion sample_web 9 sample_postback_query] \<and>
   rs_status (fst (handle_postback sample_web 9 (sample_postback_query(''sign'' \<mapsto> ''no'')) sample_context)) \<noteq> 200"
proof -
  have cmp: "length a = length b \<Longrightarrow> web_memcmp sample_web a b (length b) = 0 \<longleftrightarrow> a = b" for a b
    by (simp add: sample_web_def)
  note rule_at = postback_authenticated [where web = sample_web, OF cmp prod.collapse [symmetric]]
  have "postback_ok sample_web (hc_cfg sample_context) sample_postback_query"
    "\<not> postback_ok sample_web (hc_cfg sample_context) (sample_postback_query(''sign'' \<mapsto> ''no''))"
    by (simp_all add: postback_ok_def sample_context_def sample_postback_query_def amount_param_def param_or_def)
  with rule_at [of 9 sample_postback_query sample_context] rule_at [of 9 "sample_postback_query(''sign'' \<mapsto> ''no'')" sample_context]
  show ?thesis by (simp add: sample_context_def new_conversion_queue_def)
qed

section \<open>Beacons\<close>

definition push_all :: "event list \<Rightarrow> event_queue \<Rightarrow> event_queue" where
  "push_all evs q = foldl (\<lambda>q ev. snd (event_push ev q)) q evs"

text \<open>The events a batch stands for: its first 200 usable elements, in order, stamped.\<close>

definition batch_events ::
  "'t web \<Rightarrow> (nat \<Rightarrow> ts_ms) \<Rightarrow> identity \<Rightarrow> request \<Rightarrow> string \<Rightarrow> config \<Rightarrow> nat \<Rightarrow> json list \<Rightarrow> event list" where
  "batch_events web clock ident req ip cfg n es =
     map (\<lambda>(k, ev). stamped web (clock k) ident req ip cfg ev)
       (enumerate n (take (kMaxBatch - n) (List.map_filter beacon_event es)))"

lemma beacon_loop_eq:
  "beacon_loop web clock ident req ip es n ctx =
     ctx\<lparr> hc_events := push_all (batch_events web clock ident req ip (hc_cfg ctx) n es) (hc_events ctx) \<rparr>"
proof (induction es arbitrary: n ctx)
  case Nil
  then show ?case by (simp add: batch_events_def push_all_def List.map_filter_def)
next
  case (Cons e es)
  show ?case
  proof (cases "kMaxBatch \<le> n")
    case True
    then show ?thesis by (simp add: batch_events_def push_all_def)
  next
    case small: False
    then have room: "kMaxBatch - n = Suc (kMaxBatch - (n + 1))" by simp
    show ?thesis
    proof (cases "beacon_event e")
      case None
      with small show ?thesis by (simp add: Cons.IH batch_events_def List.map_filter_simps)
    next
      case (Some ev)
      with small show ?thesis
        by (simp add: Cons.IH batch_events_def List.map_filter_simps room log_event_eq push_all_def del: diff_Suc_eq_diff_pred)
    qed
  qed
qed

lemma beacon_event_fields:
  "beacon_event e = Some ev \<Longrightarrow> ev_type ev = Impression \<and> ev_item_id ev \<noteq> None \<and> ev_click_token ev = []"
  by (auto simp: beacon_event_def event_default_def split: json.splits option.splits)

text \<open>
  \<^bold>\<open>C26.\<close> A beacon is all the impressions it usably names and nothing else. A body that is
  not JSON, or not an array, is answered 400 and changes nothing; an array is answered 204
  and pushes, in order, one event for each of its first 200 elements that are objects with an
  integer \<open>item\<close>. Every such event is an impression of an item, without a click token, so a
  page can forge neither clicks nor tokens.
\<close>

theorem beacon_exact:
  "handle_beacon web clock ident req ip ctx =
     (case web_json_parse web (rq_body req) of
        None \<Rightarrow> (text_response 400 ''bad json'', ctx)
      | Some (JArray es) \<Rightarrow>
          (text_response 204 [],
           ctx\<lparr> hc_events := push_all
             (map (\<lambda>(k, ev). stamped web (clock k) ident req ip (hc_cfg ctx) ev)
                (enumerate 0 (take 200 (List.map_filter beacon_event es)))) (hc_events ctx) \<rparr>)
      | Some _ \<Rightarrow> (text_response 400 ''expected array'', ctx)) \<and>
   list_all (\<lambda>ev. ev_type ev = Impression \<and> ev_item_id ev \<noteq> None \<and> ev_click_token ev = [])
     (batch_events web clock ident req ip (hc_cfg ctx) 0 es)"
proof
  show "handle_beacon web clock ident req ip ctx =
     (case web_json_parse web (rq_body req) of
        None \<Rightarrow> (text_response 400 ''bad json'', ctx)
      | Some (JArray es) \<Rightarrow>
          (text_response 204 [],
           ctx\<lparr> hc_events := push_all
             (map (\<lambda>(k, ev). stamped web (clock k) ident req ip (hc_cfg ctx) ev)
                (enumerate 0 (take 200 (List.map_filter beacon_event es)))) (hc_events ctx) \<rparr>)
      | Some _ \<Rightarrow> (text_response 400 ''expected array'', ctx))"
    by (simp add: handle_beacon_def beacon_loop_eq batch_events_def kMaxBatch_def split: option.split json.split)
  have "ev \<in> set (List.map_filter beacon_event es) \<Longrightarrow>
      ev_type ev = Impression \<and> ev_item_id ev \<noteq> None \<and> ev_click_token ev = []" for ev
    by (auto simp: List.map_filter_def dest: beacon_event_fields)
  then show "list_all (\<lambda>ev. ev_type ev = Impression \<and> ev_item_id ev \<noteq> None \<and> ev_click_token ev = [])
     (batch_events web clock ident req ip (hc_cfg ctx) 0 es)"
    by (auto simp: list_all_iff batch_events_def stamped_def enumerate_eq_zip dest!: set_zip_rightD in_set_takeD)
qed

section \<open>Files\<close>

text \<open>
  The test of the code on the resolved paths: the text of the resolved root, empty when it does
  not resolve, is a prefix of the text of the resolved file.
\<close>

definition root_text :: "file_system \<Rightarrow> string \<Rightarrow> string" where
  "root_text fs dir = (case fs_weakly_canonical fs dir of None \<Rightarrow> [] | Some r \<Rightarrow> r)"

text \<open>
  \<^bold>\<open>C35.\<close> What the file handler gives away, and what its containment test really guarantees.
  A 200 or 304 is sent only for a name without \<open>..\<close> that resolves to a path whose text begins
  with the text of the resolved root (with the empty text, so no restriction, when the root does not
  resolve); a 200 has exactly the content of the file at that path, a 304 is sent exactly when the
  client's validator is the file's current one. The prefix is one of the text, not of the
  path: the file is the root, or below it, or beside it in an entry whose name begins with the
  root's.
\<close>

theorem file_served_inside_root:
  assumes "rs_status (handle_file fs req dir rel) = 200 \<or> rs_status (handle_file fs req dir rel) = 304"
  shows "\<not> contains rel ''..'' \<and>
    (\<exists>rest. fs_weakly_canonical fs (append_path dir rel) = Some (root_text fs dir @ rest) \<and>
       (rs_status (handle_file fs req dir rel) = 304 \<longleftrightarrow>
          file_etag fs (root_text fs dir @ rest) \<noteq> [] \<and> rq_if_none_match req = file_etag fs (root_text fs dir @ rest)) \<and>
       (rs_status (handle_file fs req dir rel) = 200 \<longrightarrow>
          fs_read fs (root_text fs dir @ rest) = Some (rs_body (handle_file fs req dir rel))))"
proof -
  from assms obtain path where "\<not> contains rel ''..''" and
    path: "fs_weakly_canonical fs (append_path dir rel) = Some path" "starts_with path (root_text fs dir)"
    "rs_status (handle_file fs req dir rel) = 304 \<longleftrightarrow> file_etag fs path \<noteq> [] \<and> rq_if_none_match req = file_etag fs path"
    "rs_status (handle_file fs req dir rel) = 200 \<longrightarrow> fs_read fs path = Some (rs_body (handle_file fs req dir rel))"
    by (auto simp: handle_file_def root_text_def Let_def split: if_splits option.splits)
  moreover from path(2) obtain rest where "path = root_text fs dir @ rest" by (auto simp: starts_with_iff)
  ultimately show ?thesis by blast
qed

theorem file_served_inside_root_witness:
  "\<exists>rest. fs_weakly_canonical sample_fs (append_path ''static'' ''a.css'') = Some (''static'' @ rest) \<and>
     fs_read sample_fs (''static'' @ rest) = Some ''css'' \<and>
     rs_status (handle_file sample_fs (sample_request ''/static/a.css'') ''static'' ''a.css'') = 200"
proof -
  let ?res = "handle_file sample_fs (sample_request ''/static/a.css'') ''static'' ''a.css''"
  have root: "root_text sample_fs ''static'' = ''static''" by (simp add: root_text_def sample_fs_def)
  have "rs_status ?res = 200"
    by (simp add: handle_file_def Let_def sample_fs_def contains_def append_path_def sample_request_def file_etag_def)
  with file_served_inside_root [of sample_fs "sample_request ''/static/a.css''" "''static''" "''a.css''"] root
  show ?thesis by (auto simp: sample_fs_def)
qed

text \<open>
  A link in the root that leads to \<open>/srv/static-x\<close>, a sibling of the root \<open>/srv/static\<close>:
  the file is outside the root and is served.
\<close>

lemma sibling_of_root_served:
  assumes "fs_weakly_canonical fs ''/srv/static'' = Some ''/srv/static''"
    and "fs_weakly_canonical fs ''/srv/static/link'' = Some ''/srv/static-x/f''" and "fs_read fs ''/srv/static-x/f'' = Some body"
    and "rq_if_none_match req = []"
  shows "rs_status (handle_file fs req ''/srv/static'' ''link'') = 200 \<and>
    rs_body (handle_file fs req ''/srv/static'' ''link'') = body"
  using assms by (auto simp: handle_file_def Let_def contains_def append_path_def)

text \<open>When the root does not resolve, its text is empty and the prefix test accepts every path.\<close>

lemma file_root_unchecked:
  assumes "fs_weakly_canonical fs dir = None" and "\<not> contains rel ''..''"
    and "fs_weakly_canonical fs (append_path dir rel) = Some path" and "fs_read fs path = Some body"
  shows "rs_status (handle_file fs req dir rel) = 200 \<or> rs_status (handle_file fs req dir rel) = 304"
  using assms by (simp add: handle_file_def Let_def)

end
