(* ===== verification/Http_Server.thy ===== *)
theory Http_Server
  imports Handlers_Facts
begin

text \<open>
  The HTTP server: \<open>src/http_server.cpp\<close>. Sockets belong to Boost: what a read, a write or
  an accept yields is an argument, in the order the calls happen. A connection is the loop
  over its reads, an acceptor the loop over its accepts; \<open>started\<close> and \<open>stopped\<close> are the two
  flags.
\<close>

section \<open>Addresses\<close>

text \<open>The remote endpoint is \<open>None\<close> when asking for it fails.\<close>

definition peer_ip :: "string option \<Rightarrow> string" where
  "peer_ip ep = (case ep of None \<Rightarrow> ''0.0.0.0'' | Some a \<Rightarrow> a)"

definition client_address :: "request \<Rightarrow> string \<Rightarrow> string" where
  "client_address req peer =
     (let xff = rq_x_forwarded_for req
      in if xff = [] then peer
         else dropWhile (\<lambda>c. c = CHR '' '') (upto (find_char (CHR '','') xff) xff))"

section \<open>Connections\<close>

datatype read_result = ReadRequest request | EndOfStream | PeerClosed | ReadError

text \<open>One round on the socket: what the read yields, whether the write succeeds, and the
  random bytes and clock readings of the request.\<close>

record round =
  rd_read :: read_result
  rd_written :: bool
  rd_entropy :: entropy
  rd_clock :: "nat \<Rightarrow> ts_ms"

text \<open>
  \<open>prepare_payload\<close> and \<open>keep_alive\<close> are Beast's and parameters of the model; the first throws for a
  body the status does not allow. What Beast documents of them: the body and the status stay as they
  are, \<open>prepare_payload\<close> changes the fields \<open>Content-Length\<close> and \<open>Transfer-Encoding\<close> only, states the length of
  a body, and throws for nothing but a body with status 1xx, 204 or 304; \<open>keep_alive\<close> changes the
  field \<open>Connection\<close> only, and \<open>close\<close> is what an HTTP/1.1 message needs to say so.
\<close>

definition beast_ok :: "'t web \<Rightarrow> bool" where
  "beast_ok web \<longleftrightarrow>
     (\<forall>res. rs_body res = [] \<or> 200 \<le> rs_status res \<and> rs_status res \<notin> {204, 304} \<longrightarrow>
        (\<exists>res'. web_prepare_payload web res = Some res' \<and> rs_status res' = rs_status res \<and> rs_body res' = rs_body res \<and>
           (rs_body res \<noteq> [] \<longrightarrow> header_values res' ''Content-Length'' = [nat_to_string (length (rs_body res))]) \<and>
           (\<forall>name. name \<notin> {''Content-Length'', ''Transfer-Encoding''} \<longrightarrow> header_values res' name = header_values res name))) \<and>
     (\<forall>keep res. rs_status (web_keep_alive web keep res) = rs_status res \<and> rs_body (web_keep_alive web keep res) = rs_body res \<and>
        (\<forall>name. name \<noteq> ''Connection'' \<longrightarrow> header_values (web_keep_alive web keep res) name = header_values res name)) \<and>
     (\<forall>res. header_values (web_keep_alive web False res) ''Connection'' = [''close''])"

text \<open>The response as it is handed to the socket, unless \<open>prepare_payload\<close> throws.\<close>

definition handed :: "'t web \<Rightarrow> request \<Rightarrow> response \<Rightarrow> response option" where
  "handed web req res = map_option (web_keep_alive web (rq_keep_alive req)) (web_prepare_payload web res)"

text \<open>
  The responses handed to the socket and the context afterwards. An exception leaves the loop for the
  handler around it, which logs it and ends the connection.
\<close>

fun handle_connection ::
  "'t web \<Rightarrow> file_system \<Rightarrow> string \<Rightarrow> round list \<Rightarrow> 't handler_context \<Rightarrow> response list \<times> 't handler_context" where
  "handle_connection web fs peer [] ctx = ([], ctx)"
| "handle_connection web fs peer (rd # rest) ctx =
     (case rd_read rd of
        ReadRequest req \<Rightarrow>
          (case dispatch web fs (rd_entropy rd) (rd_clock rd) req (client_address req peer) ctx of
             (res, ctx1) \<Rightarrow>
               (case handed web req res of
                  None \<Rightarrow> ([], ctx1)
                | Some res' \<Rightarrow>
                    if \<not> rd_written rd \<or> \<not> rq_keep_alive req then ([res'], ctx1)
                    else case handle_connection web fs peer rest ctx1 of (out, ctx2) \<Rightarrow> (res' # out, ctx2)))
      | _ \<Rightarrow> ([], ctx))"

section \<open>The acceptor\<close>

datatype accept_result = Accepted | Aborted | AcceptError

text \<open>Each accept with the value of \<open>stopped\<close> read after it; the result counts the connections spawned.\<close>

fun accept_loop :: "(accept_result \<times> bool) list \<Rightarrow> nat" where
  "accept_loop [] = 0"
| "accept_loop ((a, stopped) # rest) =
     (if stopped then 0
      else case a of
             Aborted \<Rightarrow> 0
           | AcceptError \<Rightarrow> accept_loop rest
           | Accepted \<Rightarrow> Suc (accept_loop rest))"

record server =
  sv_started :: bool
  sv_stopped :: bool
  sv_threads :: nat
  sv_io_stopped :: bool

definition server_start :: "server \<Rightarrow> server" where
  "server_start s = (if sv_started s then s else s\<lparr> sv_started := True, sv_threads := sv_threads s + 1 \<rparr>)"

definition server_stop :: "server \<Rightarrow> server" where
  "server_stop s = (if sv_stopped s then s else s\<lparr> sv_stopped := True, sv_io_stopped := True, sv_threads := 0 \<rparr>)"

section \<open>Properties\<close>

text \<open>Every response of \<open>dispatch\<close> can be sent, and arrives as it was built.\<close>

lemma handed_Some:
  assumes "beast_ok web" and "dispatch web fs en clock req ip ctx = (res, ctx')"
  shows "\<exists>out. handed web req res = Some out \<and> rs_status out = rs_status res \<and> rs_body out = rs_body res \<and>
    (rs_body res \<noteq> [] \<longrightarrow> header_values out ''Content-Length'' = [nat_to_string (length (rs_body res))]) \<and>
    (\<not> rq_keep_alive req \<longrightarrow> header_values out ''Connection'' = [''close'']) \<and>
    (\<forall>name. name \<notin> {''Content-Length'', ''Transfer-Encoding'', ''Connection''} \<longrightarrow> header_values out name = header_values res name)"
proof -
  from dispatch_payload [OF assms(2)] have "rs_body res = [] \<or> 200 \<le> rs_status res \<and> rs_status res \<notin> {204, 304}" by auto
  with assms(1) obtain res' where "web_prepare_payload web res = Some res'" "rs_status res' = rs_status res"
    "rs_body res' = rs_body res"
    "rs_body res \<noteq> [] \<longrightarrow> header_values res' ''Content-Length'' = [nat_to_string (length (rs_body res))]"
    "\<forall>name. name \<notin> {''Content-Length'', ''Transfer-Encoding''} \<longrightarrow> header_values res' name = header_values res name"
    unfolding beast_ok_def by blast
  with assms(1) show ?thesis by (simp add: handed_def beast_ok_def)
qed

lemma sample_beast: "beast_ok sample_web"
  by (auto simp: beast_ok_def sample_web_def header_simps)

text \<open>The requests a connection serves: up to the first failed read, failed write or close.\<close>

fun served :: "round list \<Rightarrow> (round \<times> request) list" where
  "served [] = []"
| "served (rd # rest) =
     (case rd_read rd of
        ReadRequest req \<Rightarrow> (rd, req) # (if rd_written rd \<and> rq_keep_alive req then served rest else [])
      | _ \<Rightarrow> [])"

fun dispatch_all ::
  "'t web \<Rightarrow> file_system \<Rightarrow> string \<Rightarrow> (round \<times> request) list \<Rightarrow> 't handler_context \<Rightarrow> response list \<times> 't handler_context" where
  "dispatch_all web fs peer [] ctx = ([], ctx)"
| "dispatch_all web fs peer ((rd, req) # rest) ctx =
     (case dispatch web fs (rd_entropy rd) (rd_clock rd) req (client_address req peer) ctx of
        (res, ctx1) \<Rightarrow> (case dispatch_all web fs peer rest ctx1 of (out, ctx2) \<Rightarrow> (res # out, ctx2)))"

text \<open>
  A connection answers in order: the requests it serves are those read before the
  first failed read, failed write or close; each gets exactly one response, dispatched on the
  context the previous one left; nothing is dispatched after the connection ended.
\<close>

theorem connection_serves_in_order:
  assumes "beast_ok web"
  shows "handle_connection web fs peer rounds ctx =
     (case dispatch_all web fs peer (served rounds) ctx of
        (out, ctx') \<Rightarrow> (map (\<lambda>(res, rd, req). the (handed web req res)) (zip out (served rounds)), ctx'))"
proof (induction rounds arbitrary: ctx)
  case (Cons rd rest)
  show ?case
  proof (cases "rd_read rd")
    case (ReadRequest req)
    obtain res ctx1 where d: "dispatch web fs (rd_entropy rd) (rd_clock rd) req (client_address req peer) ctx = (res, ctx1)"
      by fastforce
    from handed_Some [OF assms d] obtain out where "handed web req res = Some out" by blast
    with ReadRequest d show ?thesis by (auto simp: Cons.IH split: prod.splits)
  qed simp_all
qed simp

text \<open>
  The address used for the IP hash is the first element of \<open>X-Forwarded-For\<close>. The nginx
  configuration of the repository appends the real address to what the client sent, so
  whatever precedes the first comma is the client's own text.
\<close>

lemma client_address_spoofed:
  assumes "rq_x_forwarded_for req = forged @ '', '' @ real_ip" and "forged \<noteq> []"
    and "CHR '','' \<notin> set forged" and "\<not> starts_with forged '' ''"
  shows "client_address req peer = forged"
proof -
  obtain c cs where forged: "forged = c # cs" using assms(2) by (cases forged) auto
  with assms(4) have "c \<noteq> CHR '' ''" by auto
  moreover have "upto (find_char (CHR '','') (forged @ '', '' @ real_ip)) (forged @ '', '' @ real_ip) = forged"
    using find_char_append [OF assms(3), of "CHR '' '' # real_ip"] by simp
  ultimately show ?thesis by (simp add: client_address_def assms(1)) (simp add: forged)
qed

end
