(* ===== verification/Server_System.thy ===== *)
theory Server_System
  imports Db_Worker Feed_Cache Intake Http_Server
begin

text \<open>
  The two threads together. The HTTP thread runs \<open>dispatch\<close> on the handler context; the
  database thread refreshes the snapshot, drains the queues, writes and maintains. They share
  the catalog handle and the two queues, whose operations are atomic (a mutex, an atomic
  pointer), so the system is a step relation in which requests may come between any two
  actions of the database thread, also between draining a queue and writing the batch.

  \<open>sy_issued\<close> is a ghost: the click tokens this server put into a redirect, together with
  those the database knew at the start.
\<close>

section \<open>States and steps\<close>

datatype phase = Ready | Writing "event list" | Written | Recording "conversion list"

record 't system =
  sy_http :: "'t handler_context"
  sy_conn :: "database conn"
  sy_phase :: phase
  sy_issued :: "string set"

definition issue :: "response \<Rightarrow> entropy \<Rightarrow> string set \<Rightarrow> string set" where
  "issue res en issued = (if rs_status res = 302 then insert (make_click_token (en_token en)) issued else issued)"

definition set_catalog :: "catalog_ptr \<Rightarrow> 't handler_context \<Rightarrow> 't handler_context" where
  "set_catalog p ctx = ctx\<lparr> hc_catalog := handle_set p (hc_catalog ctx) \<rparr>"

text \<open>An address for a new snapshot: not that of one somebody still holds.\<close>

definition fresh_addr :: "'t handler_context \<Rightarrow> nat \<Rightarrow> bool" where
  "fresh_addr ctx addr \<longleftrightarrow> addr \<noteq> cp_addr (handle_get (hc_catalog ctx)) \<and>
     (\<forall>p. hc_feed_cache_for ctx = Some p \<longrightarrow> addr \<noteq> cp_addr p)"

inductive step :: "'t web \<Rightarrow> 't system \<Rightarrow> 't system \<Rightarrow> bool" for web where
  request:
    "dispatch web fs en clock req ip (sy_http s) = (res, ctx) \<Longrightarrow>
       step web s (s\<lparr> sy_http := ctx, sy_issued := issue res en (sy_issued s) \<rparr>)"
| refreshed:
    "load_snapshot faults now (sy_conn s) = (Inr cat, c) \<Longrightarrow> fresh_addr (sy_http s) addr \<Longrightarrow>
       step web s (s\<lparr> sy_http := set_catalog \<lparr> cp_addr = addr, cp_obj = cat \<rparr> (sy_http s), sy_conn := c \<rparr>)"
| refresh_failed:
    "load_snapshot faults now (sy_conn s) = (Inl e, c) \<Longrightarrow> step web s (s\<lparr> sy_conn := c \<rparr>)"
| drain_clicks:
    "sy_phase s = Ready \<Longrightarrow> event_drain [] (hc_events (sy_http s)) = (batch, q) \<Longrightarrow>
       step web s (s\<lparr> sy_http := (sy_http s)\<lparr> hc_events := q \<rparr>, sy_phase := Writing batch \<rparr>)"
| write_clicks:
    "sy_phase s = Writing batch \<Longrightarrow> insert_events faults batch (sy_conn s) = (Inr u, c) \<Longrightarrow>
       step web s (s\<lparr> sy_conn := c, sy_phase := Written \<rparr>)"
| write_failed:
    "sy_phase s = Writing batch \<Longrightarrow> insert_events faults batch (sy_conn s) = (Inl e, c) \<Longrightarrow>
       step web s (s\<lparr> sy_conn := c, sy_phase := Ready \<rparr>)"
| drain_postbacks:
    "sy_phase s = Written \<Longrightarrow> conversion_drain [] (hc_conversions (sy_http s)) = (batch, q) \<Longrightarrow>
       step web s (s\<lparr> sy_http := (sy_http s)\<lparr> hc_conversions := q \<rparr>, sy_phase := Recording batch \<rparr>)"
| record_next:
    "sy_phase s = Recording (cv # cvs) \<Longrightarrow> record_conversion faults cv (sy_conn s) = (Inr matched, c) \<Longrightarrow>
       step web s (s\<lparr> sy_conn := c, sy_phase := Recording cvs \<rparr>)"
| record_failed:
    "sy_phase s = Recording (cv # cvs) \<Longrightarrow> record_conversion faults cv (sy_conn s) = (Inl e, c) \<Longrightarrow>
       step web s (s\<lparr> sy_conn := c, sy_phase := Ready \<rparr>)"
| recorded:
    "sy_phase s = Recording [] \<Longrightarrow> step web s (s\<lparr> sy_phase := Ready \<rparr>)"
| maintain:
    "sy_phase s = Ready \<Longrightarrow> maintenance faults cfg now (sy_conn s) = (r, c) \<Longrightarrow> step web s (s\<lparr> sy_conn := c \<rparr>)"

inductive_cases step_elim: "step web s t"

definition event_tokens :: "database \<Rightarrow> string set" where
  "event_tokens d = {t. token_known d t}"

definition conversion_tokens :: "database \<Rightarrow> string set" where
  "conversion_tokens d = cr_click_token ` set (db_conversions d)"

text \<open>The system when \<open>main\<close> has built its parts: a snapshot is loaded, the queues and the cache are empty.\<close>

definition initial :: "'t system \<Rightarrow> bool" where
  "initial s \<longleftrightarrow> sy_phase s = Ready \<and> cn_saved (sy_conn s) = None \<and> db_wf (cn_db (sy_conn s)) \<and>
     sy_issued s = event_tokens (cn_db (sy_conn s)) \<union> conversion_tokens (cn_db (sy_conn s)) \<and>
     catalog_wf (cp_obj (handle_get (hc_catalog (sy_http s)))) \<and>
     eq_pending (hc_events (sy_http s)) = [] \<and> cq_pending (hc_conversions (sy_http s)) = [] \<and>
     hc_feed_cache_for (sy_http s) = None \<and> hc_feed_cache (sy_http s) = []"

section \<open>Tokens in the database\<close>

definition tokens_ok :: "string set \<Rightarrow> database \<Rightarrow> bool" where
  "tokens_ok T d \<longleftrightarrow> event_tokens d \<subseteq> T \<and> conversion_tokens d \<subseteq> T"

definition batch_ok :: "string set \<Rightarrow> event list \<Rightarrow> bool" where
  "batch_ok T evs \<longleftrightarrow> list_all (\<lambda>ev. ev_click_token ev = [] \<or> ev_click_token ev \<in> T) evs"

definition postbacks_ok :: "conversion list \<Rightarrow> bool" where
  "postbacks_ok cvs \<longleftrightarrow> list_all (\<lambda>c. conversion_status_ok (cv_status c)) cvs"

lemma tokens_ok_mono: "T \<subseteq> T' \<Longrightarrow> tokens_ok T d \<Longrightarrow> tokens_ok T' d"
  by (auto simp: tokens_ok_def)

lemma batch_ok_mono: "T \<subseteq> T' \<Longrightarrow> batch_ok T evs \<Longrightarrow> batch_ok T' evs"
  by (auto simp: batch_ok_def list_all_iff)

lemma tokens_ok_insert_event:
  assumes "tokens_ok T d" and "ev_click_token ev = [] \<or> ev_click_token ev \<in> T" and "insert_event_stmt ev d = Inr (u, d')"
  shows "tokens_ok T d'"
  using assms
  by (auto simp: tokens_ok_def event_tokens_def conversion_tokens_def insert_event_stmt_def token_known_snoc split: if_splits)

lemma insert_events_tokens: "batch_ok T batch \<Longrightarrow> preserves (tokens_ok T) (insert_events faults batch)"
proof -
  have "batch_ok T batch \<Longrightarrow> preserves (tokens_ok T) (insert_event_rows faults batch)"
    by (induction batch)
      (auto simp: batch_ok_def intro!: preserves_intros preserves_step intro: tokens_ok_insert_event)
  then show "batch_ok T batch \<Longrightarrow> preserves (tokens_ok T) (insert_events faults batch)"
    by (simp add: insert_events_def preserves_intros)
qed

lemma tokens_ok_upsert:
  assumes "tokens_ok T d" and "cv_click_token c \<in> T" and "upsert_conversion_stmt c d = Inr (u, d')"
  shows "tokens_ok T d'"
  using assms
  by (auto simp: tokens_ok_def event_tokens_def conversion_tokens_def token_known_def upsert_conversion_stmt_def
      image_subset_iff split: if_splits)

text \<open>A conversion is written only after its token was found among the events.\<close>

lemma record_conversion_tokens: "preserves (tokens_ok T) (record_conversion faults c)"
proof (rule preservesI)
  fix conn r conn'
  assume ok: "conn_ok (tokens_ok T) conn" and run: "record_conversion faults c conn = (r, conn')"
  obtain r1 c1 where check: "stmt_read faults (\<lambda>d. token_known d (cv_click_token c)) conn = (r1, c1)" by fastforce
  have ok1: "conn_ok (tokens_ok T) c1" using preservesD [OF preserves_read ok check] .
  show "conn_ok (tokens_ok T) conn'"
  proof (cases "r1 = Inr True")
    case False
    then have "conn' = c1"
      using run check by (cases r1) (auto simp: record_conversion_def db_bind_def db_return_def)
    with ok1 show ?thesis by simp
  next
    case True
    from check [unfolded stmt_read_def True] have "token_known (cn_db conn) (cv_click_token c)"
      by (auto elim!: stmt_step_cases)
    with ok have tok: "cv_click_token c \<in> T" by (auto simp: conn_ok_def tokens_ok_def event_tokens_def)
    have "preserves (tokens_ok T) (db_bind (stmt_step faults (upsert_conversion_stmt c)) (\<lambda>_. db_return True))"
      by (intro preserves_intros preserves_step) (rule tokens_ok_upsert [OF _ tok])
    moreover from run check True have "db_bind (stmt_step faults (upsert_conversion_stmt c)) (\<lambda>_. db_return True) c1 = (r, conn')"
      by (simp add: record_conversion_def db_bind_def)
    ultimately show ?thesis using ok1 preservesD by blast
  qed
qed

lemma maintenance_tokens: "preserves (tokens_ok T) (maintenance faults cfg now)"
  unfolding maintenance_def Let_def rollup_daily_def prune_events_def
  by (intro preserves_intros preserves_step)
    (auto simp: tokens_ok_def event_tokens_def conversion_tokens_def token_known_def rollup_stmt_def prune_stmt_def)

lemma load_snapshot_preserves: "preserves P (load_snapshot faults now)"
  unfolding load_snapshot_def load_published_items_def list_partners_def Let_def by (intro preserves_intros)

lemma maintenance_wf: "preserves db_wf (maintenance faults cfg now)"
  unfolding maintenance_def Let_def rollup_daily_def prune_events_def
  by (intro preserves_intros preserves_step) (auto intro: rollup_wf, metis prod.sel(2) prune_wf)

lemma insert_events_wf: "preserves db_wf (insert_events faults batch)"
  by (simp add: insert_events_def insert_event_rows_wf preserves_intros)

section \<open>What a request leaves in the queues\<close>

lemma event_push_set: "set (eq_pending (snd (event_push ev q))) \<subseteq> insert ev (set (eq_pending q))"
  by (auto simp: event_push_def)

lemma push_all_set: "set (eq_pending (push_all evs q)) \<subseteq> set evs \<union> set (eq_pending q)"
proof (induction evs arbitrary: q)
  case (Cons ev evs)
  have "push_all (ev # evs) q = push_all evs (snd (event_push ev q))" by (simp add: push_all_def)
  with Cons.IH [of "snd (event_push ev q)"] event_push_set [of ev q] show ?case by auto
qed (simp add: push_all_def)

lemma push_all_inv: "event_queue_inv q \<Longrightarrow> event_queue_inv (push_all evs q)"
  by (induction evs arbitrary: q) (simp_all add: push_all_def event_queue_inv_push)

text \<open>
  What every handler puts into an event and a conversion, whatever the request: numbers that fit
  their types, a known class of user agent, a hash of the address, a checked status.
\<close>

definition in_int32 :: "int \<Rightarrow> bool" where
  "in_int32 i \<longleftrightarrow> - (2 ^ 31) \<le> i \<and> i < 2 ^ 31"

definition event_valid :: "'t web \<Rightarrow> event \<Rightarrow> bool" where
  "event_valid web ev \<longleftrightarrow> pred_option in_int64 (ev_item_id ev) \<and> pred_option in_int32 (ev_position ev) \<and>
     ev_ua_class ev \<in> {''bot'', ''mobile'', ''desktop''} \<and>
     (\<exists>ip secret. ev_ip_hash ev = hash_ip (web_generichash web) ip secret)"

definition postback_valid :: "'t web \<Rightarrow> conversion \<Rightarrow> bool" where
  "postback_valid web cv \<longleftrightarrow> conversion_status_ok (cv_status cv) \<and> cv_click_token cv \<noteq> [] \<and>
     pred_option (\<lambda>a. in_int64 a \<or> a \<in> range (web_wild_cast web)) (cv_amount cv)"

lemma in_int32_of: "in_int32 (int32_of i)"
  by (simp add: in_int32_def int32_of_bounds [simplified])

lemma position_param_fits: "pred_option in_int32 (position_param q)"
  by (auto simp: position_param_def in_int32_of option.pred_map pred_option_def split: option.split)

lemma cast_int64_fits: "in_int64 (cast_int64 wild d) \<or> cast_int64 wild d \<in> range wild"
  by (cases d) (auto simp: cast_int64_def)

lemma amount_of_fits: "amount_of wild text = Some a \<Longrightarrow> in_int64 a \<or> a \<in> range wild"
  using cast_int64_fits by (auto simp: amount_of_def)

lemma amount_of_pred: "pred_option (\<lambda>a. in_int64 a \<or> a \<in> range wild) (amount_of wild text)"
  by (cases "amount_of wild text") (simp_all add: amount_of_fits)

lemma event_valid_stamped:
  "pred_option in_int64 (ev_item_id ev) \<Longrightarrow> pred_option in_int32 (ev_position ev) \<Longrightarrow>
     event_valid web (stamped web now ident req ip cfg ev)"
  by (auto simp: event_valid_def stamped_def classify_ua_def Let_def)

lemma beacon_event_fits:
  "beacon_event e = Some ev \<Longrightarrow> pred_option in_int64 (ev_item_id ev) \<and> pred_option in_int32 (ev_position ev)"
  by (auto simp: beacon_event_def in_int32_of width_facts split: json.splits option.splits)

text \<open>
  Every route leaves the queues alone, or pushes one event (with a click token only in a
  redirect), a batch of beacon events without tokens, or one checked conversion.
\<close>

definition clean_request :: "'t web \<Rightarrow> entropy \<Rightarrow> bool \<Rightarrow> 't handler_context \<Rightarrow> 't handler_context \<Rightarrow> bool" where
  "clean_request web en redirected ctx ctx' \<longleftrightarrow>
     (\<exists>evs. hc_events ctx' = push_all evs (hc_events ctx) \<and>
        list_all (\<lambda>ev. event_valid web ev \<and>
          (ev_click_token ev = [] \<or> (redirected \<and> ev_click_token ev = make_click_token (en_token en)))) evs) \<and>
     (hc_conversions ctx' = hc_conversions ctx \<or>
        (\<exists>cv. postback_valid web cv \<and>
           hc_conversions ctx' = snd (conversion_push cv (hc_conversions ctx))))"

lemma clean_same:
  "hc_events ctx' = hc_events ctx \<Longrightarrow> hc_conversions ctx' = hc_conversions ctx \<Longrightarrow> clean_request web en b ctx ctx'"
  by (auto simp: clean_request_def push_all_def intro!: exI [of _ "[]"])

lemma clean_log:
  assumes "ev_click_token ev = [] \<or> (b \<and> ev_click_token ev = make_click_token (en_token en))"
    and "pred_option in_int64 (ev_item_id ev)" and "pred_option in_int32 (ev_position ev)"
  shows "clean_request web en b ctx (log_event web now ident req ip ev ctx)"
  using assms unfolding clean_request_def log_event_eq
  by (intro conjI exI [of _ "[stamped web now ident req ip (hc_cfg ctx) ev]"]) (auto simp: push_all_def event_valid_stamped, simp_all add: stamped_def)

lemma clean_feed: "handle_feed web q ctx = (r, ctx') \<Longrightarrow> clean_request web en b ctx ctx'"
  by (rule clean_same) (auto elim!: handle_feed_cases simp: revalidated_def)

lemma clean_click:
  assumes "in_int64 i"
  shows "clean_request web en b ctx (log_event web now ident req ip
      (event_default\<lparr> ev_type := k, ev_item_id := Some i, ev_position := position_param q, ev_surface := sf, ev_source := src \<rparr>) ctx)"
    and "clean_request web en True ctx (log_event web now ident req ip
      (event_default\<lparr> ev_type := k, ev_item_id := Some i, ev_position := position_param q, ev_surface := sf,
         ev_click_token := make_click_token (en_token en), ev_source := src \<rparr>) ctx)"
  by (rule clean_log; simp add: assms position_param_fits event_default_def)+

lemma clean_item: "in_int64 i \<Longrightarrow> handle_item web now ident req ip i q ctx = (r, ctx') \<Longrightarrow> clean_request web en b ctx ctx'"
  by (auto simp: handle_item_def Let_def clean_click clean_same split: option.splits sum.splits)

lemma clean_redirect:
  "in_int64 i \<Longrightarrow> handle_redirect web (en_token en) now ident req ip i q ctx = (r, ctx') \<Longrightarrow>
     \<exists>res. r = Inr res \<and> clean_request web en (rs_status res = 302) ctx ctx'"
  by (auto simp: handle_redirect_def Let_def clean_click clean_same split: option.splits)

lemma clean_push:
  "postback_valid web cv \<Longrightarrow>
     clean_request web en b ctx (ctx\<lparr> hc_conversions := snd (conversion_push cv (hc_conversions ctx)) \<rparr>)"
  unfolding clean_request_def by (intro conjI exI [of _ "[]"] disjI2 exI [of _ cv]) (simp_all add: push_all_def)

lemma clean_postback:
  "handle_postback web now q ctx = (res, ctx') \<Longrightarrow> clean_request web en b ctx ctx'"
  by (auto simp: handle_postback_def Let_def conversion_status_ok_def postback_valid_def amount_of_fits amount_of_pred conversion_default_def
      split: option.splits if_splits intro!: clean_push clean_same)

lemma clean_beacon: "handle_beacon web clock ident req ip ctx = (res, ctx') \<Longrightarrow> clean_request web en b ctx ctx'"
proof -
  have "clean_request web en b ctx (beacon_loop web clock ident req ip es 0 ctx)" for es
  proof -
    have "list_all (\<lambda>ev. event_valid web ev \<and> ev_click_token ev = []) (batch_events web clock ident req ip (hc_cfg ctx) 0 es)"
      using beacon_event_fields beacon_event_fits event_valid_stamped
      by (fastforce simp: list_all_iff batch_events_def stamped_def enumerate_eq_zip List.map_filter_def
          dest!: set_zip_rightD in_set_takeD)
    then show ?thesis unfolding beacon_loop_eq clean_request_def by (auto simp: list_all_iff)
  qed
  then show "handle_beacon web clock ident req ip ctx = (res, ctx') \<Longrightarrow> clean_request web en b ctx ctx'"
    by (auto simp: handle_beacon_def split: option.splits json.splits intro: clean_same)
qed

lemma clean_route:
  assumes "route web fs en clock ident req ip ctx = (r, ctx')"
  shows "clean_request web en (\<exists>res. r = Inr res \<and> rs_status res = 302) ctx ctx'"
  using assms unfolding route_def Let_def
  by (auto split: if_splits option.splits prod.splits intro: clean_same clean_feed clean_item clean_postback clean_beacon
      dest!: parse_int_range dest: clean_redirect)

lemma clean_dispatch:
  assumes "dispatch web fs en clock req ip ctx = (res, ctx')"
  shows "clean_request web en (rs_status res = 302) ctx ctx'"
  using assms clean_route by (fastforce simp: dispatch_def Let_def split: prod.splits sum.splits)

section \<open>The invariant\<close>

definition phase_ok :: "string set \<Rightarrow> phase \<Rightarrow> bool" where
  "phase_ok T ph = (case ph of Writing batch \<Rightarrow> batch_ok T batch | Recording cvs \<Rightarrow> postbacks_ok cvs | _ \<Rightarrow> True)"

definition web_ok :: "'t web \<Rightarrow> 't handler_context \<Rightarrow> bool" where
  "web_ok web ctx \<longleftrightarrow> cache_inv web ctx \<and> pointers_ok ctx \<and> catalog_wf (cp_obj (handle_get (hc_catalog ctx))) \<and>
     event_queue_inv (hc_events ctx) \<and> postbacks_ok (cq_pending (hc_conversions ctx))"

definition sys_inv :: "'t web \<Rightarrow> 't system \<Rightarrow> bool" where
  "sys_inv web s \<longleftrightarrow> web_ok web (sy_http s) \<and> conn_ok db_wf (sy_conn s) \<and>
     conn_ok (tokens_ok (sy_issued s)) (sy_conn s) \<and> batch_ok (sy_issued s) (eq_pending (hc_events (sy_http s))) \<and>
     phase_ok (sy_issued s) (sy_phase s)"

lemma phase_ok_mono: "T \<subseteq> T' \<Longrightarrow> phase_ok T ph \<Longrightarrow> phase_ok T' ph"
  by (auto simp: phase_ok_def batch_ok_mono split: phase.split)

lemma conn_ok_mono: "(\<And>d. P d \<Longrightarrow> Q d) \<Longrightarrow> conn_ok P c \<Longrightarrow> conn_ok Q c"
  by (auto simp: conn_ok_def)

lemma sys_inv_initial: "initial s \<Longrightarrow> sys_inv web s"
  by (auto simp: initial_def sys_inv_def web_ok_def cache_inv_def pointers_ok_def event_queue_inv_def conn_ok_def
      tokens_ok_def batch_ok_def postbacks_ok_def phase_ok_def)

lemma dispatch_web_ok:
  assumes "web_ok web ctx" and run: "dispatch web fs en clock req ip ctx = (res, ctx')"
    and "batch_ok T (eq_pending (hc_events ctx))"
  shows "web_ok web ctx'" "batch_ok (issue res en T) (eq_pending (hc_events ctx'))"
proof -
  from clean_dispatch [OF run, unfolded clean_request_def] obtain evs where
    evs: "hc_events ctx' = push_all evs (hc_events ctx)"
      "list_all (\<lambda>ev. event_valid web ev \<and>
        (ev_click_token ev = [] \<or> (rs_status res = 302 \<and> ev_click_token ev = make_click_token (en_token en)))) evs"
    and cvs: "hc_conversions ctx' = hc_conversions ctx \<or>
      (\<exists>cv. postback_valid web cv \<and> hc_conversions ctx' = snd (conversion_push cv (hc_conversions ctx)))"
    by blast
  from run have same: "same_setup ctx ctx'" by (rule dispatch_cases)
  have "postbacks_ok (cq_pending (hc_conversions ctx'))"
    using cvs assms(1) by (auto simp: web_ok_def postbacks_ok_def postback_valid_def conversion_push_def)
  with dispatch_cache_inv [OF _ _ run] assms(1) same show "web_ok web ctx'"
    by (simp add: web_ok_def same_setup_def evs(1) push_all_inv)
  show "batch_ok (issue res en T) (eq_pending (hc_events ctx'))"
    using push_all_set [of evs "hc_events ctx"] evs assms(3)
    by (fastforce simp: batch_ok_def list_all_iff issue_def)
qed

lemma step_request_inv:
  assumes "sys_inv web s" and "dispatch web fs en clock req ip (sy_http s) = (res, ctx)"
  shows "sys_inv web (s\<lparr> sy_http := ctx, sy_issued := issue res en (sy_issued s) \<rparr>)"
proof -
  have sub: "sy_issued s \<subseteq> issue res en (sy_issued s)" by (auto simp: issue_def)
  from assms(1) dispatch_web_ok [OF _ assms(2), where T = "sy_issued s"] have
    "web_ok web ctx" "batch_ok (issue res en (sy_issued s)) (eq_pending (hc_events ctx))"
    by (simp_all add: sys_inv_def)
  with assms(1) show ?thesis
    using phase_ok_mono [OF sub] conn_ok_mono [of "tokens_ok (sy_issued s)" "tokens_ok (issue res en (sy_issued s))"]
      tokens_ok_mono [OF sub]
    by (simp add: sys_inv_def)
qed

lemma set_catalog_simps [simp]:
  "hc_catalog (set_catalog p ctx) = handle_set p (hc_catalog ctx)" "hc_events (set_catalog p ctx) = hc_events ctx"
  "hc_conversions (set_catalog p ctx) = hc_conversions ctx" "hc_feed_cache (set_catalog p ctx) = hc_feed_cache ctx"
  "hc_feed_cache_for (set_catalog p ctx) = hc_feed_cache_for ctx" "hc_cfg (set_catalog p ctx) = hc_cfg ctx"
  "hc_tpl (set_catalog p ctx) = hc_tpl ctx"
  by (simp_all add: set_catalog_def)

lemma set_catalog_web_ok:
  assumes "web_ok web ctx" and "fresh_addr ctx addr" and "catalog_wf cat"
  shows "web_ok web (set_catalog \<lparr> cp_addr = addr, cp_obj = cat \<rparr> ctx)"
proof -
  let ?ctx = "set_catalog \<lparr> cp_addr = addr, cp_obj = cat \<rparr> ctx"
  have "entry_ok web ?ctx c = entry_ok web ctx c" for c
    by (intro ext entry_ok_cong) simp_all
  with assms show ?thesis
    by (auto simp: web_ok_def cache_inv_def pointers_ok_def fresh_addr_def handle_get_def handle_set_def split: option.splits)
qed

text \<open>A step of the database thread that only works on the connection.\<close>

lemma conn_step_inv:
  assumes "sys_inv web s" and "m (sy_conn s) = (r, c)" and "preserves db_wf m"
    and "preserves (tokens_ok (sy_issued s)) m" and "phase_ok (sy_issued s) ph"
  shows "sys_inv web (s\<lparr> sy_conn := c, sy_phase := ph \<rparr>)"
  using assms preservesD [OF assms(3) _ assms(2)] preservesD [OF assms(4) _ assms(2)] by (simp add: sys_inv_def)

lemma conn_step_inv_same:
  assumes "sys_inv web s" and "m (sy_conn s) = (r, c)" and "preserves db_wf m" and "preserves (tokens_ok (sy_issued s)) m"
  shows "sys_inv web (s\<lparr> sy_conn := c \<rparr>)"
  using assms preservesD [OF assms(3) _ assms(2)] preservesD [OF assms(4) _ assms(2)] by (simp add: sys_inv_def)

lemmas worker_preserves = load_snapshot_preserves insert_events_wf insert_events_tokens record_conversion_wf
  record_conversion_tokens maintenance_wf maintenance_tokens

lemma step_refresh_inv:
  assumes "sys_inv web s" and "load_snapshot faults now (sy_conn s) = (Inr cat, c)" and "fresh_addr (sy_http s) addr"
  shows "sys_inv web (s\<lparr> sy_http := set_catalog \<lparr> cp_addr = addr, cp_obj = cat \<rparr> (sy_http s), sy_conn := c \<rparr>)"
proof -
  have "catalog_wf cat" using load_snapshot_Inr [OF assms(2)] by (simp add: make_catalog_wf)
  with assms(1,3) have "web_ok web (set_catalog \<lparr> cp_addr = addr, cp_obj = cat \<rparr> (sy_http s))"
    by (intro set_catalog_web_ok) (simp_all add: sys_inv_def)
  with conn_step_inv_same [OF assms(1,2) load_snapshot_preserves load_snapshot_preserves] show ?thesis
    by (simp add: sys_inv_def)
qed

lemma queue_frame [simp]:
  "cache_inv web (ctx\<lparr> hc_events := q \<rparr>) = cache_inv web ctx" "pointers_ok (ctx\<lparr> hc_events := q \<rparr>) = pointers_ok ctx"
  "cache_inv web (ctx\<lparr> hc_conversions := p \<rparr>) = cache_inv web ctx"
  "pointers_ok (ctx\<lparr> hc_conversions := p \<rparr>) = pointers_ok ctx"
  by (rule cache_inv_cong; simp add: same_setup_def)+

lemma step_drain_inv:
  assumes "sys_inv web s"
  shows "sys_inv web (s\<lparr> sy_http := (sy_http s)\<lparr> hc_events := snd (event_drain [] (hc_events (sy_http s))) \<rparr>,
      sy_phase := Writing (fst (event_drain [] (hc_events (sy_http s)))) \<rparr>)"
    and "sys_inv web (s\<lparr> sy_http := (sy_http s)\<lparr> hc_conversions := snd (conversion_drain [] (hc_conversions (sy_http s))) \<rparr>,
      sy_phase := Recording (fst (conversion_drain [] (hc_conversions (sy_http s)))) \<rparr>)"
proof -
  show "sys_inv web (s\<lparr> sy_http := (sy_http s)\<lparr> hc_events := snd (event_drain [] (hc_events (sy_http s))) \<rparr>,
      sy_phase := Writing (fst (event_drain [] (hc_events (sy_http s)))) \<rparr>)"
    using assms by (simp add: sys_inv_def web_ok_def event_queue_inv_drain phase_ok_def)
      (simp add: event_drain_def batch_ok_def)
  show "sys_inv web (s\<lparr> sy_http := (sy_http s)\<lparr> hc_conversions := snd (conversion_drain [] (hc_conversions (sy_http s))) \<rparr>,
      sy_phase := Recording (fst (conversion_drain [] (hc_conversions (sy_http s)))) \<rparr>)"
    using assms by (simp add: sys_inv_def web_ok_def phase_ok_def conversion_drain_def postbacks_ok_def)
qed

lemma sys_inv_step:
  assumes "sys_inv web s" and "step web s t"
  shows "sys_inv web t"
  using assms(2)
proof (cases rule: step.cases)
  case request
  with assms(1) show ?thesis by (simp add: step_request_inv)
next
  case refreshed
  with assms(1) show ?thesis by (simp add: step_refresh_inv)
next
  case (drain_clicks batch q)
  with step_drain_inv(1) [OF assms(1)] show ?thesis by simp
next
  case (drain_postbacks batch q)
  with step_drain_inv(2) [OF assms(1)] show ?thesis by simp
next
  case (write_clicks batch faults u c)
  with assms(1) have "batch_ok (sy_issued s) batch" by (simp add: sys_inv_def phase_ok_def)
  with write_clicks show ?thesis
    by (auto intro!: conn_step_inv [OF assms(1)] worker_preserves simp: phase_ok_def)
next
  case (write_failed batch faults e c)
  with assms(1) have "batch_ok (sy_issued s) batch" by (simp add: sys_inv_def phase_ok_def)
  with write_failed show ?thesis
    by (auto intro!: conn_step_inv [OF assms(1)] worker_preserves simp: phase_ok_def)
next
  case (record_next cv cvs faults matched c)
  with assms(1) have "phase_ok (sy_issued s) (Recording cvs)" by (simp add: sys_inv_def phase_ok_def postbacks_ok_def)
  with record_next show ?thesis by (auto intro!: conn_step_inv [OF assms(1)] worker_preserves)
next
  case (record_failed cv cvs faults e c)
  then show ?thesis by (auto intro!: conn_step_inv [OF assms(1)] worker_preserves simp: phase_ok_def)
next
  case recorded
  with assms(1) show ?thesis by (simp add: sys_inv_def phase_ok_def)
next
  case (refresh_failed faults now e c)
  then show ?thesis by (auto intro!: conn_step_inv_same [OF assms(1)] worker_preserves)
next
  case (maintain faults cfg now r c)
  then show ?thesis by (auto intro!: conn_step_inv_same [OF assms(1)] worker_preserves)
qed

interpretation server: inductive_invariant initial "step web" "sys_inv web" for web
  by unfold_locales (rule sys_inv_initial, assumption, rule sys_inv_step)

section \<open>The worker's loop as steps\<close>

definition joined :: "'t handler_context \<Rightarrow> worker \<Rightarrow> string set \<Rightarrow> 't system" where
  "joined ctx w T = \<lparr>
     sy_http = ctx\<lparr> hc_catalog := wk_catalog w, hc_events := wk_events w, hc_conversions := wk_conversions w \<rparr>,
     sy_conn = wk_conn w, sy_phase = Ready, sy_issued = T \<rparr>"

lemma record_all_steps:
  "record_all faults cvs (sy_conn s) = (r, c) \<Longrightarrow> sy_phase s = Recording cvs \<Longrightarrow>
     (step web)\<^sup>*\<^sup>* s (s\<lparr> sy_conn := c, sy_phase := Ready \<rparr>)"
proof (induction cvs arbitrary: s)
  case Nil
  then have "step web s (s\<lparr> sy_phase := Ready \<rparr>)" "c = sy_conn s"
    by (auto simp: db_return_def intro: step.recorded)
  then show ?case by simp
next
  case (Cons cv cvs)
  obtain r1 c1 where one: "record_conversion faults cv (sy_conn s) = (r1, c1)" by fastforce
  show ?case
  proof (cases r1)
    case (Inl e)
    with one Cons.prems show ?thesis by (auto simp: db_bind_def intro!: r_into_rtranclp step.record_failed)
  next
    case (Inr matched)
    let ?s1 = "s\<lparr> sy_conn := c1, sy_phase := Recording cvs \<rparr>"
    have "step web s ?s1" using one Inr Cons.prems(2) by (auto intro: step.record_next)
    moreover have "(step web)\<^sup>*\<^sup>* ?s1 (?s1\<lparr> sy_conn := c, sy_phase := Ready \<rparr>)"
      using one Inr Cons.prems(1) by (intro Cons.IH) (simp_all add: db_bind_def)
    ultimately show ?thesis by (simp add: converse_rtranclp_into_rtranclp)
  qed
qed

lemma flush_events_eq:
  "flush_events faults w =
     (case insert_events faults (eq_pending (wk_events w)) (wk_conn w) of
        (r, c) \<Rightarrow> (r, w\<lparr> wk_events := snd (event_drain [] (wk_events w)), wk_conn := c \<rparr>))"
  by (auto simp: flush_events_def event_drain_def Let_def on_conn_def insert_events_def db_return_def split: prod.split)

lemma flush_steps: "(step web)\<^sup>*\<^sup>* (joined ctx w T) (joined ctx (logged (flush faults) w) T)"
proof -
  let ?s = "joined ctx w T" and ?batch = "eq_pending (wk_events w)"
  let ?q = "snd (event_drain [] (wk_events w))"
  let ?s1 = "?s\<lparr> sy_http := (sy_http ?s)\<lparr> hc_events := ?q \<rparr>, sy_phase := Writing ?batch \<rparr>"
  have drain: "step web ?s ?s1"
    by (rule step.drain_clicks) (simp_all add: joined_def event_drain_def)
  obtain r c where ins: "insert_events faults ?batch (wk_conn w) = (r, c)" by fastforce
  show ?thesis
  proof (cases r)
    case (Inl e)
    have "step web ?s1 (?s1\<lparr> sy_conn := c, sy_phase := Ready \<rparr>)"
      using ins Inl by (intro step.write_failed) (simp_all add: joined_def)
    moreover have "?s1\<lparr> sy_conn := c, sy_phase := Ready \<rparr> = joined ctx (logged (flush faults) w) T"
      using ins Inl by (cases ctx) (simp add: joined_def logged_def flush_def flush_events_eq)
    ultimately have "step web ?s1 (joined ctx (logged (flush faults) w) T)" by (simp only:)
    from converse_rtranclp_into_rtranclp [OF drain r_into_rtranclp [where r = "step web", OF this]] show ?thesis .
  next
    case (Inr u)
    let ?s2 = "?s1\<lparr> sy_conn := c, sy_phase := Written \<rparr>"
    let ?cvs = "cq_pending (wk_conversions w)" and ?p = "snd (conversion_drain [] (wk_conversions w))"
    let ?s3 = "?s2\<lparr> sy_http := (sy_http ?s2)\<lparr> hc_conversions := ?p \<rparr>, sy_phase := Recording ?cvs \<rparr>"
    have wrote: "step web ?s1 ?s2" using ins Inr by (intro step.write_clicks) (simp_all add: joined_def)
    have taken: "step web ?s2 ?s3"
      by (rule step.drain_postbacks) (simp_all add: joined_def conversion_drain_def)
    obtain r2 c2 where posts: "record_all faults ?cvs c = (r2, c2)" by fastforce
    then have "(step web)\<^sup>*\<^sup>* ?s3 (?s3\<lparr> sy_conn := c2, sy_phase := Ready \<rparr>)"
      by (intro record_all_steps) (simp_all add: joined_def)
    moreover have "?s3\<lparr> sy_conn := c2, sy_phase := Ready \<rparr> = joined ctx (logged (flush faults) w) T"
      using ins Inr posts
      by (cases ctx) (simp add: joined_def logged_def flush_def flush_events_eq flush_conversions_def conversion_drain_def on_conn_def Let_def)
    ultimately have "(step web)\<^sup>*\<^sup>* ?s3 (joined ctx (logged (flush faults) w) T)" by (simp only:)
    from converse_rtranclp_into_rtranclp [OF drain
        converse_rtranclp_into_rtranclp [OF wrote converse_rtranclp_into_rtranclp [OF taken this]]]
    show ?thesis .
  qed
qed

lemma refresh_steps:
  assumes "fresh_addr (sy_http (joined ctx w T)) (tk_addr t)"
  shows "(step web)\<^sup>*\<^sup>* (joined ctx w T) (joined ctx (run_refresh faults cfg t w) T)"
proof (cases "wk_next_refresh w \<le> tk_loop_start t")
  case True
  obtain r c where load: "load_snapshot faults (tk_built_at t) (wk_conn w) = (r, c)" by fastforce
  have "step web (joined ctx w T) (joined ctx (run_refresh faults cfg t w) T)"
  proof (cases r)
    case (Inl e)
    then have "step web (joined ctx w T) ((joined ctx w T)\<lparr> sy_conn := c \<rparr>)"
      using load by (intro step.refresh_failed) (simp_all add: joined_def)
    then show ?thesis using True load Inl by (simp add: joined_def run_refresh_def logged_def refresh_def on_conn_def)
  next
    case (Inr cat)
    then have "step web (joined ctx w T)
        ((joined ctx w T)\<lparr> sy_http := set_catalog \<lparr> cp_addr = tk_addr t, cp_obj = cat \<rparr> (sy_http (joined ctx w T)), sy_conn := c \<rparr>)"
      using load assms by (intro step.refreshed) (simp_all add: joined_def)
    then show ?thesis
      using True load Inr by (cases ctx) (simp add: joined_def run_refresh_def logged_def refresh_def on_conn_def set_catalog_def)
  qed
  then show ?thesis by simp
qed (simp add: run_refresh_def)

lemma maintenance_steps: "(step web)\<^sup>*\<^sup>* (joined ctx w T) (joined ctx (run_maintenance faults cfg t w) T)"
proof (cases "wk_next_maintenance w \<le> tk_loop_start t")
  case True
  obtain r c where m: "maintenance faults cfg (tk_now t) (wk_conn w) = (r, c)" by fastforce
  then have "step web (joined ctx w T) ((joined ctx w T)\<lparr> sy_conn := c \<rparr>)"
    by (intro step.maintain) (simp_all add: joined_def)
  with True m show ?thesis by (simp add: joined_def run_maintenance_def on_conn_def)
qed (simp add: run_maintenance_def)

section \<open>Sample states\<close>

definition sample_system :: "nat system" where
  "sample_system = \<lparr> sy_http = sample_context, sy_conn = opened_conn clicked_database, sy_phase = Ready,
     sy_issued = event_tokens clicked_database \<union> conversion_tokens clicked_database \<rparr>"

lemma sample_initial: "initial sample_system"
proof -
  have "catalog_wf sample_catalog" unfolding sample_catalog_def by (rule make_catalog_wf)
  then show ?thesis
    by (simp add: initial_def sample_system_def clicked_database_wf opened_conn_def sample_context_def handle_get_def
        new_event_queue_def new_conversion_queue_def)
qed

text \<open>The same server on an empty database.\<close>

definition quiet_system :: "nat system" where
  "quiet_system = sample_system\<lparr> sy_conn := opened_conn empty_database, sy_issued := {} \<rparr>"

lemma quiet_initial: "initial quiet_system"
proof -
  have "db_wf empty_database"
    by (simp add: empty_database_def db_wf_def items_wf_def children_wf_def events_wf_def conversions_wf_def stats_wf_def present_def)
  moreover have "event_tokens empty_database = {}" "conversion_tokens empty_database = {}"
    by (simp_all add: event_tokens_def conversion_tokens_def token_known_def empty_database_def)
  ultimately show ?thesis
    using sample_initial by (simp add: initial_def quiet_system_def opened_conn_def sample_system_def)
qed

end
