(* ===== verification/Migrations.thy ===== *)
theory Migrations
  imports Db_Facts Templating
begin

text \<open>
  Schema migrations: \<open>src/migrations.cpp\<close>. The directory listing and the file contents
  are arguments. Executing a migration script is sqlite's business: \<open>run_script\<close> is its effect
  on the tables, with an error and the tables left by the statements before it when the
  script fails half way. Scripts do not end the transaction they run in.

  \<open>std::sort\<close> does not promise an order for files with the same number; the order of the
  directory listing is arbitrary as well, so a stable sort covers every outcome.
\<close>

section \<open>Discovering\<close>

record migration =
  mg_version :: int
  mg_name :: string

definition migration_of :: "dir_entry \<Rightarrow> migration option" where
  "migration_of e =
     (if \<not> de_regular e \<or> de_extension e \<noteq> ''.sql'' then None
      else case from_chars (- (2 ^ 31)) (2 ^ 31 - 1) (de_name e) of
             None \<Rightarrow> None
           | Some (version, rest) \<Rightarrow>
               if version \<le> 0 then None else Some \<lparr> mg_version = version, mg_name = de_name e \<rparr>)"

definition version_less :: "migration \<Rightarrow> migration \<Rightarrow> bool" where
  "version_less a b \<longleftrightarrow> mg_version a < mg_version b"

definition discover :: "dir_entry list option \<Rightarrow> migration list option" where
  "discover dir = map_option (\<lambda>entries. stable_sort version_less (List.map_filter migration_of entries)) dir"

section \<open>Applying\<close>

type_synonym scripts = "string \<Rightarrow> database \<Rightarrow> sql_error option \<times> database"

definition db_throw :: "sql_error \<Rightarrow> 'a sql" where
  "db_throw e c = (Inl e, c)"

definition exec_script :: "faults \<Rightarrow> scripts \<Rightarrow> string \<Rightarrow> unit sql" where
  "exec_script faults run_script text =
     sqlite_call faults
       (\<lambda>c. case run_script text (cn_db c) of
              (None, d) \<Rightarrow> (Inr (), c\<lparr> cn_db := d \<rparr>)
            | (Some e, d) \<Rightarrow> (Inl e, c\<lparr> cn_db := d \<rparr>))"

definition set_user_version :: "faults \<Rightarrow> int \<Rightarrow> unit sql" where
  "set_user_version faults v = stmt_step faults (\<lambda>d. Inr ((), d\<lparr> db_user_version := v \<rparr>))"

definition migration_body :: "faults \<Rightarrow> scripts \<Rightarrow> (string \<Rightarrow> string option) \<Rightarrow> migration \<Rightarrow> unit sql" where
  "migration_body faults run_script read_file m =
     db_bind (case read_file (mg_name m) of None \<Rightarrow> db_throw FileError | Some text \<Rightarrow> exec_script faults run_script text)
       (\<lambda>_. set_user_version faults (mg_version m))"

fun apply_loop :: "faults \<Rightarrow> scripts \<Rightarrow> (string \<Rightarrow> string option) \<Rightarrow> migration list \<Rightarrow> int \<Rightarrow> int sql" where
  "apply_loop faults run_script read_file [] current = db_return current"
| "apply_loop faults run_script read_file (m # ms) current =
     (if mg_version m \<le> current then apply_loop faults run_script read_file ms current
      else db_bind (in_transaction faults (migration_body faults run_script read_file m))
             (\<lambda>_. apply_loop faults run_script read_file ms (mg_version m)))"

definition apply_migrations ::
  "faults \<Rightarrow> scripts \<Rightarrow> (string \<Rightarrow> string option) \<Rightarrow> dir_entry list option \<Rightarrow> int sql" where
  "apply_migrations faults run_script read_file dir =
     db_bind (stmt_read faults db_user_version) (\<lambda>current.
       case discover dir of
         None \<Rightarrow> db_throw FileError
       | Some ms \<Rightarrow> apply_loop faults run_script read_file ms current)"

section \<open>What a run may do\<close>

text \<open>The migrations a run applies, in order, when nothing fails, and the effect of one.\<close>

fun pending :: "int \<Rightarrow> migration list \<Rightarrow> migration list" where
  "pending current [] = []"
| "pending current (m # ms) =
     (if mg_version m \<le> current then pending current ms else m # pending (mg_version m) ms)"

text \<open>
  Files that share a number: the first in the order applies, the others are skipped without a
  word, and the order among them is not fixed.
\<close>

lemma shared_version_skipped:
  assumes "current < mg_version m" and "\<forall>m' \<in> set others. mg_version m' = mg_version m"
  shows "pending current (m # others @ ms) = m # pending (mg_version m) ms"
proof -
  have "\<forall>m' \<in> set others. mg_version m' \<le> mg_version m" using assms(2) by (blast intro: eq_refl)
  then have "pending (mg_version m) (others @ ms) = pending (mg_version m) ms" by (induction others) auto
  with assms(1) show ?thesis by simp
qed

definition migrated :: "scripts \<Rightarrow> (string \<Rightarrow> string option) \<Rightarrow> database \<Rightarrow> migration \<Rightarrow> database" where
  "migrated run_script read_file d m =
     (snd (run_script (the (read_file (mg_name m))) d))\<lparr> db_user_version := mg_version m \<rparr>"

lemma keeps_transaction_script: "keeps_transaction (exec_script faults run_script text)"
  unfolding keeps_transaction_def
  by (auto simp: exec_script_def sqlite_call_def Let_def roll_back_def split: fault.splits prod.splits option.splits)

interpretation migration: transaction_body "migration_body faults run_script read_file m"
  for faults run_script read_file m
proof
  have "keeps_transaction (db_throw e)" for e :: sql_error
    by (simp add: keeps_transaction_def db_throw_def)
  then show "keeps_transaction (migration_body faults run_script read_file m)"
    unfolding migration_body_def set_user_version_def
    by (auto intro!: keeps_transaction_intros keeps_transaction_script split: option.split)
qed

lemma migration_body_result:
  assumes "migration_body faults run_script read_file m c = (Inr u, c')"
  shows "cn_db c' = migrated run_script read_file (cn_db c) m"
proof -
  from assms obtain script c1 where script: "read_file (mg_name m) = Some script"
    and run: "exec_script faults run_script script c = (Inr (), c1)"
    and ver: "set_user_version faults (mg_version m) c1 = (Inr (), c')"
    by (auto simp: migration_body_def db_bind_Inr db_throw_def split: option.splits)
  from run have "cn_db c1 = snd (run_script script (cn_db c))"
    by (auto simp: exec_script_def sqlite_call_def Let_def split: fault.splits prod.splits option.splits)
  with ver script show ?thesis
    unfolding set_user_version_def migrated_def by (auto elim!: stmt_step_cases)
qed

text \<open>One migration step, from the contract of transactions.\<close>

lemma migration_step:
  assumes "in_transaction faults (migration_body faults run_script read_file m) c = (r, c')" and "cn_saved c = None"
  shows "(r = Inr () \<and> cn_saved c' = None \<and> cn_db c' = migrated run_script read_file (cn_db c) m) \<or>
    ((\<exists>e. r = Inl e) \<and> committed c' = cn_db c)"
proof -
  from migration.atomic [OF assms] consider
      c1 c2 where "r = Inr ()" "cn_db c1 = cn_db c" "migration_body faults run_script read_file m c1 = (Inr (), c2)"
        "cn_saved c' = None" "cn_db c' = cn_db c2"
    | "\<exists>e. r = Inl e" "committed c' = cn_db c"
    by auto
  then show ?thesis
    by cases (use migration_body_result in fastforce, simp)
qed

lemma apply_loop_prefix:
  assumes "apply_loop faults run_script read_file ms current c = (r, c')" and "cn_saved c = None"
  shows "\<exists>k. k \<le> length (pending current ms) \<and>
    committed c' = foldl (migrated run_script read_file) (cn_db c) (take k (pending current ms)) \<and>
    (\<forall>v. r = Inr v \<longrightarrow> k = length (pending current ms) \<and> cn_saved c' = None \<and>
       v = foldl (\<lambda>_ m. mg_version m) current (pending current ms))"
  using assms
proof (induction ms arbitrary: current c)
  case Nil
  then show ?case by (auto simp: db_return_def committed_def)
next
  case (Cons m ms)
  show ?case
  proof (cases "mg_version m \<le> current")
    case True
    with Cons show ?thesis by simp
  next
    case False
    obtain r1 c1 where step: "in_transaction faults (migration_body faults run_script read_file m) c = (r1, c1)"
      by fastforce
    show ?thesis
    proof (cases r1)
      case (Inl e)
      with migration_step [OF step Cons.prems(2)] Cons.prems(1) False step show ?thesis
        by (intro exI [of _ 0]) (auto simp: db_bind_def)
    next
      case (Inr u)
      with migration_step [OF step Cons.prems(2)] have c1: "cn_saved c1 = None"
        "cn_db c1 = migrated run_script read_file (cn_db c) m" by auto
      from Cons.prems(1) False step Inr have "apply_loop faults run_script read_file ms (mg_version m) c1 = (r, c')"
        by (simp add: db_bind_def)
      from Cons.IH [OF this c1(1)] obtain k where "k \<le> length (pending (mg_version m) ms)"
        "committed c' = foldl (migrated run_script read_file) (cn_db c1) (take k (pending (mg_version m) ms))"
        "\<forall>v. r = Inr v \<longrightarrow> k = length (pending (mg_version m) ms) \<and> cn_saved c' = None \<and>
           v = foldl (\<lambda>_ m. mg_version m) (mg_version m) (pending (mg_version m) ms)"
        by blast
      with False c1(2) show ?thesis by (intro exI [of _ "Suc k"]) auto
    qed
  qed
qed

section \<open>Which versions are applied\<close>

lemma pending_subset: "m \<in> set (pending current ms) \<Longrightarrow> m \<in> set ms \<and> current < mg_version m"
  by (induction current ms rule: pending.induct) (auto split: if_splits)

lemma pending_increasing: "sorted_wrt (<) (map mg_version (pending current ms))"
  by (induction current ms rule: pending.induct) (auto dest: pending_subset)

lemma pending_covers:
  assumes "sorted_wrt (\<lambda>a b. mg_version a \<le> mg_version b) ms" and "m \<in> set ms" and "current < mg_version m"
  shows "mg_version m \<in> set (map mg_version (pending current ms))"
  using assms
proof (induction current ms rule: pending.induct)
  case (2 current m' ms)
  show ?case
  proof (cases "mg_version m' \<le> current")
    case True
    with 2 show ?thesis by auto
  next
    case False
    with 2 show ?thesis by (cases "mg_version m = mg_version m'") auto
  qed
qed simp

interpretation version_order: strict_weak version_less
  by unfold_locales (auto simp: version_less_def)

lemma discover_sorted: "discover dir = Some ms \<Longrightarrow> sorted_wrt (\<lambda>a b. mg_version a \<le> mg_version b) ms"
  using version_order.ordered_stable_sort
  by (auto simp: discover_def version_less_def not_less)

lemma last_version: "foldl (\<lambda>_ m. mg_version m) current ps = (if ps = [] then current else mg_version (last ps))"
  by (induction ps arbitrary: current) auto

lemma foldl_migrated_version:
  "db_user_version (foldl (migrated run_script read_file) d ps) =
     foldl (\<lambda>_ m. mg_version m) (db_user_version d) ps"
  by (induction ps arbitrary: d) (simp_all add: migrated_def)

lemma pending_done: "pending (foldl (\<lambda>_ m. mg_version m) current (pending current ms)) ms = []"
proof -
  have le: "current \<le> foldl (\<lambda>_ m. mg_version m) current (pending current ms)" for current ms
    using pending_subset [of "last (pending current ms)" current ms]
    by (cases "pending current ms = []") (simp_all add: last_version)
  have all: "m \<in> set ms \<Longrightarrow> mg_version m \<le> foldl (\<lambda>_ m. mg_version m) current (pending current ms)" for m
    by (induction current ms rule: pending.induct) (auto intro: order_trans [OF _ le])
  have none: "(\<And>m. m \<in> set ms \<Longrightarrow> mg_version m \<le> v) \<Longrightarrow> pending v ms = []" for v
    by (induction v ms rule: pending.induct) auto
  show ?thesis by (rule none) (rule all)
qed

text \<open>The start of a run, and the run of the loop after it.\<close>

lemma apply_migrations_start:
  assumes "apply_migrations faults run_script read_file dir c = (r, c')" and "cn_saved c = None"
    and "discover dir = Some ms"
  shows "(\<exists>e. r = Inl e) \<and> committed c' = cn_db c \<or>
    (\<exists>c1. cn_db c1 = cn_db c \<and> cn_saved c1 = None \<and>
       apply_loop faults run_script read_file ms (db_user_version (cn_db c)) c1 = (r, c'))"
proof -
  obtain r1 c1 where start: "stmt_read faults db_user_version c = (r1, c1)" by fastforce
  from start [unfolded stmt_read_def] assms(2)
  have "cn_db c1 = cn_db c \<and> cn_saved c1 = None \<and> (\<forall>v. r1 = Inr v \<longrightarrow> v = db_user_version (cn_db c))"
    by (cases rule: stmt_step_cases) auto
  with assms start show ?thesis
    by (cases r1) (auto simp: apply_migrations_def db_bind_def committed_def)
qed

text \<open>A block that opens a connection and migrates, as the server and the admin tool do.\<close>

lemma migrate_block_prefix:
  assumes "with_conn faults d (apply_migrations faults run_script read_file dir) = (r, d')"
  shows "\<exists>todo k. d' = foldl (migrated run_script read_file) d (take k todo) \<and>
    (\<forall>ms. discover dir = Some ms \<longrightarrow> todo = pending (db_user_version d) ms) \<and>
    (\<forall>v. r = Inr v \<longrightarrow> length todo \<le> k \<and> v = db_user_version d')"
  using assms
proof (cases rule: with_conn_cases)
  case (refused e)
  then show ?thesis by (cases "discover dir") (auto intro!: exI [of _ 0])
next
  case (opened c c')
  show ?thesis
  proof (cases "discover dir")
    case None
    obtain r1 c1 where read: "stmt_read faults db_user_version c = (r1, c1)" by fastforce
    from stmt_read_committed [OF read opened(2)] opened None read
    have "d' = d \<and> (\<exists>e. r = Inl e)"
      by (cases r1) (auto simp: apply_migrations_def db_bind_def db_throw_def)
    with None show ?thesis by (intro exI [of _ "[]"] exI [of _ 0]) auto
  next
    case (Some ms)
    let ?todo = "pending (db_user_version d) ms"
    from apply_migrations_start [OF opened(4,2) Some] consider
        "\<exists>e. r = Inl e" "committed c' = cn_db c"
      | c1 where "cn_db c1 = cn_db c" "cn_saved c1 = None"
          "apply_loop faults run_script read_file ms (db_user_version (cn_db c)) c1 = (r, c')" by blast
    then show ?thesis
    proof cases
      case 1
      then show ?thesis using opened Some by (intro exI [of _ ?todo] exI [of _ 0]) auto
    next
      case (2 c1)
      from apply_loop_prefix [OF 2(3,2)] opened obtain k where "d' = foldl (migrated run_script read_file) d (take k ?todo)"
        "\<forall>v. r = Inr v \<longrightarrow> k = length ?todo \<and> v = foldl (\<lambda>_ m. mg_version m) (db_user_version d) ?todo"
        by (auto simp: 2(1))
      then show ?thesis using Some by (intro exI [of _ ?todo] exI [of _ k]) (auto simp: foldl_migrated_version)
    qed
  qed
qed

lemma migrate_block_done:
  assumes "with_conn faults d (apply_migrations faults run_script read_file dir) = (Inr v, d')"
  shows "\<exists>ms. discover dir = Some ms \<and> d' = foldl (migrated run_script read_file) d (pending (db_user_version d) ms)"
proof -
  from migrate_block_prefix [OF assms] obtain todo k where k:
    "d' = foldl (migrated run_script read_file) d (take k todo)" "length todo \<le> k"
    "\<And>ms. discover dir = Some ms \<Longrightarrow> todo = pending (db_user_version d) ms" by auto
  moreover from assms have "discover dir \<noteq> None"
  proof (cases rule: with_conn_cases)
    case (opened c c')
    obtain r1 c1 where "stmt_read faults db_user_version c = (r1, c1)" by fastforce
    with opened(4) show ?thesis
      by (cases r1) (auto simp: apply_migrations_def db_bind_def db_throw_def split: option.splits)
  qed simp
  ultimately show ?thesis by auto
qed

text \<open>What the pending migrations are, without the loop: one of each newer version, by rising version.\<close>

lemma pending_spec:
  assumes "discover dir = Some ms"
  shows "set (pending current ms) \<subseteq> set ms" and "sorted_wrt (<) (map mg_version (pending current ms))"
    and "set (map mg_version (pending current ms)) = {v \<in> set (map mg_version ms). current < v}"
  using pending_subset pending_increasing pending_covers [OF discover_sorted [OF assms]] by fastforce+

lemma all_migrated:
  assumes "discover dir = Some ms" and "m \<in> set ms"
  shows "mg_version m \<le> db_user_version (foldl (migrated run_script read_file) d (pending (db_user_version d) ms))"
  using pending_covers [OF discover_sorted [OF assms(1)] assms(2),
      of "foldl (\<lambda>_ m. mg_version m) (db_user_version d) (pending (db_user_version d) ms)"] pending_done [of "db_user_version d" ms]
  by (force simp: foldl_migrated_version not_le)

text \<open>
  \<^bold>\<open>C27.\<close> A run of the migrations, whatever fails in it, leaves the committed database
  after some number of whole migrations: those discovered with a version above the stored
  one, each version once, in increasing order, every script together with its version
  number or not at all. When the run returns, all of them were applied and the returned
  version is the one stored.
\<close>

theorem migrations_stop_at_whole_versions:
  assumes "apply_migrations faults run_script read_file dir c = (r, c')" and "cn_saved c = None"
    and "discover dir = Some ms" and todo: "todo = pending (db_user_version (cn_db c)) ms"
  shows "sorted_wrt (<) (map mg_version todo) \<and>
    set (map mg_version todo) = {v \<in> set (map mg_version ms). db_user_version (cn_db c) < v} \<and>
    (\<exists>k \<le> length todo.
       committed c' = foldl (migrated run_script read_file) (cn_db c) (take k todo) \<and>
       (\<forall>v. r = Inr v \<longrightarrow> k = length todo \<and> v = db_user_version (committed c')))"
proof (intro conjI)
  show "sorted_wrt (<) (map mg_version todo)" unfolding todo by (rule pending_increasing)
  show "set (map mg_version todo) = {v \<in> set (map mg_version ms). db_user_version (cn_db c) < v}"
    unfolding todo using pending_subset pending_covers [OF discover_sorted [OF assms(3)]] by fastforce
  from apply_migrations_start [OF assms(1-3)]
  show "\<exists>k \<le> length todo. committed c' = foldl (migrated run_script read_file) (cn_db c) (take k todo) \<and>
      (\<forall>v. r = Inr v \<longrightarrow> k = length todo \<and> v = db_user_version (committed c'))"
  proof
    assume "\<exists>c1. cn_db c1 = cn_db c \<and> cn_saved c1 = None \<and>
        apply_loop faults run_script read_file ms (db_user_version (cn_db c)) c1 = (r, c')"
    then obtain c1 where c1: "cn_db c1 = cn_db c" "cn_saved c1 = None"
      "apply_loop faults run_script read_file ms (db_user_version (cn_db c)) c1 = (r, c')" by blast
    from apply_loop_prefix [OF c1(3,2)] show ?thesis
      unfolding todo c1(1) by (auto simp: foldl_migrated_version)
  qed (auto intro!: exI [of _ 0])
qed

definition sample_scripts :: scripts where
  "sample_scripts script d = (if script = ''bad'' then (Some IoError, d\<lparr> db_stats := [] \<rparr>) else (None, d))"

definition sample_dir :: "dir_entry list" where
  "sample_dir = [\<lparr> de_name = ''2_b.sql'', de_regular = True, de_extension = ''.sql'' \<rparr>,
     \<lparr> de_name = ''README'', de_regular = True, de_extension = [] \<rparr>,
     \<lparr> de_name = ''1_a.sql'', de_regular = True, de_extension = ''.sql'' \<rparr>]"

lemma sample_discover: "discover (Some sample_dir) =
    Some [\<lparr> mg_version = 1, mg_name = ''1_a.sql'' \<rparr>, \<lparr> mg_version = 2, mg_name = ''2_b.sql'' \<rparr>]"
  by (simp add: discover_def sample_dir_def List.map_filter_simps migration_of_def from_chars_def is_digit_def
      char_code_def digits_value_def stable_sort_def version_less_def)

theorem migrations_stop_at_whole_versions_witness:
  "\<exists>k \<le> 1. committed (snd (apply_migrations (\<lambda>_. NoFault) sample_scripts (\<lambda>_. Some ''bad'') (Some sample_dir)
      (new_conn empty_database))) =
    foldl (migrated sample_scripts (\<lambda>_. Some ''bad'')) empty_database
      (take k [\<lparr> mg_version = 2, mg_name = ''2_b.sql'' \<rparr>])"
proof -
  let ?run = "apply_migrations (\<lambda>_. NoFault) sample_scripts (\<lambda>_. Some ''bad'') (Some sample_dir) (new_conn empty_database)"
  have "cn_saved (new_conn empty_database) = None" by (simp add: new_conn_def)
  from migrations_stop_at_whole_versions [OF prod.collapse [symmetric, of ?run] this sample_discover refl]
  show ?thesis by (auto simp: new_conn_def empty_database_def)
qed

section \<open>Running to the end\<close>

lemma migration_succeeds:
  assumes "\<And>n. faults n = NoFault" and "\<And>script d. fst (run_script script d) = None"
    and "read_file (mg_name m) = Some script" and "cn_saved c = None"
  shows "\<exists>c'. in_transaction faults (migration_body faults run_script read_file m) c = (Inr (), c') \<and> cn_saved c' = None"
proof -
  obtain d where "run_script script (cn_db c) = (None, d)" using assms(2) by (metis prod.collapse)
  with assms show ?thesis
    by (simp add: in_transaction_def dbm_simps migration_body_def exec_script_def set_user_version_def Let_def)
qed

lemma apply_loop_succeeds:
  assumes "\<And>n. faults n = NoFault" and "\<And>script d. fst (run_script script d) = None"
    and "\<And>m. m \<in> set ms \<Longrightarrow> read_file (mg_name m) \<noteq> None" and "cn_saved c = None"
  shows "\<exists>v c'. apply_loop faults run_script read_file ms current c = (Inr v, c') \<and> cn_saved c' = None"
  using assms(3,4)
proof (induction ms arbitrary: current c)
  case (Cons m ms)
  show ?case
  proof (cases "mg_version m \<le> current")
    case True
    with Cons show ?thesis by simp
  next
    case False
    from Cons.prems(1) obtain script where "read_file (mg_name m) = Some script" by auto
    from migration_succeeds [where faults = faults and run_script = run_script and read_file = read_file and m = m, OF assms(1,2) this Cons.prems(2)]
    obtain c1 where
      "in_transaction faults (migration_body faults run_script read_file m) c = (Inr (), c1)" "cn_saved c1 = None"
      by blast
    with Cons.IH [of c1 "mg_version m"] Cons.prems(1) False show ?thesis by (simp add: db_bind_def)
  qed
qed (simp add: db_return_def)

lemma apply_migrations_result:
  assumes "apply_migrations faults run_script read_file dir c = (Inr v, c')" and "cn_saved c = None"
    and "discover dir = Some ms"
  shows "cn_saved c' = None" "cn_db c' = foldl (migrated run_script read_file) (cn_db c) (pending (db_user_version (cn_db c)) ms)"
    "v = db_user_version (cn_db c')" "pending (db_user_version (cn_db c')) ms = []"
proof -
  from apply_migrations_start [OF assms] obtain c1 where c1: "cn_db c1 = cn_db c" "cn_saved c1 = None"
    "apply_loop faults run_script read_file ms (db_user_version (cn_db c)) c1 = (Inr v, c')" by auto
  from apply_loop_prefix [OF c1(3,2)] show "cn_saved c' = None"
    "cn_db c' = foldl (migrated run_script read_file) (cn_db c) (pending (db_user_version (cn_db c)) ms)"
    "v = db_user_version (cn_db c')" "pending (db_user_version (cn_db c')) ms = []"
    by (auto simp: committed_def c1(1) foldl_migrated_version pending_done)
qed

text \<open>
  \<^bold>\<open>C28.\<close> Migrating converges: when the files can be read and sqlite executes the
  scripts, the run returns, no discovered version is newer than the stored one afterwards,
  and migrating again (every start of the server does) returns the same version and changes
  nothing.
\<close>

theorem migrations_converge:
  assumes "\<And>n. faults n = NoFault" and "\<And>script d. fst (run_script script d) = None"
    and "discover dir = Some ms" and "\<And>m. m \<in> set ms \<Longrightarrow> read_file (mg_name m) \<noteq> None" and "cn_saved c = None"
  shows "\<exists>v c1 c2. apply_migrations faults run_script read_file dir c = (Inr v, c1) \<and>
    apply_migrations faults run_script read_file dir c1 = (Inr v, c2) \<and> cn_db c2 = cn_db c1 \<and>
    v = db_user_version (cn_db c1) \<and> list_all (\<lambda>m. mg_version m \<le> v) ms"
proof -
  have runs: "\<exists>v c'. apply_migrations faults run_script read_file dir c = (Inr v, c')" if "cn_saved c = None" for c
    using apply_loop_succeeds [where faults = faults and run_script = run_script and read_file = read_file
        and ms = ms and c = "c\<lparr> cn_calls := Suc (cn_calls c) \<rparr>", OF assms(1,2,4)] that
    by (fastforce simp: apply_migrations_def assms(1,3) dbm_simps Let_def)
  from runs [OF assms(5)] obtain v c1 where one: "apply_migrations faults run_script read_file dir c = (Inr v, c1)" by blast
  note first = apply_migrations_result [OF one assms(5,3)]
  from runs [OF first(1)] obtain w c2 where two: "apply_migrations faults run_script read_file dir c1 = (Inr w, c2)" by blast
  note again = apply_migrations_result [OF two first(1) assms(3)]
  have "cn_db c2 = cn_db c1" using again(2) first(4) by simp
  moreover have "list_all (\<lambda>m. mg_version m \<le> v) ms"
  proof -
    have "mg_version m \<le> v" if "m \<in> set ms" for m
      using pending_covers [OF discover_sorted [OF assms(3)] that, of v] first(3,4) by (force simp: not_le)
    then show ?thesis by (simp add: list_all_iff)
  qed
  ultimately show ?thesis using one two first(3) again(3) by auto
qed

theorem migrations_converge_witness:
  "\<exists>v c1 c2. apply_migrations (\<lambda>_. NoFault) (\<lambda>_ d. (None, d)) (\<lambda>_. Some []) (Some sample_dir) (new_conn empty_database) = (Inr v, c1) \<and>
    apply_migrations (\<lambda>_. NoFault) (\<lambda>_ d. (None, d)) (\<lambda>_. Some []) (Some sample_dir) c1 = (Inr v, c2) \<and> 2 \<le> v"
proof -
  have "cn_saved (new_conn empty_database) = None" by (simp add: new_conn_def)
  from migrations_converge [OF _ _ sample_discover _ this, of "\<lambda>_. NoFault" "\<lambda>_ d. (None, d)" "\<lambda>_. Some []"]
  show ?thesis by auto
qed

end
