(* ===== verification/Process.thy ===== *)
theory Process
  imports Server_System Migrations
begin

text \<open>
  The server process: \<open>src/main.cpp\<close>. \<open>server_main\<close> is the start: options, configuration,
  migrations, the first snapshot, the database thread, the handler context; it ends with an exit
  code, with \<open>std::terminate\<close>, or with a running system whose further life is the step
  relation of \<open>Server_System\<close>. Every connection has its own sequence of sqlite calls, hence its own
  \<open>faults\<close>. \<open>wait_step\<close> is the wait for a signal, \<open>shut_down\<close> what follows it.

  The first turns of the database thread may overlap the construction of the HTTP server; the
  queues are empty then, and the turns are steps of the running system as well.
\<close>

section \<open>Starting\<close>

record process_options =
  po_help :: bool
  po_config :: "string option"

record ('n, 't) process_world =
  pw_sodium_init :: int
  pw_toml :: "'n toml_lib"
  pw_parse_file :: "string \<Rightarrow> 'n table option"
  pw_scripts :: scripts
  pw_migration_files :: "string \<Rightarrow> dir_entry list option"
  pw_read_file :: "string \<Rightarrow> string \<Rightarrow> string option"
  pw_template_files :: "string \<Rightarrow> dir_entry list option"
  pw_parse_template :: "string \<Rightarrow> string \<Rightarrow> 't option"
  pw_migrate_faults :: faults
  pw_refresh_faults :: faults
  pw_worker_faults :: faults
  pw_built_at :: ts_ms
  pw_first_addr :: nat
  pw_addr :: nat

datatype 't outcome = Exit int | Terminated | Serving "'t system"

text \<open>\<open>CatalogHandle catalog;\<close> holds an empty snapshot.\<close>

definition new_handle :: "nat \<Rightarrow> catalog_handle" where
  "new_handle addr = \<lparr> ch_ptr = \<lparr> cp_addr = addr, cp_obj = empty_catalog \<rparr> \<rparr>"

text \<open>
  The body of the \<open>try\<close> after the configuration is loaded. The thread function of the worker has
  no handler around its \<open>DbConn\<close>: when opening it fails, the exception leaves the thread.
\<close>

definition boot :: "('n, 't) process_world \<Rightarrow> config \<Rightarrow> database \<Rightarrow> 't outcome \<times> database" where
  "boot w cfg d =
     (case with_conn (pw_migrate_faults w) d
             (apply_migrations (pw_migrate_faults w) (pw_scripts w) (pw_read_file w (cfg_migrations_dir cfg))
                (pw_migration_files w (cfg_migrations_dir cfg))) of
        (Inl e, d1) \<Rightarrow> (Exit 1, d1)
      | (Inr v, d1) \<Rightarrow>
          let events = new_event_queue (nat (cfg_event_queue_capacity cfg)); conversions = new_conversion_queue
          in case refresh_now (pw_refresh_faults w) (pw_built_at w) (pw_addr w) d1 (new_handle (pw_first_addr w)) of
               Inl e \<Rightarrow> (Exit 1, d1)
             | Inr catalog \<Rightarrow>
                 (case connect (pw_worker_faults w) (new_conn d1) of
                    (Inl e, c) \<Rightarrow> (Terminated, d1)
                  | (Inr u, c) \<Rightarrow>
                      (case new_handler_context (pw_parse_template w (cfg_templates_dir cfg))
                              (pw_template_files w (cfg_templates_dir cfg)) cfg catalog events conversions of
                         Inl e \<Rightarrow> (Exit 1, d1)
                       | Inr ctx \<Rightarrow>
                           (Serving \<lparr> sy_http = ctx, sy_conn = c, sy_phase = Ready,
                              sy_issued = event_tokens d1 \<union> conversion_tokens d1 \<rparr>, d1))))"

definition server_main ::
  "('n, 't) process_world \<Rightarrow> process_options option \<Rightarrow> (string \<Rightarrow> database) \<Rightarrow> 't outcome \<times> (string \<Rightarrow> database)" where
  "server_main w parsed disk =
     (case parsed of
        None \<Rightarrow> (Exit 2, disk)
      | Some vm \<Rightarrow>
          if po_help vm then (Exit 0, disk)
          else case po_config vm of
                 None \<Rightarrow> (Exit 2, disk)
               | Some path \<Rightarrow>
                   if pw_sodium_init w < 0 then (Exit 1, disk)
                   else case load_config (pw_toml w) (pw_parse_file w path) of
                          Inl e \<Rightarrow> (Exit 1, disk)
                        | Inr cfg \<Rightarrow>
                            (case boot w cfg (disk (cfg_db_path cfg)) of (out, d) \<Rightarrow> (out, disk(cfg_db_path cfg := d))))"

section \<open>Waiting for the signal\<close>

text \<open>
  \<open>g_shutdown_cv.wait(lk, pred)\<close> is \<open>while (!pred()) g_shutdown_cv.wait(lk)\<close>: the main thread tests
  the flag, and when it is not set blocks until it is notified. The handler sets the flag and
  notifies; it does not take the mutex, so it can run between the test and the blocking. A wait may also
  end without a notification, as C++ allows; that is nothing the main thread does by itself.
\<close>

datatype waiting = Testing | GoingToBlock | Blocked | Released

record waiter =
  wa_shutdown :: bool
  wa_at :: waiting

definition new_waiter :: waiter where
  "new_waiter = \<lparr> wa_shutdown = False, wa_at = Testing \<rparr>"

definition request_shutdown :: "waiter \<Rightarrow> waiter" where
  "request_shutdown s = \<lparr> wa_shutdown = True, wa_at = (if wa_at s = Blocked then Testing else wa_at s) \<rparr>"

text \<open>What the main thread does by itself.\<close>

inductive main_step :: "waiter \<Rightarrow> waiter \<Rightarrow> bool" where
  test_set: "wa_at s = Testing \<Longrightarrow> wa_shutdown s \<Longrightarrow> main_step s (s\<lparr> wa_at := Released \<rparr>)"
| test_unset: "wa_at s = Testing \<Longrightarrow> \<not> wa_shutdown s \<Longrightarrow> main_step s (s\<lparr> wa_at := GoingToBlock \<rparr>)"
| block: "wa_at s = GoingToBlock \<Longrightarrow> main_step s (s\<lparr> wa_at := Blocked \<rparr>)"

inductive wait_step :: "waiter \<Rightarrow> waiter \<Rightarrow> bool" where
  main_goes: "main_step s t \<Longrightarrow> wait_step s t"
| signal: "wait_step s (request_shutdown s)"
| spurious: "wa_at s = Blocked \<Longrightarrow> wait_step s (s\<lparr> wa_at := Testing \<rparr>)"

inductive_cases main_step_elim: "main_step s t"
inductive_cases wait_step_elim: "wait_step s t"

section \<open>Stopping\<close>

text \<open>
  After the wait: \<open>server.stop()\<close>, so that no request comes any more, then \<open>db.stop()\<close>, which lets
  the thread leave its loop through the last flush, and exit code 0.
\<close>

definition shut_down :: "faults \<Rightarrow> worker \<Rightarrow> int \<times> worker" where
  "shut_down faults w = (0, run_exit faults w)"

section \<open>The start is an initial state\<close>

lemma db_wf_version [simp]: "db_wf (d\<lparr> db_user_version := v \<rparr>) = db_wf d"
  by (simp add: db_wf_def items_wf_def children_wf_def events_wf_def conversions_wf_def stats_wf_def)

lemma foldl_migrated_wf:
  assumes "\<And>script d. db_wf d \<Longrightarrow> db_wf (snd (run_script script d))" and "db_wf d"
  shows "db_wf (foldl (migrated run_script read_file) d ms)"
proof -
  have "db_wf d \<Longrightarrow> db_wf (migrated run_script read_file d m)" for d m
    unfolding migrated_def db_wf_version by (rule assms(1))
  then show ?thesis using assms(2) by (induction ms arbitrary: d) simp_all
qed

lemma refresh_now_Inr:
  assumes "refresh_now faults now addr d h = Inr h'"
  shows "h' = \<lparr> ch_ptr = \<lparr> cp_addr = addr, cp_obj = make_catalog now (loaded_items d) (map partner_of_row (db_partners d)) \<rparr> \<rparr>"
proof -
  obtain r d' where run: "with_conn faults d (load_snapshot faults now) = (r, d')" by fastforce
  from assms run obtain cat where cat: "r = Inr cat" "h' = handle_set \<lparr> cp_addr = addr, cp_obj = cat \<rparr> h"
    by (auto simp: refresh_now_def split: sum.splits)
  from run show ?thesis
  proof (cases rule: with_conn_cases)
    case (opened c c')
    with cat load_snapshot_Inr [of faults now c cat c'] show ?thesis by (simp add: handle_set_def)
  qed (use cat in simp)
qed

lemma boot_cases:
  assumes "boot w cfg d = (out, d1)"
  shows "(\<exists>todo k. d1 = foldl (migrated (pw_scripts w) (pw_read_file w (cfg_migrations_dir cfg))) d (take k todo) \<and>
      (\<forall>s. out = Serving s \<longrightarrow> length todo \<le> k)) \<and>
    (\<forall>s. out = Serving s \<longrightarrow> (\<exists>ms. discover (pw_migration_files w (cfg_migrations_dir cfg)) = Some ms \<and>
       d1 = foldl (migrated (pw_scripts w) (pw_read_file w (cfg_migrations_dir cfg))) d (pending (db_user_version d) ms))) \<and>
    (\<forall>n. out = Exit n \<longrightarrow> n = 1) \<and>
    (\<forall>s. out = Serving s \<longrightarrow>
       cn_db (sy_conn s) = d1 \<and> cn_saved (sy_conn s) = None \<and> sy_phase s = Ready \<and>
       sy_issued s = event_tokens d1 \<union> conversion_tokens d1 \<and> hc_cfg (sy_http s) = cfg \<and>
       cp_obj (handle_get (hc_catalog (sy_http s))) =
         make_catalog (pw_built_at w) (loaded_items d1) (map partner_of_row (db_partners d1)) \<and>
       hc_events (sy_http s) = new_event_queue (nat (cfg_event_queue_capacity cfg)) \<and>
       hc_conversions (sy_http s) = new_conversion_queue \<and>
       hc_feed_cache_for (sy_http s) = None \<and> hc_feed_cache (sy_http s) = [])"
proof -
  let ?run = "with_conn (pw_migrate_faults w) d
      (apply_migrations (pw_migrate_faults w) (pw_scripts w) (pw_read_file w (cfg_migrations_dir cfg))
         (pw_migration_files w (cfg_migrations_dir cfg)))"
  obtain r d0 where run: "?run = (r, d0)" by fastforce
  have d0: "d1 = d0" using assms run
    by (auto simp: boot_def Let_def split: sum.splits prod.splits)
  have inr: "out = Serving s \<Longrightarrow> \<exists>v. r = Inr v" for s using assms run by (cases r) (auto simp: boot_def)
  have "out = Exit n \<Longrightarrow> n = 1" for n using assms run
    by (auto simp: boot_def Let_def split: sum.splits prod.splits)
  moreover have "cn_db (sy_conn s) = d1 \<and> cn_saved (sy_conn s) = None \<and> sy_phase s = Ready \<and>
       sy_issued s = event_tokens d1 \<union> conversion_tokens d1 \<and> hc_cfg (sy_http s) = cfg \<and>
       cp_obj (handle_get (hc_catalog (sy_http s))) =
         make_catalog (pw_built_at w) (loaded_items d1) (map partner_of_row (db_partners d1)) \<and>
       hc_events (sy_http s) = new_event_queue (nat (cfg_event_queue_capacity cfg)) \<and>
       hc_conversions (sy_http s) = new_conversion_queue \<and>
       hc_feed_cache_for (sy_http s) = None \<and> hc_feed_cache (sy_http s) = []" if s: "out = Serving s" for s
    using assms run inr [OF s] s connect_cases [of "pw_worker_faults w" d1] d0
    by (auto simp: boot_def Let_def new_handler_context_def handle_get_def sum_bind_Inr
        split: sum.splits prod.splits dest!: refresh_now_Inr)
  moreover from migrate_block_prefix [OF run] inr d0
  have "\<exists>todo k. d1 = foldl (migrated (pw_scripts w) (pw_read_file w (cfg_migrations_dir cfg))) d (take k todo) \<and>
      (\<forall>s. out = Serving s \<longrightarrow> length todo \<le> k)" by blast
  moreover have "\<exists>ms. discover (pw_migration_files w (cfg_migrations_dir cfg)) = Some ms \<and>
       d1 = foldl (migrated (pw_scripts w) (pw_read_file w (cfg_migrations_dir cfg))) d (pending (db_user_version d) ms)"
    if "out = Serving s" for s
    using inr [OF that] run migrate_block_done unfolding d0 by blast
  ultimately show ?thesis by blast
qed

lemma boot_initial:
  assumes "boot w cfg d = (Serving s, d1)" and "db_wf d1"
  shows "initial s"
  using boot_cases [OF assms(1)] assms(2)
  by (simp add: initial_def make_catalog_wf new_event_queue_def new_conversion_queue_def)

section \<open>Properties\<close>

text \<open>
  \<^bold>\<open>C8.\<close> A start that succeeds gives a sound server. \<open>main\<close> ends before serving only with exit
  code 0, 1 or 2 or by \<open>std::terminate\<close>, and touches no database but the configured one. When it
  gets to serving, the migrations directory could be read, the database is what it was with one
  script of every discovered version above the stored one executed in rising order (so no
  discovered version is newer than the one now stored), and the first snapshot already shows
  exactly its published items, so the first visitor does not see an empty feed; and whatever
  the two threads do from then on, the committed tables satisfy the constraints and every
  conversion belongs to a click this server answered or found at its start. The migration
  scripts are assumed to respect the constraints, as sqlite enforces them.
\<close>

theorem server_main_sound:
  assumes "server_main w parsed disk = (out, disk')" and "\<And>p. db_wf (disk p)"
    and scripts: "\<And>script d. db_wf d \<Longrightarrow> db_wf (snd (pw_scripts w script d))"
  shows "(\<forall>n. out = Exit n \<longrightarrow> n \<in> {0, 1, 2} \<and> (n \<noteq> 1 \<longrightarrow> disk' = disk)) \<and>
    (disk' \<noteq> disk \<longrightarrow> (\<exists>path cfg. load_config (pw_toml w) (pw_parse_file w path) = Inr cfg \<and>
       (\<forall>p. p \<noteq> cfg_db_path cfg \<longrightarrow> disk' p = disk p))) \<and>
    (\<forall>s. out = Serving s \<longrightarrow>
       cn_db (sy_conn s) = disk' (cfg_db_path (hc_cfg (sy_http s))) \<and>
       (\<exists>ms todo. discover (pw_migration_files w (cfg_migrations_dir (hc_cfg (sy_http s)))) = Some ms \<and>
          sorted_wrt (<) (map mg_version todo) \<and> set todo \<subseteq> set ms \<and>
          set (map mg_version todo) =
            {v \<in> set (map mg_version ms). db_user_version (disk (cfg_db_path (hc_cfg (sy_http s)))) < v} \<and>
          cn_db (sy_conn s) = foldl (migrated (pw_scripts w) (pw_read_file w (cfg_migrations_dir (hc_cfg (sy_http s)))))
            (disk (cfg_db_path (hc_cfg (sy_http s)))) todo \<and>
          (\<forall>m \<in> set ms. mg_version m \<le> db_user_version (cn_db (sy_conn s)))) \<and>
       (\<forall>i. cat_find (cp_obj (handle_get (hc_catalog (sy_http s)))) i \<noteq> None \<longleftrightarrow>
          (\<exists>row. row \<in> set (db_items (cn_db (sy_conn s))) \<and> ir_id row = i \<and> ir_status row = ''published'')) \<and>
       (\<forall>web t. (step web)\<^sup>*\<^sup>* s t \<longrightarrow> db_wf (committed (sy_conn t)) \<and>
          conversion_tokens (committed (sy_conn t)) \<subseteq> sy_issued t))"
proof (cases "\<exists>vm path cfg. parsed = Some vm \<and> \<not> po_help vm \<and> po_config vm = Some path \<and> 0 \<le> pw_sodium_init w \<and>
    load_config (pw_toml w) (pw_parse_file w path) = Inr cfg")
  case False
  with assms(1) show ?thesis by (auto simp: server_main_def not_le split: option.splits if_splits sum.splits)
next
  case True
  then obtain vm path cfg where cfg: "parsed = Some vm" "\<not> po_help vm" "po_config vm = Some path" "0 \<le> pw_sodium_init w"
    "load_config (pw_toml w) (pw_parse_file w path) = Inr cfg" by blast
  let ?db = "cfg_db_path cfg"
  obtain d1 where run: "boot w cfg (disk ?db) = (out, d1)" "disk' = disk(?db := d1)"
    using assms(1) cfg by (auto simp: server_main_def split: prod.splits)
  note b = boot_cases [OF run(1)]
  have wf: "db_wf d1" using b foldl_migrated_wf [of "pw_scripts w", OF scripts assms(2)] by auto
  have code: "\<forall>n. out = Exit n \<longrightarrow> n \<in> {0, 1, 2} \<and> (n \<noteq> 1 \<longrightarrow> disk' = disk)" using b by simp
  have touched: "\<forall>p. p \<noteq> ?db \<longrightarrow> disk' p = disk p" by (simp add: run(2))
  have migrated: "\<exists>ms todo. discover (pw_migration_files w (cfg_migrations_dir (hc_cfg (sy_http s)))) = Some ms \<and>
      sorted_wrt (<) (map mg_version todo) \<and> set todo \<subseteq> set ms \<and>
      set (map mg_version todo) =
        {v \<in> set (map mg_version ms). db_user_version (disk (cfg_db_path (hc_cfg (sy_http s)))) < v} \<and>
      cn_db (sy_conn s) = foldl (migrated (pw_scripts w) (pw_read_file w (cfg_migrations_dir (hc_cfg (sy_http s)))))
        (disk (cfg_db_path (hc_cfg (sy_http s)))) todo \<and>
      (\<forall>m \<in> set ms. mg_version m \<le> db_user_version (cn_db (sy_conn s)))" if s: "out = Serving s" for s
  proof -
    from b s obtain ms where ms: "discover (pw_migration_files w (cfg_migrations_dir cfg)) = Some ms"
      "d1 = foldl (migrated (pw_scripts w) (pw_read_file w (cfg_migrations_dir cfg))) (disk ?db)
        (pending (db_user_version (disk ?db)) ms)" by blast
    have "cn_db (sy_conn s) = d1" "hc_cfg (sy_http s) = cfg" using b s by simp_all
    with ms pending_spec [OF ms(1), of "db_user_version (disk ?db)"] all_migrated [OF ms(1)] show ?thesis
      by (intro exI [of _ ms] exI [of _ "pending (db_user_version (disk ?db)) ms"]) auto
  qed
  have serving: "cn_db (sy_conn s) = disk' (cfg_db_path (hc_cfg (sy_http s))) \<and>
      (\<forall>i. cat_find (cp_obj (handle_get (hc_catalog (sy_http s)))) i \<noteq> None \<longleftrightarrow>
         (\<exists>row. row \<in> set (db_items (cn_db (sy_conn s))) \<and> ir_id row = i \<and> ir_status row = ''published'')) \<and>
      (\<forall>web t. (step web)\<^sup>*\<^sup>* s t \<longrightarrow> db_wf (committed (sy_conn t)) \<and>
         conversion_tokens (committed (sy_conn t)) \<subseteq> sy_issued t)" if s: "out = Serving s" for s
  proof (intro conjI allI impI)
    have d1: "cn_db (sy_conn s) = d1" and "hc_cfg (sy_http s) = cfg" and cat: "cp_obj (handle_get (hc_catalog (sy_http s))) =
        make_catalog (pw_built_at w) (loaded_items d1) (map partner_of_row (db_partners d1))" using b s by simp_all
    then show "cn_db (sy_conn s) = disk' (cfg_db_path (hc_cfg (sy_http s)))" by (simp add: run(2))
    show "cat_find (cp_obj (handle_get (hc_catalog (sy_http s)))) i \<noteq> None \<longleftrightarrow>
         (\<exists>row. row \<in> set (db_items (cn_db (sy_conn s))) \<and> ir_id row = i \<and> ir_status row = ''published'')" for i
      using snapshot_finds(1) [OF wf cat] unfolding d1 not_None_eq by blast
    fix web t assume reach: "(step web)\<^sup>*\<^sup>* s t"
    have "initial s" using boot_initial run(1) s wf by blast
    from server.inv_reachable [OF this reach] have "conn_ok db_wf (sy_conn t)" "conn_ok (tokens_ok (sy_issued t)) (sy_conn t)"
      by (simp_all add: sys_inv_def)
    then show "db_wf (committed (sy_conn t))" "conversion_tokens (committed (sy_conn t)) \<subseteq> sy_issued t"
      by (auto simp: conn_ok_def tokens_ok_def committed_def split: option.split)
  qed
  from code touched migrated serving cfg(5) show ?thesis by blast
qed

definition sample_process :: "(unit, nat) process_world" where
  "sample_process = \<lparr> pw_sodium_init = 0, pw_toml = minimal_toml, pw_parse_file = \<lambda>_. Some [''metrics'' \<mapsto> ()],
     pw_scripts = \<lambda>_ d. (None, d), pw_migration_files = \<lambda>_. Some sample_dir, pw_read_file = \<lambda>_ _. Some [],
     pw_template_files = \<lambda>_. Some [], pw_parse_template = \<lambda>_ _. None,
     pw_migrate_faults = \<lambda>_. NoFault, pw_refresh_faults = \<lambda>_. NoFault, pw_worker_faults = \<lambda>_. NoFault,
     pw_built_at = 0, pw_first_addr = 10, pw_addr = 20 \<rparr>"

lemma sample_process_simps [simp]:
  "pw_sodium_init sample_process = 0" "pw_toml sample_process = minimal_toml"
  "pw_parse_file sample_process = (\<lambda>_. Some [''metrics'' \<mapsto> ()])" "pw_scripts sample_process = (\<lambda>_ d. (None, d))"
  "pw_migration_files sample_process = (\<lambda>_. Some sample_dir)" "pw_read_file sample_process = (\<lambda>_ _. Some [])"
  "pw_template_files sample_process = (\<lambda>_. Some [])" "pw_parse_template sample_process = (\<lambda>_ _. None)"
  "pw_migrate_faults sample_process = (\<lambda>_. NoFault)" "pw_refresh_faults sample_process = (\<lambda>_. NoFault)"
  "pw_worker_faults sample_process = (\<lambda>_. NoFault)" "pw_built_at sample_process = 0"
  "pw_first_addr sample_process = 10" "pw_addr sample_process = 20"
  by (simp_all add: sample_process_def)

lemma sample_boot: "\<exists>s. boot sample_process cfg stocked_database = (Serving s, stocked_database\<lparr> db_user_version := 2 \<rparr>)"
proof -
  obtain h where "refresh_now (\<lambda>_. NoFault) 0 20 (stocked_database\<lparr> db_user_version := 2 \<rparr>) (new_handle 10) = Inr h"
    by (simp add: refresh_now_def with_conn_def connect_no_fault load_snapshot_def load_published_items_def list_partners_def
        dbm_simps Let_def)
  moreover have "with_conn (\<lambda>_. NoFault) stocked_database
      (apply_migrations (\<lambda>_. NoFault) (\<lambda>_ d. (None, d)) (\<lambda>_. Some []) (Some sample_dir)) =
        (Inr 2, stocked_database\<lparr> db_user_version := 2 \<rparr>)"
    by (simp add: with_conn_def connect_no_fault apply_migrations_def sample_discover in_transaction_def migration_body_def
        exec_script_def set_user_version_def dbm_simps opened_conn_def committed_def stocked_database_def empty_database_def)
  ultimately show ?thesis
    by (simp add: boot_def connect_no_fault Let_def new_handler_context_def new_templating_def)
qed

theorem server_main_sound_witness:
  "\<exists>s. fst (server_main sample_process (Some \<lparr> po_help = False, po_config = Some ''ssize.toml'' \<rparr>) (\<lambda>_. stocked_database)) = Serving s \<and>
     db_user_version stocked_database = 1 \<and> db_user_version (cn_db (sy_conn s)) = 2 \<and>
     cat_find (cp_obj (handle_get (hc_catalog (sy_http s)))) 1 \<noteq> None \<and> conversion_tokens (committed (sy_conn s)) \<subseteq> sy_issued s"
proof -
  let ?d = "stocked_database\<lparr> db_user_version := 2 \<rparr>"
  let ?main = "server_main sample_process (Some \<lparr> po_help = False, po_config = Some ''ssize.toml'' \<rparr>) (\<lambda>_. stocked_database)"
  obtain s disk' where s: "?main = (Serving s, disk')" and disk: "disk' (cfg_db_path (hc_cfg (sy_http s))) = ?d"
  proof -
    obtain cfg where cfg: "load_config minimal_toml (Some [''metrics'' \<mapsto> ()]) = Inr cfg" using minimal_config by blast
    obtain s where s: "boot sample_process cfg stocked_database = (Serving s, ?d)" using sample_boot by blast
    with cfg have "?main = (Serving s, (\<lambda>_. stocked_database)(cfg_db_path cfg := ?d))" by (simp add: server_main_def)
    moreover have "hc_cfg (sy_http s) = cfg" using boot_cases [OF s] by simp
    ultimately show thesis using that [of s "(\<lambda>_. stocked_database)(cfg_db_path cfg := ?d)"] by simp
  qed
  note sound = server_main_sound [OF s stocked_database_wf, simplified]
  have db: "cn_db (sy_conn s) = ?d" using sound disk by simp
  have finds: "cat_find (cp_obj (handle_get (hc_catalog (sy_http s)))) 1 \<noteq> None \<longleftrightarrow>
      (\<exists>row. row \<in> set (db_items (cn_db (sy_conn s))) \<and> ir_id row = 1 \<and> ir_status row = ''published'')"
    and all: "(step sample_web)\<^sup>*\<^sup>* s s \<Longrightarrow> conversion_tokens (committed (sy_conn s)) \<subseteq> sy_issued s"
    using sound by blast+
  have "sample_row 1 ''published'' \<in> set (db_items ?d)" "ir_id (sample_row 1 ''published'') = 1"
    "ir_status (sample_row 1 ''published'') = ''published''"
    by (simp_all add: stocked_database_def sample_row_def)
  then have "cat_find (cp_obj (handle_get (hc_catalog (sy_http s)))) 1 \<noteq> None" unfolding finds db by blast
  moreover have "db_user_version stocked_database = 1" by (simp add: stocked_database_def empty_database_def)
  ultimately show ?thesis using s db all by auto
qed

text \<open>
  \<^bold>\<open>C31.\<close> The wait for a signal. The main thread leaves it only after a signal, and a signal that
  finds it testing the flag or blocked makes it go on by itself to the shutdown. The third place
  is the flaw: the handler does not take the mutex, so a signal between the test and the
  blocking is lost. Then the flag is set and the main thread blocked with nothing it can do by itself: the server
  runs on until it is signalled again, or the wait happens to end without a notification.
\<close>

theorem shutdown_signal:
  "(\<forall>s. wait_step\<^sup>*\<^sup>* new_waiter s \<longrightarrow> (wa_at s = Released \<longrightarrow> wa_shutdown s) \<and>
      (wa_at s = Testing \<or> wa_at s = Blocked \<longrightarrow>
         main_step\<^sup>*\<^sup>* (request_shutdown s) \<lparr> wa_shutdown = True, wa_at = Released \<rparr>)) \<and>
   (\<exists>s. wait_step\<^sup>*\<^sup>* new_waiter s \<and> wa_shutdown s \<and> wa_at s = Blocked \<and> (\<nexists>t. main_step s t))"
proof (intro conjI allI impI)
  fix s assume reach: "wait_step\<^sup>*\<^sup>* new_waiter s"
  then show "wa_at s = Released \<Longrightarrow> wa_shutdown s"
    by (induction rule: rtranclp_induct)
      (auto simp: new_waiter_def request_shutdown_def elim!: wait_step_elim main_step_elim)
  assume "wa_at s = Testing \<or> wa_at s = Blocked"
  then have "request_shutdown s = \<lparr> wa_shutdown = True, wa_at = Testing \<rparr>" by (auto simp: request_shutdown_def)
  moreover have "main_step \<lparr> wa_shutdown = True, wa_at = Testing \<rparr> \<lparr> wa_shutdown = True, wa_at = Released \<rparr>"
    using main_step.test_set [of "\<lparr> wa_shutdown = True, wa_at = Testing \<rparr>"] by simp
  ultimately show "main_step\<^sup>*\<^sup>* (request_shutdown s) \<lparr> wa_shutdown = True, wa_at = Released \<rparr>" by auto
next
  let ?a = "\<lparr> wa_shutdown = False, wa_at = GoingToBlock \<rparr>" and ?b = "\<lparr> wa_shutdown = True, wa_at = GoingToBlock \<rparr>"
  let ?c = "\<lparr> wa_shutdown = True, wa_at = Blocked \<rparr>"
  have "wait_step new_waiter ?a"
    using main_step.test_unset [of new_waiter] by (auto simp: new_waiter_def intro: wait_step.main_goes)
  moreover have "wait_step ?a ?b" using wait_step.signal [of ?a] by (simp add: request_shutdown_def)
  moreover have "wait_step ?b ?c" using main_step.block [of ?b] by (auto intro: wait_step.main_goes)
  ultimately have "wait_step\<^sup>*\<^sup>* new_waiter ?c" by (meson converse_rtranclp_into_rtranclp r_into_rtranclp)
  moreover have "\<nexists>t. main_step ?c t" by (auto elim: main_step_elim)
  ultimately show "\<exists>s. wait_step\<^sup>*\<^sup>* new_waiter s \<and> wa_shutdown s \<and> wa_at s = Blocked \<and> (\<nexists>t. main_step s t)"
    by (intro exI [of _ ?c]) simp
qed

theorem shutdown_signal_witness:
  "main_step\<^sup>*\<^sup>* (request_shutdown new_waiter) \<lparr> wa_shutdown = True, wa_at = Released \<rparr>"
  using shutdown_signal by (simp add: new_waiter_def)

text \<open>After the wait: on a healthy database the last flush writes every queued event; the exit code is 0.\<close>

lemma shut_down_writes_clicks:
  assumes "\<And>n. faults n = NoFault" and "cn_saved (wk_conn w) = None"
    and "distinct (batch_tokens (eq_pending (wk_events w)))"
    and "\<And>t. t \<in> set (batch_tokens (eq_pending (wk_events w))) \<Longrightarrow> \<not> token_known (cn_db (wk_conn w)) t"
  shows "fst (shut_down faults w) = 0"
    "cn_db (wk_conn (snd (shut_down faults w))) = append_events (eq_pending (wk_events w)) (cn_db (wk_conn w))"
    "eq_pending (wk_events (snd (shut_down faults w))) = []"
proof -
  from flush_events_no_fault [where faults = faults and w = w, OF assms] obtain w1 where
    "flush_events faults w = (Inr (), w1)" "cn_db (wk_conn w1) = append_events (eq_pending (wk_events w)) (cn_db (wk_conn w))"
    "eq_pending (wk_events w1) = []" by blast
  then show "fst (shut_down faults w) = 0"
    "cn_db (wk_conn (snd (shut_down faults w))) = append_events (eq_pending (wk_events w)) (cn_db (wk_conn w))"
    "eq_pending (wk_events (snd (shut_down faults w))) = []"
    by (simp_all add: shut_down_def run_exit_def logged_def)
qed

text \<open>Starting and stopping in any order, twice or never: there is one thread when the flag is set, none otherwise.\<close>

lemma one_worker_thread:
  assumes "list_all (\<lambda>f. f = worker_start \<or> f = worker_stop) calls"
  shows "let t = foldl (\<lambda>t f. f t) \<lparr> wt_running = False, wt_threads = 0 \<rparr> calls
    in wt_threads t = (if wt_running t then 1 else 0)"
proof -
  have "wt_threads t = (if wt_running t then 1 else 0) \<Longrightarrow>
      wt_threads (foldl (\<lambda>t f. f t) t calls) = (if wt_running (foldl (\<lambda>t f. f t) t calls) then 1 else 0)" for t
    using assms by (induction calls arbitrary: t) (auto simp: worker_start_def worker_stop_def)
  then show ?thesis by (simp add: Let_def)
qed

end
