(* ===== verification/Admin_Seed.thy ===== *)
theory Admin_Seed
  imports Db_Load
begin

text \<open>
  \<open>ssize-admin seed\<close>: \<open>cmd_seed\<close> of \<open>src/admin_cli.cpp\<close>, which fills a fresh installation with a
  demo catalog inside one transaction. The random engine and the distributions belong to the
  standard library, which leaves the algorithm of a distribution open: they are the parameter
  \<open>rng_lib\<close>, a draw from a state, and all that is relied on is \<open>rng_ok\<close>, that a draw lies
  between the bounds of its distribution. Draws are made in the order of the source. Cyrillic
  literals are written as the UTF-8 bytes of the source file.
\<close>

section \<open>Random draws\<close>

record 'g rng_lib =
  rl_int :: "int \<Rightarrow> int \<Rightarrow> 'g \<Rightarrow> int \<times> 'g"
  rl_size :: "int \<Rightarrow> int \<Rightarrow> 'g \<Rightarrow> int \<times> 'g"
  rl_real :: "rat \<Rightarrow> rat \<Rightarrow> 'g \<Rightarrow> rat \<times> 'g"

definition rng_ok :: "'g rng_lib \<Rightarrow> bool" where
  "rng_ok lib \<longleftrightarrow>
     (\<forall>lo hi g. lo \<le> hi \<longrightarrow> lo \<le> fst (rl_int lib lo hi g) \<and> fst (rl_int lib lo hi g) \<le> hi) \<and>
     (\<forall>lo hi g. lo \<le> hi \<longrightarrow> lo \<le> fst (rl_size lib lo hi g) \<and> fst (rl_size lib lo hi g) \<le> hi) \<and>
     (\<forall>lo hi g. lo < hi \<longrightarrow> lo \<le> fst (rl_real lib lo hi g) \<and> fst (rl_real lib lo hi g) < hi)"

definition pick :: "'g rng_lib \<Rightarrow> 'a list \<Rightarrow> 'g \<Rightarrow> 'a \<times> 'g" where
  "pick lib arr g = (case rl_size lib 0 (int (length arr) - 1) g of (k, g') \<Rightarrow> (arr ! nat k, g'))"

section \<open>The demo catalog\<close>

definition kTitles :: "string list" where
  "kTitles =
     [[CHR 0xD0, CHR 0x9E, CHR 0xD0, CHR 0xB2, CHR 0xD0, CHR 0xB5, CHR 0xD1, CHR 0x80, CHR 0xD1, CHR 0x81, CHR
      0xD0, CHR 0xB0, CHR 0xD0, CHR 0xB9, CHR 0xD0, CHR 0xB7, CHR 0x20, CHR 0xD1, CHR 0x85, CHR 0xD1, CHR 0x83,
      CHR 0xD0, CHR 0xB4, CHR 0xD0, CHR 0xB8],
      [CHR 0xD0, CHR 0x9A, CHR 0xD0, CHR 0xB0, CHR 0xD1, CHR 0x80, CHR 0xD0, CHR 0xB3, CHR 0xD0, CHR 0xBE, CHR
      0x2D, CHR 0xD0, CHR 0xB1, CHR 0xD1, CHR 0x80, CHR 0xD1, CHR 0x8E, CHR 0xD0, CHR 0xBA, CHR 0xD0, CHR 0xB8],
      [CHR 0xD0, CHR 0xA2, CHR 0xD0, CHR 0xB0, CHR 0xD0, CHR 0xBA, CHR 0xD1, CHR 0x82, CHR 0xD0, CHR 0xB8, CHR
      0xD1, CHR 0x87, CHR 0xD0, CHR 0xB5, CHR 0xD1, CHR 0x81, CHR 0xD0, CHR 0xBA, CHR 0xD0, CHR 0xB0, CHR 0xD1,
      CHR 0x8F, CHR 0x20, CHR 0xD0, CHR 0xBA, CHR 0xD1, CHR 0x83, CHR 0xD1, CHR 0x80, CHR 0xD1, CHR 0x82, CHR
      0xD0, CHR 0xBA, CHR 0xD0, CHR 0xB0],
      [CHR 0xD0, CHR 0x9B, CHR 0xD0, CHR 0xBE, CHR 0xD0, CHR 0xBD, CHR 0xD0, CHR 0xB3, CHR 0xD1, CHR 0x81, CHR
      0xD0, CHR 0xBB, CHR 0xD0, CHR 0xB8, CHR 0xD0, CHR 0xB2, CHR 0x20, CHR 0xD1, CHR 0x81, CHR 0x20, CHR 0xD0,
      CHR 0xBF, CHR 0xD1, CHR 0x80, CHR 0xD0, CHR 0xB8, CHR 0xD0, CHR 0xBD, CHR 0xD1, CHR 0x82, CHR 0xD0, CHR
      0xBE, CHR 0xD0, CHR 0xBC],
      [CHR 0xD0, CHR 0xA8, CHR 0xD0, CHR 0xB8, CHR 0xD1, CHR 0x80, CHR 0xD0, CHR 0xBE, CHR 0xD0, CHR 0xBA, CHR
      0xD0, CHR 0xB8, CHR 0xD0, CHR 0xB5, CHR 0x20, CHR 0xD0, CHR 0xB4, CHR 0xD0, CHR 0xB6, CHR 0xD0, CHR 0xB8,
      CHR 0xD0, CHR 0xBD, CHR 0xD1, CHR 0x81, CHR 0xD1, CHR 0x8B],
      [CHR 0xD0, CHR 0x91, CHR 0xD0, CHR 0xBE, CHR 0xD0, CHR 0xBC, CHR 0xD0, CHR 0xB1, CHR 0xD0, CHR 0xB5, CHR
      0xD1, CHR 0x80],
      [CHR 0xD0, CHR 0xA8, CHR 0xD0, CHR 0xBE, CHR 0xD1, CHR 0x80, CHR 0xD1, CHR 0x82, CHR 0xD1, CHR 0x8B, CHR
      0x20, CHR 0xD0, CHR 0xBD, CHR 0xD0, CHR 0xB5, CHR 0xD0, CHR 0xB9, CHR 0xD0, CHR 0xBB, CHR 0xD0, CHR 0xBE,
      CHR 0xD0, CHR 0xBD],
      [CHR 0xD0, CHR 0xA4, CHR 0xD0, CHR 0xBB, CHR 0xD0, CHR 0xB8, CHR 0xD1, CHR 0x81, CHR 0xD0, CHR 0xBA, CHR
      0xD0, CHR 0xB0],
      [CHR 0xD0, CHR 0x96, CHR 0xD0, CHR 0xB8, CHR 0xD0, CHR 0xBB, CHR 0xD0, CHR 0xB5, CHR 0xD1, CHR 0x82, CHR
      0x20, CHR 0xD1, CHR 0x83, CHR 0xD1, CHR 0x82, CHR 0xD0, CHR 0xB8, CHR 0xD0, CHR 0xBB, CHR 0xD0, CHR 0xB8,
      CHR 0xD1, CHR 0x82, CHR 0xD0, CHR 0xB0, CHR 0xD1, CHR 0x80, CHR 0xD0, CHR 0xBD, CHR 0xD1, CHR 0x8B, CHR
      0xD0, CHR 0xB9],
      [CHR 0xD0, CHR 0xA1, CHR 0xD0, CHR 0xB2, CHR 0xD0, CHR 0xB8, CHR 0xD1, CHR 0x82, CHR 0xD0, CHR 0xB5, CHR
      0xD1, CHR 0x80, CHR 0x20, CHR 0xD0, CHR 0xBA, CHR 0xD1, CHR 0x80, CHR 0xD1, CHR 0x83, CHR 0xD0, CHR 0xBF,
      CHR 0xD0, CHR 0xBD, CHR 0xD0, CHR 0xBE, CHR 0xD0, CHR 0xB9, CHR 0x20, CHR 0xD0, CHR 0xB2, CHR 0xD1, CHR
      0x8F, CHR 0xD0, CHR 0xB7, CHR 0xD0, CHR 0xBA, CHR 0xD0, CHR 0xB8],
      [CHR 0xD0, CHR 0x91, CHR 0xD0, CHR 0xB0, CHR 0xD0, CHR 0xBB, CHR 0xD0, CHR 0xB0, CHR 0xD0, CHR 0xBA, CHR
      0xD0, CHR 0xBB, CHR 0xD0, CHR 0xB0, CHR 0xD0, CHR 0xB2, CHR 0xD0, CHR 0xB0],
      [CHR 0xD0, CHR 0xA0, CHR 0xD1, CHR 0x83, CHR 0xD0, CHR 0xB1, CHR 0xD0, CHR 0xB0, CHR 0xD1, CHR 0x88, CHR
      0xD0, CHR 0xBA, CHR 0xD0, CHR 0xB0, CHR 0x20, CHR 0xD0, CHR 0xBE, CHR 0xD0, CHR 0xB2, CHR 0xD0, CHR 0xB5,
      CHR 0xD1, CHR 0x80, CHR 0xD1, CHR 0x81, CHR 0xD0, CHR 0xB0, CHR 0xD0, CHR 0xB9, CHR 0xD0, CHR 0xB7]]"

definition kBrands :: "string list" where
  "kBrands = [''Noname'', ''Rick Owens style'', ''Y2K'', ''Techwear'', ''Vintage'', ''Local'']"

definition kTags :: "string list" where
  "kTags = [''techwear'', ''y2k'', ''gorpcore'', ''oversize'', ''vintage'', ''street'', ''grunge'']"

definition kSizes :: "string list" where
  "kSizes = [''XS'', ''S'', ''M'', ''L'', ''XL'']"

definition kColors :: "color list" where
  "kColors =
     [\<lparr> col_name = [CHR 0xD1, CHR 0x87, CHR 0xD1, CHR 0x91, CHR 0xD1, CHR 0x80, CHR 0xD0, CHR 0xBD, CHR 0xD1, CHR 0x8B,
          CHR 0xD0, CHR 0xB9],
          col_hex = ''#101014'' \<rparr>,
      \<lparr> col_name = [CHR 0xD0, CHR 0xB3, CHR 0xD1, CHR 0x80, CHR 0xD0, CHR 0xB0, CHR 0xD1, CHR 0x84, CHR 0xD0, CHR 0xB8,
          CHR 0xD1, CHR 0x82],
          col_hex = ''#2a2a33'' \<rparr>,
      \<lparr> col_name = [CHR 0xD1, CHR 0x84, CHR 0xD0, CHR 0xB8, CHR 0xD0, CHR 0xBE, CHR 0xD0, CHR 0xBB, CHR 0xD0, CHR 0xB5,
          CHR 0xD1, CHR 0x82, CHR 0xD0, CHR 0xBE, CHR 0xD0, CHR 0xB2, CHR 0xD1, CHR 0x8B, CHR 0xD0, CHR 0xB9],
          col_hex = ''#6d4aff'' \<rparr>,
      \<lparr> col_name = [CHR 0xD1, CHR 0x85, CHR 0xD0, CHR 0xB0, CHR 0xD0, CHR 0xBA, CHR 0xD0, CHR 0xB8],
          col_hex = ''#5c5f4a'' \<rparr>,
      \<lparr> col_name = [CHR 0xD0, CHR 0xB1, CHR 0xD0, CHR 0xB5, CHR 0xD0, CHR 0xBB, CHR 0xD1, CHR 0x8B, CHR 0xD0, CHR 0xB9],
          col_hex = ''#f2f2f5'' \<rparr>]"

definition demo_description :: string where
  "demo_description =
     [CHR 0xD0, CHR 0x9F, CHR 0xD0, CHR 0xBE, CHR 0xD0, CHR 0xB7, CHR 0xD0, CHR 0xB8, CHR 0xD1, CHR 0x86, CHR
     0xD0, CHR 0xB8, CHR 0xD1, CHR 0x8F, CHR 0x20, CHR 0xD0, CHR 0xB8, CHR 0xD0, CHR 0xB7, CHR 0x20, CHR 0xD0,
     CHR 0xB4, CHR 0xD0, CHR 0xB5, CHR 0xD0, CHR 0xBC, CHR 0xD0, CHR 0xBE, CHR 0x2D, CHR 0xD0, CHR 0xBA, CHR
     0xD0, CHR 0xB0, CHR 0xD1, CHR 0x82, CHR 0xD0, CHR 0xB0, CHR 0xD0, CHR 0xBB, CHR 0xD0, CHR 0xBE, CHR 0xD0,
     CHR 0xB3, CHR 0xD0, CHR 0xB0, CHR 0x2E, CHR 0x20, CHR 0xD0, CHR 0x97, CHR 0xD0, CHR 0xB0, CHR 0xD0, CHR
     0xBC, CHR 0xD0, CHR 0xB5, CHR 0xD0, CHR 0xBD, CHR 0xD0, CHR 0xB8, CHR 0xD1, CHR 0x82, CHR 0xD1, CHR 0x81,
     CHR 0xD1, CHR 0x8F, CHR 0x20, CHR 0xD1, CHR 0x80, CHR 0xD0, CHR 0xB5, CHR 0xD0, CHR 0xB0, CHR 0xD0, CHR
     0xBB, CHR 0xD1, CHR 0x8C, CHR 0xD0, CHR 0xBD, CHR 0xD1, CHR 0x8B, CHR 0xD0, CHR 0xBC, CHR 0x20, CHR 0xD0,
     CHR 0xBE, CHR 0xD0, CHR 0xBF, CHR 0xD0, CHR 0xB8, CHR 0xD1, CHR 0x81, CHR 0xD0, CHR 0xB0, CHR 0xD0, CHR
     0xBD, CHR 0xD0, CHR 0xB8, CHR 0xD0, CHR 0xB5, CHR 0xD0, CHR 0xBC, CHR 0x2E]"

text \<open>The item of the \<open>i\<close>-th turn, counted from 0, and its picture.\<close>

definition demo_item :: "int \<Rightarrow> ts_ms \<Rightarrow> int \<Rightarrow> int \<Rightarrow> nat \<Rightarrow> string \<Rightarrow> rat \<Rightarrow> item" where
  "demo_item partner_id now i price kind brand score = item_default\<lparr>
     it_title := kTitles ! kind @ '' #'' @ int_to_string (i + 1),
     it_description := demo_description,
     it_brand := brand,
     it_price_kopek := price * 100,
     it_old_price_kopek := (if i mod 3 = 0 then Some ((price + price sdiv 3) * 100) else None),
     it_partner_id := partner_id,
     it_product_url := ''https://example.com/product/'' @ int_to_string (i + 1),
     it_status := Published,
     it_score := score,
     it_created_at := now,
     it_updated_at := now,
     it_published_at := Some now \<rparr>"

definition placeholder_path :: "nat \<Rightarrow> string" where
  "placeholder_path kind = ''placeholder/'' @ int_to_string (int kind + 1) @ ''.svg''"

definition demo_image :: "nat \<Rightarrow> image" where
  "demo_image kind = \<lparr> img_id = 0, img_path = placeholder_path kind, img_thumb_path = placeholder_path kind,
     img_width = 600, img_height = 800, img_sort_order = 0 \<rparr>"

section \<open>Statements of the tool\<close>

text \<open>Both are \<open>INSERT OR IGNORE\<close>: a duplicate key is skipped, a missing parent is an error.\<close>

definition insert_size_stmt :: "bool \<Rightarrow> int \<Rightarrow> string \<Rightarrow> database \<Rightarrow> sql_error + unit \<times> database" where
  "insert_size_stmt fk item_id sz d =
     (if (item_id, sz) \<in> set (map (\<lambda>z. (zr_item_id z, zr_size z)) (db_sizes d)) then Inr ((), d)
      else if fk \<and> item_id \<notin> set (map ir_id (db_items d)) then Inl ForeignKeyFailed
      else Inr ((), d\<lparr> db_sizes := db_sizes d @ [\<lparr> zr_item_id = item_id, zr_size = sz \<rparr>] \<rparr>))"

definition insert_color_stmt :: "bool \<Rightarrow> int \<Rightarrow> color \<Rightarrow> database \<Rightarrow> sql_error + unit \<times> database" where
  "insert_color_stmt fk item_id c d =
     (if (item_id, col_name c) \<in> set (map (\<lambda>k. (kr_item_id k, kr_color k)) (db_colors d)) then Inr ((), d)
      else if fk \<and> item_id \<notin> set (map ir_id (db_items d)) then Inl ForeignKeyFailed
      else Inr ((), d\<lparr> db_colors := db_colors d @
             [\<lparr> kr_item_id = item_id, kr_color = col_name c, kr_hex = Some (col_hex c) \<rparr>] \<rparr>))"

section \<open>The loop\<close>

fun seed_tags :: "faults \<Rightarrow> 'g rng_lib \<Rightarrow> int \<Rightarrow> nat \<Rightarrow> 'g \<Rightarrow> 'g sql" where
  "seed_tags faults lib item_id 0 g = db_return g"
| "seed_tags faults lib item_id (Suc n) g =
     (case pick lib kTags g of (slug, g1) \<Rightarrow>
        db_bind (upsert_tag faults slug slug) (\<lambda>tag_id.
        db_bind (attach_tag faults item_id tag_id) (\<lambda>_. seed_tags faults lib item_id n g1)))"

fun seed_sizes :: "faults \<Rightarrow> 'g rng_lib \<Rightarrow> int \<Rightarrow> nat \<Rightarrow> 'g \<Rightarrow> 'g sql" where
  "seed_sizes faults lib item_id 0 g = db_return g"
| "seed_sizes faults lib item_id (Suc n) g =
     (case pick lib kSizes g of (sz, g1) \<Rightarrow>
        db_bind (with_pragma (\<lambda>fk. stmt_step faults (insert_size_stmt fk item_id sz))) (\<lambda>_.
          seed_sizes faults lib item_id n g1))"

text \<open>What one turn adds to an inserted item, and the whole turn.\<close>

definition seed_children :: "faults \<Rightarrow> 'g rng_lib \<Rightarrow> nat \<Rightarrow> int \<Rightarrow> 'g \<Rightarrow> 'g sql" where
  "seed_children faults lib kind item_id g =
     (case rl_int lib 1 3 g of (ntags, g) \<Rightarrow>
        db_bind (seed_tags faults lib item_id (nat ntags) g) (\<lambda>g.
        case rl_int lib 2 4 g of (nsizes, g) \<Rightarrow>
          db_bind (seed_sizes faults lib item_id (nat nsizes) g) (\<lambda>g.
          case pick lib kColors g of (c, g) \<Rightarrow>
            db_bind (with_pragma (\<lambda>fk. stmt_step faults (insert_color_stmt fk item_id c))) (\<lambda>_.
            db_bind (add_image faults item_id (demo_image kind)) (\<lambda>_. db_return g)))))"

definition seed_one :: "faults \<Rightarrow> 'g rng_lib \<Rightarrow> int \<Rightarrow> ts_ms \<Rightarrow> int \<Rightarrow> 'g \<Rightarrow> 'g sql" where
  "seed_one faults lib partner_id now i g =
     (case rl_int lib 1500 25000 g of (price, g) \<Rightarrow>
      case rl_size lib 0 (int (length kTitles) - 1) g of (kind, g) \<Rightarrow>
      case pick lib kBrands g of (brand, g) \<Rightarrow>
      case rl_real lib 0 10 g of (score, g) \<Rightarrow>
        db_bind (insert_item faults (demo_item partner_id now i price (nat kind) brand score)) (\<lambda>item_id.
          seed_children faults lib (nat kind) item_id g))"

fun seed_loop :: "faults \<Rightarrow> 'g rng_lib \<Rightarrow> int \<Rightarrow> ts_ms \<Rightarrow> int \<Rightarrow> nat \<Rightarrow> 'g \<Rightarrow> 'g sql" where
  "seed_loop faults lib partner_id now i 0 g = db_return g"
| "seed_loop faults lib partner_id now i (Suc n) g =
     db_bind (seed_one faults lib partner_id now i g) (\<lambda>g. seed_loop faults lib partner_id now (i + 1) n g)"

text \<open>
  The exit code is 1 without a partner \<open>direct\<close> and 0 otherwise. There is no \<open>ROLLBACK\<close>: an
  exception leaves the function with the transaction open, and closing the connection ends it.
\<close>

datatype seed_outcome = NoDirectPartner | Seeded int

definition seed_body :: "faults \<Rightarrow> 'g rng_lib \<Rightarrow> 'g \<Rightarrow> ts_ms \<Rightarrow> int \<Rightarrow> seed_outcome sql" where
  "seed_body faults lib g now cnt =
     db_bind (find_partner_by_code faults ''direct'') (\<lambda>partner.
       case partner of
         None \<Rightarrow> db_return NoDirectPartner
       | Some p \<Rightarrow>
           db_bind (exec_begin faults) (\<lambda>_.
           db_bind (seed_loop faults lib (pt_id p) now 0 (nat cnt) g) (\<lambda>_.
           db_bind (exec_commit faults) (\<lambda>_. db_return (Seeded cnt)))))"

definition cmd_seed :: "faults \<Rightarrow> 'g rng_lib \<Rightarrow> 'g \<Rightarrow> ts_ms \<Rightarrow> int \<Rightarrow> database \<Rightarrow> (sql_error + seed_outcome) \<times> database" where
  "cmd_seed faults lib g now cnt d = with_conn faults d (seed_body faults lib g now cnt)"

section \<open>What a turn does to the tables\<close>

definition own_tags :: "database \<Rightarrow> int \<Rightarrow> item_tag_row list" where
  "own_tags d i = filter (\<lambda>x. xr_item_id x = i) (db_item_tags d)"

definition own_sizes :: "database \<Rightarrow> int \<Rightarrow> string list" where
  "own_sizes d i = map zr_size (filter (\<lambda>z. zr_item_id z = i) (db_sizes d))"

definition own_colors :: "database \<Rightarrow> int \<Rightarrow> (string \<times> string option) list" where
  "own_colors d i = map (\<lambda>k. (kr_color k, kr_hex k)) (filter (\<lambda>k. kr_item_id k = i) (db_colors d))"

definition own_images :: "database \<Rightarrow> int \<Rightarrow> string list" where
  "own_images d i = map mr_path (filter (\<lambda>m. mr_item_id m = i) (db_images d))"

named_theorems own_defs \<open>the rows of one item\<close>

declare own_tags_def [own_defs] own_sizes_def [own_defs] own_colors_def [own_defs] own_images_def [own_defs]

text \<open>Only the children of item \<open>i\<close> and the list of tags differ.\<close>

definition touches_only :: "int \<Rightarrow> database \<Rightarrow> database \<Rightarrow> bool" where
  "touches_only i d d' \<longleftrightarrow>
     d' = d\<lparr> db_images := db_images d', db_tags := db_tags d', db_item_tags := db_item_tags d',
            db_sizes := db_sizes d', db_colors := db_colors d' \<rparr> \<and>
     (\<forall>j. j \<noteq> i \<longrightarrow> own_tags d' j = own_tags d j \<and> own_sizes d' j = own_sizes d j \<and>
        own_colors d' j = own_colors d j \<and> own_images d' j = own_images d j)"

lemma touches_only_refl [simp]: "touches_only i d d"
  by (simp add: touches_only_def)

lemma touches_only_trans: "touches_only i d d' \<Longrightarrow> touches_only i d' d'' \<Longrightarrow> touches_only i d d''"
  by (cases d; cases d'; cases d'') (simp add: touches_only_def)

lemma touches_only_update:
  "touches_only i d (d\<lparr> db_tags := ts \<rparr>)"
  "xr_item_id x = i \<Longrightarrow> touches_only i d (d\<lparr> db_item_tags := db_item_tags d @ [x] \<rparr>)"
  "zr_item_id z = i \<Longrightarrow> touches_only i d (d\<lparr> db_sizes := db_sizes d @ [z] \<rparr>)"
  "kr_item_id k = i \<Longrightarrow> touches_only i d (d\<lparr> db_colors := db_colors d @ [k] \<rparr>)"
  "mr_item_id m = i \<Longrightarrow> touches_only i d (d\<lparr> db_images := db_images d @ [m] \<rparr>)"
  by (auto simp: touches_only_def own_defs)

lemma touches_only_items: "touches_only i d d' \<Longrightarrow> db_items d' = db_items d \<and> db_partners d' = db_partners d"
  by (cases d; cases d') (simp add: touches_only_def)

lemma rng_okD:
  assumes "rng_ok lib"
  shows "lo \<le> hi \<Longrightarrow> rl_int lib lo hi g = (k, g') \<Longrightarrow> lo \<le> k \<and> k \<le> hi"
    and "lo \<le> hi \<Longrightarrow> rl_size lib lo hi g = (k, g') \<Longrightarrow> lo \<le> k \<and> k \<le> hi"
  using assms unfolding rng_ok_def by (metis fst_conv)+

lemma pick_mem: "rng_ok lib \<Longrightarrow> arr \<noteq> [] \<Longrightarrow> pick lib arr g = (x, g') \<Longrightarrow> x \<in> set arr"
proof -
  assume ok: "rng_ok lib" and ne: "arr \<noteq> []" and p: "pick lib arr g = (x, g')"
  obtain k g1 where k: "rl_size lib 0 (int (length arr) - 1) g = (k, g1)" by fastforce
  from ne have "0 \<le> int (length arr) - 1" by (cases arr) auto
  from rng_okD(2) [OF ok this k] have "nat k < length arr" by linarith
  with p k show "x \<in> set arr" by (auto simp: pick_def)
qed

lemma insert_tag_stmt_Inr:
  "insert_tag_stmt slug title d = Inr (t, d') \<Longrightarrow>
     (\<exists>ts. d' = d\<lparr> db_tags := ts \<rparr>) \<and> t \<in> set (map tr_id (db_tags d'))"
  by (auto simp: insert_tag_stmt_def Let_def split: if_splits)

lemma upsert_tag_Inr:
  assumes "upsert_tag faults slug title c = (Inr t, c')"
  shows "(\<exists>ts. cn_db c' = (cn_db c)\<lparr> db_tags := ts \<rparr>) \<and> t \<in> set (map tr_id (db_tags (cn_db c')))"
proof -
  from assms obtain found c1 where r: "stmt_read faults (\<lambda>d. map_option tr_id (List.find (\<lambda>t. tr_slug t = slug) (db_tags d))) c = (Inr found, c1)"
    and k: "(case found of Some i \<Rightarrow> db_return i | None \<Rightarrow> stmt_step faults (insert_tag_stmt slug title)) c1 = (Inr t, c')"
    by (auto simp: upsert_tag_def db_bind_Inr)
  from stmt_read_Inr [OF r] have f: "found = map_option tr_id (List.find (\<lambda>t. tr_slug t = slug) (db_tags (cn_db c)))"
    and d1: "cn_db c1 = cn_db c" by auto
  show ?thesis
  proof (cases found)
    case None
    with k have "stmt_step faults (insert_tag_stmt slug title) c1 = (Inr t, c')" by simp
    from stmt_step_Inr [OF this] insert_tag_stmt_Inr [of slug title "cn_db c" t "cn_db c'"] d1
    show ?thesis by auto
  next
    case (Some i)
    with k have "t = i" "c' = c1" by (simp_all add: db_return_def)
    moreover from f Some obtain r where "List.find (\<lambda>t. tr_slug t = slug) (db_tags (cn_db c)) = Some r" "tr_id r = i"
      by (metis map_option_eq_Some)
    ultimately show ?thesis using d1 by (auto dest!: find_eq_SomeD intro!: exI [of _ "db_tags (cn_db c)"])
  qed
qed

lemma attach_tag_Inr:
  assumes "attach_tag faults i t c = (Inr u, c')"
  shows "touches_only i (cn_db c) (cn_db c') \<and> own_tags (cn_db c') i \<noteq> [] \<and>
    length (own_tags (cn_db c') i) \<le> Suc (length (own_tags (cn_db c) i)) \<and>
    own_sizes (cn_db c') i = own_sizes (cn_db c) i \<and> own_colors (cn_db c') i = own_colors (cn_db c) i \<and>
    own_images (cn_db c') i = own_images (cn_db c) i"
proof -
  let ?row = "\<lparr> xr_item_id = i, xr_tag_id = t \<rparr>"
  from assms have "attach_tag_stmt (cn_foreign_keys c) i t (cn_db c) = Inr ((), cn_db c')"
    unfolding attach_tag_def by (auto dest: with_pragma_step_Inr)
  then consider "cn_db c' = cn_db c" "?row \<in> set (db_item_tags (cn_db c))"
    | "cn_db c' = (cn_db c)\<lparr> db_item_tags := db_item_tags (cn_db c) @ [?row] \<rparr>"
    by (auto simp: attach_tag_stmt_def Let_def split: if_splits)
  then show ?thesis
  proof cases
    case 1
    then have "?row \<in> set (own_tags (cn_db c') i)" by (simp add: own_tags_def)
    then have "own_tags (cn_db c') i \<noteq> []" by auto
    with 1 show ?thesis by simp
  next
    case 2
    then have "touches_only i (cn_db c) (cn_db c')" by (simp add: touches_only_update)
    with 2 show ?thesis by (simp add: own_defs)
  qed
qed

lemma seed_tags_Inr:
  assumes "seed_tags faults lib i n g c = (Inr g', c')"
  shows "touches_only i (cn_db c) (cn_db c') \<and> (0 < n \<longrightarrow> own_tags (cn_db c') i \<noteq> []) \<and>
    (own_tags (cn_db c) i \<noteq> [] \<longrightarrow> own_tags (cn_db c') i \<noteq> []) \<and>
    length (own_tags (cn_db c') i) \<le> n + length (own_tags (cn_db c) i) \<and>
    own_sizes (cn_db c') i = own_sizes (cn_db c) i \<and> own_colors (cn_db c') i = own_colors (cn_db c) i \<and>
    own_images (cn_db c') i = own_images (cn_db c) i"
  using assms
proof (induction n arbitrary: g c)
  case 0
  then show ?case by (simp add: db_return_def)
next
  case (Suc n)
  obtain slug g1 where p: "pick lib kTags g = (slug, g1)" by fastforce
  with Suc.prems obtain t c1 c2 where t: "upsert_tag faults slug slug c = (Inr t, c1)"
    and a: "attach_tag faults i t c1 = (Inr (), c2)" and more: "seed_tags faults lib i n g1 c2 = (Inr g', c')"
    by (auto simp: db_bind_Inr)
  from upsert_tag_Inr [OF t] obtain ts where d1: "cn_db c1 = (cn_db c)\<lparr> db_tags := ts \<rparr>" by blast
  have "touches_only i (cn_db c) (cn_db c1)" by (simp add: d1 touches_only_update)
  with attach_tag_Inr [OF a] Suc.IH [OF more] have "touches_only i (cn_db c) (cn_db c')"
    using touches_only_trans by blast
  with attach_tag_Inr [OF a] Suc.IH [OF more] show ?case by (auto simp: d1 own_defs)
qed

lemma insert_size_Inr:
  assumes "insert_size_stmt fk i sz d = Inr (u, d')"
  shows "touches_only i d d' \<and> set (own_sizes d' i) = insert sz (set (own_sizes d i)) \<and>
    length (own_sizes d' i) \<le> Suc (length (own_sizes d i)) \<and>
    own_tags d' i = own_tags d i \<and> own_colors d' i = own_colors d i \<and> own_images d' i = own_images d i"
proof -
  from assms consider "d' = d" "(i, sz) \<in> set (map (\<lambda>z. (zr_item_id z, zr_size z)) (db_sizes d))"
    | "d' = d\<lparr> db_sizes := db_sizes d @ [\<lparr> zr_item_id = i, zr_size = sz \<rparr>] \<rparr>"
    by (auto simp: insert_size_stmt_def split: if_splits)
  then show ?thesis
  proof cases
    case 1
    then have "sz \<in> set (own_sizes d i)" by (force simp: own_sizes_def)
    with 1 show ?thesis by (simp add: insert_absorb)
  next
    case 2
    then show ?thesis by (simp add: touches_only_update own_defs)
  qed
qed

lemma insert_color_Inr:
  assumes "insert_color_stmt fk i k d = Inr (u, d')" and "own_colors d i = []"
  shows "touches_only i d d' \<and> own_colors d' i = [(col_name k, Some (col_hex k))] \<and>
    own_tags d' i = own_tags d i \<and> own_sizes d' i = own_sizes d i \<and> own_images d' i = own_images d i"
proof -
  from assms(2) have "(i, col_name k) \<notin> set (map (\<lambda>k. (kr_item_id k, kr_color k)) (db_colors d))"
    by (auto simp: own_colors_def filter_empty_conv)
  with assms show ?thesis by (auto simp: insert_color_stmt_def touches_only_update own_defs split: if_splits)
qed

lemma add_image_Inr:
  assumes "add_image_stmt fk i img d = Inr (u, d')"
  shows "touches_only i d d' \<and> own_images d' i = own_images d i @ [img_path img] \<and>
    own_tags d' i = own_tags d i \<and> own_sizes d' i = own_sizes d i \<and> own_colors d' i = own_colors d i"
  using assms by (auto simp: add_image_stmt_def touches_only_update own_defs split: if_splits)

lemma seed_sizes_Inr:
  assumes "rng_ok lib" and "seed_sizes faults lib i n g c = (Inr g', c')"
  shows "touches_only i (cn_db c) (cn_db c') \<and> (0 < n \<longrightarrow> own_sizes (cn_db c') i \<noteq> []) \<and>
    set (own_sizes (cn_db c) i) \<subseteq> set (own_sizes (cn_db c') i) \<and>
    set (own_sizes (cn_db c') i) \<subseteq> set kSizes \<union> set (own_sizes (cn_db c) i) \<and>
    length (own_sizes (cn_db c') i) \<le> n + length (own_sizes (cn_db c) i) \<and>
    own_tags (cn_db c') i = own_tags (cn_db c) i \<and> own_colors (cn_db c') i = own_colors (cn_db c) i \<and>
    own_images (cn_db c') i = own_images (cn_db c) i"
  using assms(2)
proof (induction n arbitrary: g c)
  case 0
  then show ?case by (simp add: db_return_def)
next
  case (Suc n)
  obtain sz g1 where p: "pick lib kSizes g = (sz, g1)" by fastforce
  with Suc.prems obtain c1 where a: "with_pragma (\<lambda>fk. stmt_step faults (insert_size_stmt fk i sz)) c = (Inr (), c1)"
    and more: "seed_sizes faults lib i n g1 c1 = (Inr g', c')"
    by (auto simp: db_bind_Inr)
  from with_pragma_step_Inr [OF a] have stmt: "insert_size_stmt (cn_foreign_keys c) i sz (cn_db c) = Inr ((), cn_db c1)" by simp
  note one = insert_size_Inr [OF stmt] and rest = Suc.IH [OF more]
  from pick_mem [OF assms(1) _ p] have sz: "sz \<in> set kSizes" by (simp add: kSizes_def)
  from one rest have "touches_only i (cn_db c) (cn_db c')" using touches_only_trans by blast
  moreover from one rest have sub: "insert sz (set (own_sizes (cn_db c) i)) \<subseteq> set (own_sizes (cn_db c') i)" by metis
  moreover from sub have "own_sizes (cn_db c') i \<noteq> []" by force
  moreover have "set (own_sizes (cn_db c') i) \<subseteq> set kSizes \<union> set (own_sizes (cn_db c) i)"
  proof -
    from rest have "set (own_sizes (cn_db c') i) \<subseteq> set kSizes \<union> set (own_sizes (cn_db c1) i)" by simp
    also from one have "set (own_sizes (cn_db c1) i) = insert sz (set (own_sizes (cn_db c) i))" by simp
    finally show ?thesis using sz by (simp add: insert_absorb)
  qed
  moreover from one rest have "length (own_sizes (cn_db c') i) \<le> Suc n + length (own_sizes (cn_db c) i)" by linarith
  ultimately show ?case using one rest by simp
qed

text \<open>What the demo catalog shows for an item: its own tile, one colour, a few tags and sizes.\<close>

definition dressed :: "nat \<Rightarrow> int \<Rightarrow> database \<Rightarrow> bool" where
  "dressed kind i d \<longleftrightarrow> own_images d i = [placeholder_path kind] \<and>
     1 \<le> length (own_tags d i) \<and> length (own_tags d i) \<le> 3 \<and>
     1 \<le> length (own_sizes d i) \<and> length (own_sizes d i) \<le> 4 \<and> set (own_sizes d i) \<subseteq> set kSizes \<and>
     (\<exists>k \<in> set kColors. own_colors d i = [(col_name k, Some (col_hex k))])"

definition bare :: "int \<Rightarrow> database \<Rightarrow> bool" where
  "bare i d \<longleftrightarrow> own_images d i = [] \<and> own_tags d i = [] \<and> own_sizes d i = [] \<and> own_colors d i = []"

lemma seed_children_Inr:
  assumes ok: "rng_ok lib" and run: "seed_children faults lib kind i g c = (Inr g', c')" and bare: "bare i (cn_db c)"
  shows "touches_only i (cn_db c) (cn_db c') \<and> dressed kind i (cn_db c')"
proof -
  obtain nt g1 where nt: "rl_int lib 1 3 g = (nt, g1)" by fastforce
  from run nt obtain g2 c1 where tags: "seed_tags faults lib i (nat nt) g1 c = (Inr g2, c1)"
    and rest1: "(case rl_int lib 2 4 g2 of (nsizes, g) \<Rightarrow>
          db_bind (seed_sizes faults lib i (nat nsizes) g) (\<lambda>g.
          case pick lib kColors g of (c, g) \<Rightarrow>
            db_bind (with_pragma (\<lambda>fk. stmt_step faults (insert_color_stmt fk i c))) (\<lambda>_.
            db_bind (add_image faults i (demo_image kind)) (\<lambda>_. db_return g)))) c1 = (Inr g', c')"
    by (auto simp: seed_children_def db_bind_Inr)
  obtain ns g3 where ns: "rl_int lib 2 4 g2 = (ns, g3)" by fastforce
  from rest1 ns obtain g4 c2 where sizes: "seed_sizes faults lib i (nat ns) g3 c1 = (Inr g4, c2)"
    and rest2: "(case pick lib kColors g4 of (c, g) \<Rightarrow>
            db_bind (with_pragma (\<lambda>fk. stmt_step faults (insert_color_stmt fk i c))) (\<lambda>_.
            db_bind (add_image faults i (demo_image kind)) (\<lambda>_. db_return g))) c2 = (Inr g', c')"
    by (auto simp: db_bind_Inr)
  obtain k g5 where k: "pick lib kColors g4 = (k, g5)" by fastforce
  from rest2 k obtain c3 where color: "with_pragma (\<lambda>fk. stmt_step faults (insert_color_stmt fk i k)) c2 = (Inr (), c3)"
    and image: "add_image faults i (demo_image kind) c3 = (Inr (), c')"
    by (auto simp: db_bind_Inr db_return_def)
  note t = seed_tags_Inr [OF tags] and z = seed_sizes_Inr [OF ok sizes]
  from t z bare have "own_colors (cn_db c2) i = []" by (simp add: bare_def)
  note kk = insert_color_Inr [OF conjunct1 [OF with_pragma_step_Inr [OF color]] this]
  note m = add_image_Inr [OF conjunct1 [OF with_pragma_step_Inr [OF image [unfolded add_image_def]]]]
  have "touches_only i (cn_db c) (cn_db c')"
    using t z kk m by (blast intro: touches_only_trans)
  moreover have "dressed kind i (cn_db c')"
  proof -
    have "1 \<le> nt \<and> nt \<le> 3" "2 \<le> ns \<and> ns \<le> 4" using rng_okD(1) [OF ok _ nt] rng_okD(1) [OF ok _ ns] by auto
    then have n: "0 < nat nt" "nat nt \<le> 3" "0 < nat ns" "nat ns \<le> 4" by auto
    have "k \<in> set kColors" using pick_mem [OF ok _ k] by (simp add: kColors_def)
    moreover have "own_images (cn_db c') i = [placeholder_path kind]"
      using t z kk m bare by (simp add: bare_def demo_image_def)
    moreover have "own_tags (cn_db c') i = own_tags (cn_db c1) i" "own_sizes (cn_db c') i = own_sizes (cn_db c2) i"
      "own_colors (cn_db c') i = own_colors (cn_db c3) i" using z kk m by simp_all
    moreover have "1 \<le> length (own_tags (cn_db c1) i) \<and> length (own_tags (cn_db c1) i) \<le> 3"
      using t n bare by (auto simp: bare_def Suc_le_eq)
    moreover have "1 \<le> length (own_sizes (cn_db c2) i) \<and> length (own_sizes (cn_db c2) i) \<le> 4 \<and>
        set (own_sizes (cn_db c2) i) \<subseteq> set kSizes"
      using z t n bare by (auto simp: bare_def Suc_le_eq)
    ultimately show ?thesis using kk by (auto simp: dressed_def)
  qed
  ultimately show ?thesis by blast
qed

section \<open>The constraints of the schema\<close>

lemma insert_size_wf:
  assumes "db_wf d" and "insert_size_stmt True i sz d = Inr (u, d')"
  shows "db_wf d'"
proof -
  from assms(2) consider "d' = d" | z where "d' = d\<lparr> db_sizes := db_sizes d @ [z] \<rparr>"
      "zr_item_id z \<in> ir_id ` set (db_items d)"
      "(zr_item_id z, zr_size z) \<notin> (\<lambda>z. (zr_item_id z, zr_size z)) ` set (db_sizes d)"
    by (auto simp: insert_size_stmt_def split: if_splits)
  then show ?thesis using assms(1) by cases (simp_all add: db_wf_def children_wf_def)
qed

lemma insert_color_wf:
  assumes "db_wf d" and "insert_color_stmt True i k d = Inr (u, d')"
  shows "db_wf d'"
proof -
  from assms(2) consider "d' = d" | r where "d' = d\<lparr> db_colors := db_colors d @ [r] \<rparr>"
      "kr_item_id r \<in> ir_id ` set (db_items d)"
      "(kr_item_id r, kr_color r) \<notin> (\<lambda>k. (kr_item_id k, kr_color k)) ` set (db_colors d)"
    by (auto simp: insert_color_stmt_def split: if_splits)
  then show ?thesis using assms(1) by cases (simp_all add: db_wf_def children_wf_def)
qed

lemma seed_tags_wf: "keeps_conn (enforced db_wf) (seed_tags faults lib i n g)"
  by (induction n arbitrary: g) (auto intro!: enforced_intros enforced_writes split: prod.split)

lemma seed_sizes_wf: "keeps_conn (enforced db_wf) (seed_sizes faults lib i n g)"
  by (induction n arbitrary: g)
    (auto intro!: enforced_intros enforced_pragma intro: insert_size_wf split: prod.split)

lemma seed_color_wf: "keeps_conn (enforced db_wf) (with_pragma (\<lambda>fk. stmt_step faults (insert_color_stmt fk i k)))"
  by (rule enforced_pragma) (rule insert_color_wf)

lemma seed_children_wf: "keeps_conn (enforced db_wf) (seed_children faults lib kind i g)"
  unfolding seed_children_def
  by (auto intro!: enforced_intros enforced_writes seed_color_wf seed_tags_wf seed_sizes_wf split: prod.split)

lemma seed_one_wf: "keeps_conn (enforced db_wf) (seed_one faults lib pid now i g)"
  unfolding seed_one_def
  by (auto intro!: enforced_intros seed_children_wf enforced_writes split: prod.split)

lemma seed_loop_wf: "keeps_conn (enforced db_wf) (seed_loop faults lib pid now i n g)"
  by (induction n arbitrary: i g) (auto intro!: enforced_intros seed_one_wf)

section \<open>The loop adds the demo catalog\<close>

definition demo_row :: "int \<Rightarrow> ts_ms \<Rightarrow> int \<Rightarrow> nat \<Rightarrow> item_row \<Rightarrow> bool" where
  "demo_row pid now i kind r \<longleftrightarrow> kind < 12 \<and> ir_title r = kTitles ! kind @ '' #'' @ int_to_string (i + 1) \<and>
     ir_product_url r = ''https://example.com/product/'' @ int_to_string (i + 1) \<and>
     ir_status r = ''published'' \<and> ir_partner_id r = Some pid \<and> ir_published_at r = Some now \<and>
     150000 \<le> ir_price_kopek r \<and> ir_price_kopek r \<le> 2500000 \<and>
     (case ir_old_price_kopek r of None \<Rightarrow> i mod 3 \<noteq> 0 | Some p \<Rightarrow> i mod 3 = 0 \<and> ir_price_kopek r < p)"

text \<open>Everything but the catalog stays, and so do the children of the items there were.\<close>

definition leaves_rest :: "database \<Rightarrow> database \<Rightarrow> bool" where
  "leaves_rest d d' \<longleftrightarrow> db_user_version d' = db_user_version d \<and> db_partners d' = db_partners d \<and>
     db_events d' = db_events d \<and> db_conversions d' = db_conversions d \<and> db_stats d' = db_stats d \<and>
     (\<forall>j \<in> set (map ir_id (db_items d)). own_images d' j = own_images d j \<and> own_tags d' j = own_tags d j \<and>
        own_sizes d' j = own_sizes d j \<and> own_colors d' j = own_colors d j)"

lemma fresh_bare:
  assumes "db_wf d" and "i \<notin> set (map ir_id (db_items d))"
  shows "bare i d"
proof -
  from assms(1) have "set (map mr_item_id (db_images d)) \<subseteq> set (map ir_id (db_items d))"
    "set (map xr_item_id (db_item_tags d)) \<subseteq> set (map ir_id (db_items d))"
    "set (map zr_item_id (db_sizes d)) \<subseteq> set (map ir_id (db_items d))"
    "set (map kr_item_id (db_colors d)) \<subseteq> set (map ir_id (db_items d))"
    by (simp_all add: db_wf_def children_wf_def)
  with assms(2) show ?thesis by (auto simp: bare_def own_defs filter_empty_conv)
qed

lemma touches_only_rest: "touches_only i d d' \<Longrightarrow> i \<notin> set (map ir_id (db_items d0)) \<Longrightarrow>
    d = d0\<lparr> db_items := xs \<rparr> \<Longrightarrow> leaves_rest d0 d'"
  by (cases d0; cases d') (auto simp: touches_only_def leaves_rest_def own_defs)

lemma kTitles_length [simp]: "length kTitles = 12"
  by (simp add: kTitles_def)

lemma demo_item_row:
  assumes "insert_item_stmt fk (demo_item pid now i price kind brand score) d = Inr (item_id, d')"
    and "1500 \<le> price" and "price \<le> 25000" and "kind < 12"
  shows "\<exists>r. d' = d\<lparr> db_items := db_items d @ [r] \<rparr> \<and> ir_id r = item_id \<and>
    item_id \<notin> set (map ir_id (db_items d)) \<and> demo_row pid now i kind r"
proof -
  have div: "price sdiv 3 = price div 3" using assms(2) by (simp add: signed_divide_int_def sgn_if)
  have "0 < price div 3" using assms(2) by linarith
  then show ?thesis
    using assms next_rowid_fresh [of "map ir_id (db_items d)"]
    by (auto simp: insert_item_stmt_def Let_def demo_item_def demo_row_def div item_default_def split: if_splits)
qed

lemma seed_one_Inr:
  assumes ok: "rng_ok lib" and wf: "db_wf (cn_db c)" and run: "seed_one faults lib pid now i g c = (Inr g', c')"
  shows "\<exists>r kind. db_items (cn_db c') = db_items (cn_db c) @ [r] \<and> ir_id r \<notin> set (map ir_id (db_items (cn_db c))) \<and>
    demo_row pid now i kind r \<and> dressed kind (ir_id r) (cn_db c') \<and> leaves_rest (cn_db c) (cn_db c')"
proof -
  obtain price g1 where price: "rl_int lib 1500 25000 g = (price, g1)" by fastforce
  obtain kind g2 where kind: "rl_size lib 0 (int (length kTitles) - 1) g1 = (kind, g2)" by fastforce
  obtain brand g3 where brand: "pick lib kBrands g2 = (brand, g3)" by fastforce
  obtain score g4 where score: "rl_real lib 0 10 g3 = (score, g4)" by fastforce
  from run price kind brand score obtain item_id c1
    where ins: "insert_item faults (demo_item pid now i price (nat kind) brand score) c = (Inr item_id, c1)"
      and rest: "seed_children faults lib (nat kind) item_id g4 c1 = (Inr g', c')"
    by (auto simp: seed_one_def db_bind_Inr)
  have "insert_item_stmt (cn_foreign_keys c) (demo_item pid now i price (nat kind) brand score) (cn_db c) = Inr (item_id, cn_db c1)"
    using with_pragma_step_Inr [OF ins [unfolded insert_item_def]] by simp
  moreover have "1500 \<le> price \<and> price \<le> 25000" using rng_okD(1) [OF ok _ price] by simp
  moreover have "nat kind < 12" using rng_okD(2) [OF ok _ kind] by auto
  ultimately obtain r where r: "cn_db c1 = (cn_db c)\<lparr> db_items := db_items (cn_db c) @ [r] \<rparr>" "ir_id r = item_id"
      "item_id \<notin> set (map ir_id (db_items (cn_db c)))" "demo_row pid now i (nat kind) r"
    using demo_item_row by blast
  have "bare item_id (cn_db c)" using fresh_bare [OF wf r(3)] .
  then have "bare item_id (cn_db c1)" by (simp add: r(1) bare_def own_defs)
  from seed_children_Inr [OF ok rest this]
  have t: "touches_only item_id (cn_db c1) (cn_db c')" "dressed (nat kind) item_id (cn_db c')" by simp_all
  from touches_only_items [OF t(1)] have "db_items (cn_db c') = db_items (cn_db c) @ [r]" by (simp add: r(1))
  moreover have "leaves_rest (cn_db c) (cn_db c')" using touches_only_rest [OF t(1) r(3) r(1)] .
  ultimately show ?thesis using r t(2) by blast
qed

lemma leaves_rest_trans:
  assumes "leaves_rest d d1" and "leaves_rest d1 d'" and "set (map ir_id (db_items d)) \<subseteq> set (map ir_id (db_items d1))"
  shows "leaves_rest d d'"
  using assms unfolding leaves_rest_def by (metis subsetD)

lemma dressed_kept: "leaves_rest d d' \<Longrightarrow> i \<in> set (map ir_id (db_items d)) \<Longrightarrow> dressed kind i d \<Longrightarrow> dressed kind i d'"
  by (auto simp: leaves_rest_def dressed_def)

lemma seed_loop_Inr:
  assumes ok: "rng_ok lib" and "enforced db_wf c" and "seed_loop faults lib pid now i n g c = (Inr g', c')"
  shows "\<exists>rows. db_items (cn_db c') = db_items (cn_db c) @ rows \<and> length rows = n \<and> leaves_rest (cn_db c) (cn_db c') \<and>
    (\<forall>j < n. \<exists>kind. demo_row pid now (i + int j) kind (rows ! j) \<and> dressed kind (ir_id (rows ! j)) (cn_db c'))"
  using assms(2,3)
proof (induction n arbitrary: i g c)
  case 0
  then show ?case by (simp add: db_return_def leaves_rest_def)
next
  case (Suc n)
  then obtain g1 c1 where one: "seed_one faults lib pid now i g c = (Inr g1, c1)"
    and more: "seed_loop faults lib pid now (i + 1) n g1 c1 = (Inr g', c')" by (auto simp: db_bind_Inr)
  have "db_wf (cn_db c)" using Suc.prems(1) by (simp add: enforced_def conn_ok_def)
  from seed_one_Inr [OF ok this one] obtain r kind where r: "db_items (cn_db c1) = db_items (cn_db c) @ [r]"
    "demo_row pid now i kind r" "dressed kind (ir_id r) (cn_db c1)" "leaves_rest (cn_db c) (cn_db c1)" by blast
  have "enforced db_wf c1" using keeps_connD [OF seed_one_wf Suc.prems(1) one] .
  from Suc.IH [OF this more] obtain rows where rows: "db_items (cn_db c') = db_items (cn_db c1) @ rows" "length rows = n"
    "leaves_rest (cn_db c1) (cn_db c')"
    "\<forall>j < n. \<exists>kind. demo_row pid now (i + 1 + int j) kind (rows ! j) \<and> dressed kind (ir_id (rows ! j)) (cn_db c')" by blast
  have "dressed kind (ir_id r) (cn_db c')" using dressed_kept [OF rows(3) _ r(3)] r(1) by simp
  with r(2) rows(4) have "\<forall>j < Suc n. \<exists>kind. demo_row pid now (i + int j) kind ((r # rows) ! j) \<and>
      dressed kind (ir_id ((r # rows) ! j)) (cn_db c')"
    by (auto simp: less_Suc_eq_0_disj add.assoc)
  moreover have "leaves_rest (cn_db c) (cn_db c')" by (rule leaves_rest_trans [OF r(4) rows(3)]) (auto simp: r(1))
  ultimately show ?case using r(1) rows(1,2) by (intro exI [of _ "r # rows"]) simp
qed

section \<open>A healthy database\<close>

lemma stmt_step_ok: "f (cn_db c) = Inr (a, d) \<Longrightarrow> \<exists>c'. stmt_step (\<lambda>_. NoFault) f c = (Inr a, c') \<and> cn_db c' = d"
  by (simp add: dbm_simps)

lemma pragma_step_ok:
  "f (cn_foreign_keys c) (cn_db c) = Inr (a, d) \<Longrightarrow>
     \<exists>c'. with_pragma (\<lambda>fk. stmt_step (\<lambda>_. NoFault) (f fk)) c = (Inr a, c') \<and> cn_db c' = d"
  unfolding with_pragma_def by (rule stmt_step_ok)

lemma upsert_tag_ok: "\<exists>t c'. upsert_tag (\<lambda>_. NoFault) slug title c = (Inr t, c')"
  by (auto simp: upsert_tag_def dbm_simps insert_tag_stmt_def Let_def find_None_iff split: option.split)

lemma attach_tag_ok:
  assumes "i \<in> set (map ir_id (db_items (cn_db c)))" and "t \<in> set (map tr_id (db_tags (cn_db c)))"
  shows "\<exists>c'. attach_tag (\<lambda>_. NoFault) i t c = (Inr (), c')"
  using assms by (auto simp: attach_tag_def with_pragma_def dbm_simps attach_tag_stmt_def Let_def)

lemma seed_tags_ok:
  "i \<in> set (map ir_id (db_items (cn_db c))) \<Longrightarrow> \<exists>g' c'. seed_tags (\<lambda>_. NoFault) lib i n g c = (Inr g', c')"
proof (induction n arbitrary: g c)
  case 0
  then show ?case by (simp add: db_return_def)
next
  case (Suc n)
  obtain slug g1 where p: "pick lib kTags g = (slug, g1)" by fastforce
  obtain t c1 where t: "upsert_tag (\<lambda>_. NoFault) slug slug c = (Inr t, c1)" using upsert_tag_ok by blast
  from upsert_tag_Inr [OF t] Suc.prems have mem: "i \<in> set (map ir_id (db_items (cn_db c1)))"
    "t \<in> set (map tr_id (db_tags (cn_db c1)))" by auto
  from attach_tag_ok [OF this] obtain c2 where a: "attach_tag (\<lambda>_. NoFault) i t c1 = (Inr (), c2)" by blast
  have "db_items (cn_db c2) = db_items (cn_db c1)" using attach_tag_Inr [OF a] touches_only_items by blast
  with mem(1) Suc.IH [of c2 g1] obtain g' c' where "seed_tags (\<lambda>_. NoFault) lib i n g1 c2 = (Inr g', c')" by auto
  with p t a show ?case by (simp add: db_bind_def)
qed

lemma insert_size_ok: "i \<in> set (map ir_id (db_items d)) \<Longrightarrow> \<exists>d'. insert_size_stmt fk i sz d = Inr ((), d')"
  by (auto simp: insert_size_stmt_def)

lemma insert_color_ok:
  "i \<in> set (map ir_id (db_items d)) \<Longrightarrow> \<exists>d'. insert_color_stmt fk i k d = Inr ((), d') \<and> db_items d' = db_items d"
  by (auto simp: insert_color_stmt_def)

lemma seed_sizes_ok:
  "i \<in> set (map ir_id (db_items (cn_db c))) \<Longrightarrow> \<exists>g' c'. seed_sizes (\<lambda>_. NoFault) lib i n g c = (Inr g', c')"
proof (induction n arbitrary: g c)
  case 0
  then show ?case by (simp add: db_return_def)
next
  case (Suc n)
  obtain sz g1 where p: "pick lib kSizes g = (sz, g1)" by fastforce
  from insert_size_ok [OF Suc.prems] obtain d where d: "insert_size_stmt (cn_foreign_keys c) i sz (cn_db c) = Inr ((), d)" by blast
  from pragma_step_ok [of "\<lambda>fk. insert_size_stmt fk i sz" c, OF d] obtain c1 where a: "with_pragma (\<lambda>fk. stmt_step (\<lambda>_. NoFault) (insert_size_stmt fk i sz)) c = (Inr (), c1)"
    "cn_db c1 = d" by blast
  have "db_items d = db_items (cn_db c)" using insert_size_Inr [OF d] touches_only_items by blast
  with a(2) Suc.prems Suc.IH [of c1 g1] obtain g' c' where "seed_sizes (\<lambda>_. NoFault) lib i n g1 c1 = (Inr g', c')" by auto
  with p a(1) show ?case by (simp add: db_bind_def)
qed

lemma seed_sizes_items:
  "seed_sizes faults lib i n g c = (Inr g', c') \<Longrightarrow> db_items (cn_db c') = db_items (cn_db c)"
proof (induction n arbitrary: g c)
  case 0
  then show ?case by (simp add: db_return_def)
next
  case (Suc n)
  then obtain sz c1 g1 where one: "with_pragma (\<lambda>fk. stmt_step faults (insert_size_stmt fk i sz)) c = (Inr (), c1)"
    and more: "seed_sizes faults lib i n g1 c1 = (Inr g', c')"
    by (auto simp: db_bind_Inr split: prod.splits)
  from insert_size_Inr [OF conjunct1 [OF with_pragma_step_Inr [OF one]]] have "db_items (cn_db c1) = db_items (cn_db c)"
    using touches_only_items by blast
  with Suc.IH [OF more] show ?case by simp
qed

lemma seed_children_ok:
  assumes "i \<in> set (map ir_id (db_items (cn_db c)))"
  shows "\<exists>g' c'. seed_children (\<lambda>_. NoFault) lib kind i g c = (Inr g', c')"
proof -
  obtain nt g1 where nt: "rl_int lib 1 3 g = (nt, g1)" by fastforce
  from seed_tags_ok [OF assms, of lib "nat nt" g1] obtain g2 c1
    where tags: "seed_tags (\<lambda>_. NoFault) lib i (nat nt) g1 c = (Inr g2, c1)" by blast
  have i1: "db_items (cn_db c1) = db_items (cn_db c)" using seed_tags_Inr [OF tags] touches_only_items by blast
  obtain ns g3 where ns: "rl_int lib 2 4 g2 = (ns, g3)" by fastforce
  obtain g4 c2 where sizes: "seed_sizes (\<lambda>_. NoFault) lib i (nat ns) g3 c1 = (Inr g4, c2)"
    using seed_sizes_ok [of i c1 lib "nat ns" g3] assms i1 by auto
  have i2: "db_items (cn_db c2) = db_items (cn_db c)"
    using seed_sizes_items [OF sizes] i1 by simp
  obtain k g5 where k: "pick lib kColors g4 = (k, g5)" by fastforce
  obtain d where d: "insert_color_stmt (cn_foreign_keys c2) i k (cn_db c2) = Inr ((), d)" "db_items d = db_items (cn_db c2)"
    using assms insert_color_ok [of i "cn_db c2" "cn_foreign_keys c2" k] by (auto simp: i2)
  from pragma_step_ok [of "\<lambda>fk. insert_color_stmt fk i k" c2, OF d(1)] obtain c3 where color: "with_pragma (\<lambda>fk. stmt_step (\<lambda>_. NoFault) (insert_color_stmt fk i k)) c2 = (Inr (), c3)"
    "cn_db c3 = d" by blast
  obtain d' where d': "add_image_stmt (cn_foreign_keys c3) i (demo_image kind) (cn_db c3) = Inr ((), d')"
    using assms by (simp add: add_image_stmt_def color(2) d(2) i2)
  from pragma_step_ok [of "\<lambda>fk. add_image_stmt fk i (demo_image kind)" c3, OF d'] obtain c4 where "add_image (\<lambda>_. NoFault) i (demo_image kind) c3 = (Inr (), c4)"
    by (auto simp: add_image_def)
  with nt tags ns sizes k color(1) show ?thesis by (simp add: seed_children_def db_bind_def db_return_def)
qed

lemma seed_one_ok:
  assumes "pid \<in> set (map pr_id (db_partners (cn_db c)))"
  shows "\<exists>g' c'. seed_one (\<lambda>_. NoFault) lib pid now i g c = (Inr g', c')"
proof -
  obtain price g1 where price: "rl_int lib 1500 25000 g = (price, g1)" by fastforce
  obtain kind g2 where kind: "rl_size lib 0 (int (length kTitles) - 1) g1 = (kind, g2)" by fastforce
  obtain brand g3 where brand: "pick lib kBrands g2 = (brand, g3)" by fastforce
  obtain score g4 where score: "rl_real lib 0 10 g3 = (score, g4)" by fastforce
  let ?it = "demo_item pid now i price (nat kind) brand score"
  obtain item_id d where d: "insert_item_stmt (cn_foreign_keys c) ?it (cn_db c) = Inr (item_id, d)" "item_id \<in> set (map ir_id (db_items d))"
    using assms by (simp add: insert_item_stmt_def demo_item_def Let_def)
  from pragma_step_ok [of "\<lambda>fk. insert_item_stmt fk ?it" c, OF d(1)] obtain c1 where "insert_item (\<lambda>_. NoFault) ?it c = (Inr item_id, c1)" "cn_db c1 = d"
    by (auto simp: insert_item_def)
  with d(2) seed_children_ok [of item_id c1 lib "nat kind" g4] price kind brand score show ?thesis
    by (auto simp: seed_one_def db_bind_def)
qed

lemma seed_loop_ok:
  assumes "rng_ok lib" and "enforced db_wf c" and "pid \<in> set (map pr_id (db_partners (cn_db c)))"
  shows "\<exists>g' c'. seed_loop (\<lambda>_. NoFault) lib pid now i n g c = (Inr g', c')"
  using assms(2,3)
proof (induction n arbitrary: i g c)
  case 0
  then show ?case by (simp add: db_return_def)
next
  case (Suc n)
  from seed_one_ok [OF Suc.prems(2), of lib now i g] obtain g1 c1 where one: "seed_one (\<lambda>_. NoFault) lib pid now i g c = (Inr g1, c1)" by blast
  have ok: "enforced db_wf c1" using keeps_connD [OF seed_one_wf Suc.prems(1) one] .
  have "db_wf (cn_db c)" using Suc.prems(1) by (simp add: enforced_def conn_ok_def)
  from seed_one_Inr [OF assms(1) this one] have "leaves_rest (cn_db c) (cn_db c1)" by blast
  with Suc.prems(2) have "pid \<in> set (map pr_id (db_partners (cn_db c1)))" by (simp add: leaves_rest_def)
  from Suc.IH [OF ok this, of "i + 1" g1] one show ?case by (auto simp: db_bind_def)
qed

section \<open>The command\<close>

lemma keeps_transaction_tags: "keeps_transaction (seed_tags faults lib i n g)"
  by (induction n arbitrary: g)
    (auto simp: attach_tag_def upsert_tag_def stmt_read_def intro!: keeps_transaction_intros split: prod.split option.split)

lemma keeps_transaction_sizes: "keeps_transaction (seed_sizes faults lib i n g)"
  by (induction n arbitrary: g) (auto intro!: keeps_transaction_intros split: prod.split)

lemma keeps_transaction_one: "keeps_transaction (seed_one faults lib pid now i g)"
  unfolding seed_one_def seed_children_def insert_item_def add_image_def
  by (auto intro!: keeps_transaction_intros keeps_transaction_tags keeps_transaction_sizes split: prod.split)

interpretation seeding: transaction_body "seed_loop faults lib pid now i n g" for faults lib pid now i n g
proof
  show "keeps_transaction (seed_loop faults lib pid now i n g)"
    by (induction n arbitrary: i g) (auto intro!: keeps_transaction_intros keeps_transaction_one)
qed

text \<open>After \<open>BEGIN\<close>: the loop and the commit. Whatever fails, the committed tables are those before.\<close>

lemma seed_transaction_cases:
  assumes run: "db_bind (seed_loop faults lib pid now 0 n g) (\<lambda>_.
      db_bind (exec_commit faults) (\<lambda>_. db_return out)) c = (r, c')" and saved: "cn_saved c = Some d"
  shows "(\<exists>e. r = Inl e) \<and> committed c' = d \<or>
    r = Inr out \<and> (\<exists>g' c1. seed_loop faults lib pid now 0 n g c = (Inr g', c1) \<and> committed c' = cn_db c1)"
proof -
  obtain r1 c1 where loop: "seed_loop faults lib pid now 0 n g c = (r1, c1)" by fastforce
  note keep = keeps_transactionD [OF seeding.body_keeps loop saved]
  show ?thesis
  proof (cases r1)
    case (Inl e)
    with run loop keep show ?thesis by (auto simp: db_bind_def committed_def)
  next
    case (Inr g')
    with keep have s1: "cn_saved c1 = Some d" by simp
    obtain r2 c2 where com: "exec_commit faults c1 = (r2, c2)" by fastforce
    from seeding.commit_cases [OF com s1] run loop Inr com show ?thesis
      by (auto simp: db_bind_def db_return_def committed_def)
  qed
qed

lemma seed_body_cases:
  assumes run: "seed_body faults lib g now cnt c = (r, c')" and saved: "cn_saved c = None"
  obtains (failed) e where "r = Inl e" "committed c' = cn_db c"
    | (no_partner) "r = Inr NoDirectPartner" "committed c' = cn_db c" "''direct'' \<notin> set (map pr_code (db_partners (cn_db c)))"
    | (seeded) p c1 c2 g' where "r = Inr (Seeded cnt)" "p \<in> set (db_partners (cn_db c))" "pr_code p = ''direct''"
        "cn_db c1 = cn_db c" "cn_saved c1 = Some (cn_db c)"
        "seed_loop faults lib (pr_id p) now 0 (nat cnt) g c1 = (Inr g', c2)" "committed c' = cn_db c2"
        "cn_foreign_keys c1 = cn_foreign_keys c"
proof -
  obtain r0 c0 where find: "find_partner_by_code faults ''direct'' c = (r0, c0)" by fastforce
  have c0: "cn_db c0 = cn_db c" "cn_saved c0 = None" "cn_foreign_keys c0 = cn_foreign_keys c"
    using find saved unfolding find_partner_by_code_def stmt_read_def by (auto elim!: stmt_step_cases)
  show thesis
  proof (cases r0)
    case (Inl e)
    with run find c0 show thesis by (intro failed) (auto simp: seed_body_def db_bind_def committed_def)
  next
    case (Inr found)
    with find have found: "found = map_option partner_of_row (List.find (\<lambda>r. pr_code r = ''direct'') (db_partners (cn_db c)))"
      unfolding find_partner_by_code_def by (auto dest: stmt_read_Inr)
    show thesis
    proof (cases "List.find (\<lambda>r. pr_code r = ''direct'') (db_partners (cn_db c))")
      case None
      with run find Inr found c0 show thesis
        by (intro no_partner) (auto simp: seed_body_def db_bind_def db_return_def committed_def find_None_iff)
    next
      case (Some p)
      note p = find_eq_SomeD [OF Some]
      obtain rb c1 where b: "exec_begin faults c0 = (rb, c1)" by fastforce
      note b_cases = seeding.begin_cases [OF b c0(2)]
      have rest: "db_bind (exec_begin faults) (\<lambda>_. db_bind (seed_loop faults lib (pr_id p) now 0 (nat cnt) g) (\<lambda>_.
          db_bind (exec_commit faults) (\<lambda>_. db_return (Seeded cnt)))) c0 = (r, c')"
        using run find Inr found Some by (simp add: seed_body_def db_bind_def [of "find_partner_by_code faults ''direct''"] partner_of_row_def)
      show thesis
      proof (cases rb)
        case (Inl e)
        with rest b b_cases c0 show thesis by (intro failed) (auto simp: db_bind_def committed_def)
      next
        case (Inr u)
        with b_cases c0 exec_flag(1) [OF b] have c1: "cn_db c1 = cn_db c" "cn_saved c1 = Some (cn_db c)"
          "cn_foreign_keys c1 = cn_foreign_keys c" by auto
        from rest b Inr have "db_bind (seed_loop faults lib (pr_id p) now 0 (nat cnt) g) (\<lambda>_.
            db_bind (exec_commit faults) (\<lambda>_. db_return (Seeded cnt))) c1 = (r, c')"
          by (simp add: db_bind_def [of "exec_begin faults"])
        from seed_transaction_cases [OF this c1(2)] show thesis
          using failed seeded p c1 by blast
      qed
    qed
  qed
qed

lemma seed_body_ok:
  assumes "rng_ok lib" and "db_wf (cn_db c)" and "cn_saved c = None" and "cn_foreign_keys c"
  shows "\<exists>out c'. seed_body (\<lambda>_. NoFault) lib g now cnt c = (Inr out, c')"
proof (cases "List.find (\<lambda>r. pr_code r = ''direct'') (db_partners (cn_db c))")
  case None
  then show ?thesis by (simp add: seed_body_def find_partner_by_code_def dbm_simps)
next
  case (Some p)
  let ?c1 = "c\<lparr> cn_calls := Suc (Suc (cn_calls c)), cn_saved := Some (cn_db c) \<rparr>"
  have "enforced db_wf ?c1" using assms(2,4) by (simp add: enforced_def conn_ok_def)
  moreover have "pr_id p \<in> set (map pr_id (db_partners (cn_db ?c1)))" using find_eq_SomeD [OF Some] by simp
  ultimately obtain g' c2 where loop: "seed_loop (\<lambda>_. NoFault) lib (pr_id p) now 0 (nat cnt) g ?c1 = (Inr g', c2)"
    using seed_loop_ok [OF assms(1), of ?c1 "pr_id p" now 0 "nat cnt" g] by blast
  from keeps_transactionD [OF seeding.body_keeps loop] have "cn_saved c2 = Some (cn_db c)" by simp
  with loop Some assms(3) show ?thesis
    by (simp add: seed_body_def find_partner_by_code_def dbm_simps partner_of_row_def)
qed

text \<open>
  \<^bold>\<open>C18.\<close> Seeding is all or nothing, although the code has no \<open>ROLLBACK\<close>: whichever
  sqlite call fails, the tables are afterwards what they were. When the command reports success
  the catalog has exactly the asked number of new items, each published, bound to the partner
  \<open>direct\<close>, priced between 1500 and 25000 rubles with a higher old price on every third, and
  shown with the placeholder tile drawn for its title, one to three tags, one to four sizes and one
  colour; everything else, the children of older items included, is untouched. The constraints
  of the schema hold afterwards, and when sqlite does not fail the command returns.
\<close>

theorem cmd_seed_correct:
  assumes "rng_ok lib" and "db_wf d" and "cmd_seed faults lib g now cnt d = (r, d')"
  shows "db_wf d' \<and> (faults = (\<lambda>_. NoFault) \<longrightarrow> (\<exists>out. r = Inr out)) \<and>
    (case r of
       Inl e \<Rightarrow> d' = d
     | Inr NoDirectPartner \<Rightarrow> d' = d \<and> ''direct'' \<notin> set (map pr_code (db_partners d))
     | Inr (Seeded n) \<Rightarrow> n = cnt \<and> leaves_rest d d' \<and>
         (\<exists>rows. \<exists>p \<in> set (db_partners d). pr_code p = ''direct'' \<and>
            db_items d' = db_items d @ rows \<and> length rows = nat cnt \<and>
            (\<forall>j < nat cnt. \<exists>kind. demo_row (pr_id p) now (int j) kind (rows ! j) \<and> dressed kind (ir_id (rows ! j)) d')))"
proof -
  have returns: "\<exists>out. r = Inr out" if "faults = (\<lambda>_. NoFault)"
  proof -
    have "\<exists>out c'. seed_body (\<lambda>_. NoFault) lib g now cnt (opened_conn d) = (Inr out, c')"
      by (rule seed_body_ok [OF assms(1)]) (simp_all add: assms(2))
    with assms(3) that show ?thesis by (auto simp: cmd_seed_def with_conn_def connect_no_fault db_bind_def)
  qed
  from assms(3) [unfolded cmd_seed_def] show ?thesis
  proof (cases rule: with_conn_cases)
    case (refused e)
    with assms(2) returns show ?thesis by auto
  next
    case (opened c c')
    from opened(4,2) show ?thesis
    proof (cases rule: seed_body_cases)
      case (seeded p c1 c2 g')
      have ok: "enforced db_wf c1" using seeded assms(2) opened(1,6) by (simp add: enforced_def conn_ok_def)
      from keeps_connD [OF seed_loop_wf ok seeded(6)] have "db_wf d'"
        using seeded(7) opened(5) by (simp add: enforced_def conn_ok_def)
      with seed_loop_Inr [OF assms(1) ok seeded(6)] seeded opened returns show ?thesis by auto
    qed (use opened assms(2) returns in auto)
  qed
qed

definition lowest_draws :: "unit rng_lib" where
  "lowest_draws = \<lparr> rl_int = \<lambda>lo hi g. (lo, g), rl_size = \<lambda>lo hi g. (lo, g), rl_real = \<lambda>lo hi g. (lo, g) \<rparr>"

definition direct_database :: database where
  "direct_database = empty_database\<lparr> db_partners :=
     [\<lparr> pr_id = 1, pr_code = ''direct'', pr_title = ''Direct'', pr_link_template = ''{url}'', pr_enabled = 1, pr_created_at = 0 \<rparr>] \<rparr>"

theorem cmd_seed_correct_witness:
  "\<exists>d'. cmd_seed (\<lambda>_. NoFault) lowest_draws () 0 2 direct_database = (Inr (Seeded 2), d') \<and> length (db_items d') = 2"
proof -
  obtain r d' where run: "cmd_seed (\<lambda>_. NoFault) lowest_draws () 0 2 direct_database = (r, d')" by fastforce
  have "rng_ok lowest_draws" by (simp add: rng_ok_def lowest_draws_def)
  moreover have "db_wf direct_database"
    by (simp add: direct_database_def empty_database_def db_wf_def items_wf_def children_wf_def events_wf_def
        conversions_wf_def stats_wf_def present_def)
  ultimately show ?thesis
    using cmd_seed_correct [OF _ _ run] run
    by (auto simp: direct_database_def empty_database_def split: sum.splits seed_outcome.splits)
qed

end
