(* ===== verification/Admin_Stats.thy ===== *)
theory Admin_Stats
  imports Db_Metrics Db_Load Amounts
begin

text \<open>
  \<open>ssize-admin stats\<close>: \<open>cmd_stats\<close> of \<open>src/admin_cli.cpp\<close>, three queries over the raw events and
  the conversions. A query is a function on the tables; groups come in the order of their first
  row, which SQL leaves open and no property depends on. Ratios are doubles, rounded as in
  \<open>Amounts\<close>. The report holds the values that are printed; the formatting of the lines is
  left to the stream.
\<close>

section \<open>The funnel\<close>

definition human_since :: "ts_ms \<Rightarrow> event_row list \<Rightarrow> event_row list" where
  "human_since since evs = filter (\<lambda>r. since \<le> er_ts r \<and> er_ua_class r \<noteq> ''bot'') evs"

text \<open>\<open>SELECT type, COUNT(*), COUNT(DISTINCT anon_id) ... GROUP BY type\<close>\<close>

definition funnel_group :: "event_row list \<Rightarrow> string \<Rightarrow> string \<times> int \<times> int" where
  "funnel_group evs t =
     (let grp = filter (\<lambda>r. er_type r = t) evs
      in (t, int (length grp), int (length (remdups (map er_anon_id grp)))))"

definition select_funnel :: "ts_ms \<Rightarrow> database \<Rightarrow> (string \<times> int \<times> int) list" where
  "select_funnel since d =
     (let evs = human_since since (db_events d) in map (funnel_group evs) (remdups (map er_type evs)))"

section \<open>The best items\<close>

record top_row =
  tp_id :: int
  tp_title :: string
  tp_imp :: int
  tp_out :: int

text \<open>\<open>events e JOIN items i ON i.id = e.item_id\<close>\<close>

definition join_items :: "item_row list \<Rightarrow> event_row list \<Rightarrow> (event_row \<times> item_row) list" where
  "join_items items evs =
     concat (map (\<lambda>e. map (Pair e) (filter (\<lambda>i. er_item_id e = Some (ir_id i)) items)) evs)"

definition top_group :: "(event_row \<times> item_row) list \<Rightarrow> int \<Rightarrow> top_row" where
  "top_group pairs i =
     (let grp = filter (\<lambda>p. ir_id (snd p) = i) pairs
      in \<lparr> tp_id = i, tp_title = ir_title (snd (hd grp)),
           tp_imp = count_type ''impression'' (map fst grp), tp_out = count_type ''outbound'' (map fst grp) \<rparr>)"

text \<open>\<open>CAST(out AS REAL) / imp\<close>\<close>

definition out_ratio :: "top_row \<Rightarrow> rat" where
  "out_ratio r = round_rat (round_rat (of_int (tp_out r)) / round_rat (of_int (tp_imp r)))"

definition ratio_before :: "top_row \<Rightarrow> top_row \<Rightarrow> bool" where
  "ratio_before a b \<longleftrightarrow> out_ratio a > out_ratio b"

definition select_top :: "ts_ms \<Rightarrow> database \<Rightarrow> top_row list" where
  "select_top since d =
     (let pairs = join_items (db_items d) (human_since since (db_events d));
          rows = map (top_group pairs) (remdups (map (ir_id \<circ> snd) pairs))
      in take 10 (stable_sort ratio_before (filter (\<lambda>r. 20 \<le> tp_imp r) rows)))"

text \<open>\<open>imp ? 100.0 * out / imp : 0.0\<close>\<close>

definition percent_of :: "top_row \<Rightarrow> rat" where
  "percent_of r =
     (if tp_imp r = 0 then 0
      else round_rat (round_rat (100 * round_rat (of_int (tp_out r))) / round_rat (of_int (tp_imp r))))"

section \<open>Conversions\<close>

text \<open>\<open>COALESCE(SUM(amount_kopek), 0)\<close>: NULL amounts are skipped. Rubles are printed, truncated.\<close>

definition sum_amounts :: "conversion_row list \<Rightarrow> int" where
  "sum_amounts rows = sum_list (List.map_filter cr_amount_kopek rows)"

definition conversion_group :: "conversion_row list \<Rightarrow> string \<Rightarrow> string \<times> int \<times> int" where
  "conversion_group rows st =
     (let grp = filter (\<lambda>r. cr_status r = st) rows in (st, int (length grp), sum_amounts grp))"

definition conversions_since :: "ts_ms \<Rightarrow> database \<Rightarrow> conversion_row list" where
  "conversions_since since d = filter (\<lambda>r. since \<le> cr_ts r) (db_conversions d)"

definition select_conversions :: "ts_ms \<Rightarrow> database \<Rightarrow> (string \<times> int \<times> int) list" where
  "select_conversions since d =
     (let rows = conversions_since since d in map (conversion_group rows) (remdups (map cr_status rows)))"

section \<open>The command\<close>

record report =
  rp_funnel :: "(string \<times> int \<times> int) list"
  rp_top :: "(int \<times> string \<times> int \<times> int \<times> rat) list"
  rp_conversions :: "(string \<times> int \<times> int) list"

definition stats_since :: "ts_ms \<Rightarrow> int \<Rightarrow> ts_ms" where
  "stats_since now days = now - days * 86400000"

definition stats_body :: "faults \<Rightarrow> ts_ms \<Rightarrow> report sql" where
  "stats_body faults since =
     db_bind (stmt_read faults (select_funnel since)) (\<lambda>funnel.
     db_bind (stmt_read faults (select_top since)) (\<lambda>top.
     db_bind (stmt_read faults (select_conversions since)) (\<lambda>convs.
       db_return \<lparr> rp_funnel = funnel,
         rp_top = map (\<lambda>r. (tp_id r, tp_title r, tp_out r, tp_imp r, percent_of r)) top,
         rp_conversions = map (\<lambda>(st, n, amt). (st, n, amt sdiv 100)) convs \<rparr>)))"

definition cmd_stats :: "faults \<Rightarrow> ts_ms \<Rightarrow> int \<Rightarrow> database \<Rightarrow> (sql_error + report) \<times> database" where
  "cmd_stats faults now days d = with_conn faults d (stats_body faults (stats_since now days))"

section \<open>Groups\<close>

text \<open>A \<open>GROUP BY\<close> as the image of its distinct keys.\<close>

lemma in_groups:
  assumes "\<And>k. fst (f k) = k"
  shows "(k, v) \<in> set (map f (remdups (map key xs))) \<longleftrightarrow> (\<exists>x \<in> set xs. key x = k) \<and> (k, v) = f k"
proof -
  have "(k, v) = f k' \<Longrightarrow> k' = k" for k' using assms [of k'] by (metis fst_conv)
  then show ?thesis by (auto simp: image_iff)
qed

lemma distinct_groups: "(\<And>k. fst (f k) = k) \<Longrightarrow> distinct (map fst (map f (remdups (map key xs))))"
  by (simp add: comp_def)

lemma sum_over_groups:
  "sum_list (map (\<lambda>k. length (filter (\<lambda>x. key x = k) xs)) (remdups (map key xs))) = length xs"
proof -
  have "sum_list (map (\<lambda>k. length (filter (\<lambda>x. key x = k) xs)) (remdups (map key xs))) =
      (\<Sum>k \<in> key ` set xs. card {i. i < length xs \<and> key (xs ! i) = k})"
    by (simp add: sum_list_distinct_conv_sum_set length_filter_conv_card)
  also have "\<dots> = card (\<Union>k \<in> key ` set xs. {i. i < length xs \<and> key (xs ! i) = k})"
    by (rule card_UN_disjoint [symmetric]) auto
  also have "(\<Union>k \<in> key ` set xs. {i. i < length xs \<and> key (xs ! i) = k}) = {..< length xs}"
    by (auto simp: set_conv_nth)
  finally show ?thesis by simp
qed

lemma funnel_row:
  "(t, n, u) \<in> set (select_funnel since d) \<longleftrightarrow>
     0 < n \<and> n = int (length (filter (\<lambda>e. er_type e = t) (human_since since (db_events d)))) \<and>
     u = int (card {er_anon_id e | e. e \<in> set (human_since since (db_events d)) \<and> er_type e = t})"
proof -
  let ?evs = "human_since since (db_events d)" let ?grp = "filter (\<lambda>e. er_type e = t) ?evs"
  have "{er_anon_id e | e. e \<in> set ?evs \<and> er_type e = t} = set (map er_anon_id ?grp)" by auto
  then have users: "card {er_anon_id e | e. e \<in> set ?evs \<and> er_type e = t} = length (remdups (map er_anon_id ?grp))"
    by (simp only: length_remdups_card_conv)
  have "(\<exists>e \<in> set ?evs. er_type e = t) \<longleftrightarrow> 0 < length ?grp" by (auto simp: filter_empty_conv)
  moreover have "fst (funnel_group ?evs k) = k" for k by (simp add: funnel_group_def Let_def)
  ultimately show ?thesis
    unfolding select_funnel_def Let_def by (auto simp: in_groups users funnel_group_def Let_def simp del: set_map)
qed

lemma conversion_row_of:
  "(st, n, amt) \<in> set (select_conversions since d) \<longleftrightarrow>
     0 < n \<and> n = int (length (filter (\<lambda>r. cr_status r = st) (conversions_since since d))) \<and>
     amt = sum_amounts (filter (\<lambda>r. cr_status r = st) (conversions_since since d))"
proof -
  let ?rows = "conversions_since since d"
  have "(\<exists>r \<in> set ?rows. cr_status r = st) \<longleftrightarrow> 0 < length (filter (\<lambda>r. cr_status r = st) ?rows)"
    by (auto simp: filter_empty_conv)
  moreover have "fst (conversion_group ?rows k) = k" for k by (simp add: conversion_group_def Let_def)
  ultimately show ?thesis
    unfolding select_conversions_def Let_def by (auto simp: in_groups conversion_group_def Let_def simp del: set_map)
qed

lemma conversions_partition: "sum_list (map (fst \<circ> snd) (select_conversions since d)) = int (length (conversions_since since d))"
proof -
  let ?rows = "conversions_since since d"
  have int_sum: "int (sum_list (map f ks)) = sum_list (map (\<lambda>k. int (f k)) ks)" for f :: "string \<Rightarrow> nat" and ks
    by (induction ks) simp_all
  have "sum_list (map (fst \<circ> snd) (select_conversions since d)) =
      int (sum_list (map (\<lambda>k. length (filter (\<lambda>r. cr_status r = k) ?rows)) (remdups (map cr_status ?rows))))"
    by (simp add: select_conversions_def conversion_group_def Let_def comp_def int_sum)
  then show ?thesis by (simp only: sum_over_groups)
qed

section \<open>The join\<close>

lemma filter_key_unique:
  "distinct (map key xs) \<Longrightarrow> x \<in> set xs \<Longrightarrow> filter (\<lambda>y. key x = key y) xs = [x]"
  by (induction xs) (auto simp: filter_empty_conv image_iff)

lemma join_group:
  assumes "distinct (map ir_id items)" and "i \<in> set items"
  shows "filter (\<lambda>p. ir_id (snd p) = ir_id i) (join_items items evs) =
    map (\<lambda>e. (e, i)) (filter (\<lambda>e. er_item_id e = Some (ir_id i)) evs)"
proof (induction evs)
  case Nil
  then show ?case by (simp add: join_items_def)
next
  case (Cons e evs)
  have "filter (\<lambda>p. ir_id (snd p) = ir_id i) (map (Pair e) (filter (\<lambda>j. er_item_id e = Some (ir_id j)) items)) =
      (if er_item_id e = Some (ir_id i) then [(e, i)] else [])"
  proof (cases "er_item_id e = Some (ir_id i)")
    case True
    with filter_key_unique [OF assms] show ?thesis by (simp add: filter_map comp_def)
  next
    case False
    then show ?thesis by (auto simp: filter_map comp_def filter_empty_conv)
  qed
  with Cons show ?case by (simp add: join_items_def)
qed

lemma join_keys:
  "k \<in> set (map (ir_id \<circ> snd) (join_items items evs)) \<longleftrightarrow>
     k \<in> set (map ir_id items) \<and> (\<exists>e \<in> set evs. er_item_id e = Some k)"
  by (force simp: join_items_def)

interpretation ratio_order: strict_weak ratio_before
  by unfold_locales (auto simp: ratio_before_def)

text \<open>What a line of the list should say: an existing item with its own counts.\<close>

definition item_since :: "ts_ms \<Rightarrow> database \<Rightarrow> int \<Rightarrow> event_row list" where
  "item_since since d i = filter (\<lambda>e. er_item_id e = Some i) (human_since since (db_events d))"

definition eligible :: "ts_ms \<Rightarrow> database \<Rightarrow> top_row \<Rightarrow> bool" where
  "eligible since d r \<longleftrightarrow> 20 \<le> tp_imp r \<and>
     (\<exists>i \<in> set (db_items d). ir_id i = tp_id r \<and> ir_title i = tp_title r) \<and>
     tp_imp r = count_type ''impression'' (item_since since d (tp_id r)) \<and>
     tp_out r = count_type ''outbound'' (item_since since d (tp_id r))"

lemma top_group_eq:
  assumes "distinct (map ir_id (db_items d))" and "i \<in> set (db_items d)" and "item_since since d (ir_id i) \<noteq> []"
  shows "top_group (join_items (db_items d) (human_since since (db_events d))) (ir_id i) =
    \<lparr> tp_id = ir_id i, tp_title = ir_title i, tp_imp = count_type ''impression'' (item_since since d (ir_id i)),
      tp_out = count_type ''outbound'' (item_since since d (ir_id i)) \<rparr>"
proof -
  have "snd (hd (map (\<lambda>e. (e, i)) (item_since since d (ir_id i)))) = i"
    using assms(3) by (cases "item_since since d (ir_id i)") simp_all
  then show ?thesis
    unfolding top_group_def Let_def join_group [OF assms(1,2)] by (simp add: item_since_def comp_def)
qed

lemma top_rows:
  assumes "distinct (map ir_id (db_items d))"
  shows "r \<in> set (filter (\<lambda>r. 20 \<le> tp_imp r) (map (top_group (join_items (db_items d) (human_since since (db_events d))))
      (remdups (map (ir_id \<circ> snd) (join_items (db_items d) (human_since since (db_events d))))))) \<longleftrightarrow> eligible since d r"
    (is "r \<in> set (filter _ (map ?grp ?keys)) \<longleftrightarrow> _")
proof
  assume r: "r \<in> set (filter (\<lambda>r. 20 \<le> tp_imp r) (map ?grp ?keys))"
  then obtain k where k: "k \<in> set ?keys" "r = ?grp k" "20 \<le> tp_imp r" by auto
  from k(1) have "k \<in> set (map ir_id (db_items d)) \<and> (\<exists>e \<in> set (human_since since (db_events d)). er_item_id e = Some k)"
    unfolding set_remdups join_keys .
  then obtain i where i: "i \<in> set (db_items d)" "k = ir_id i" and "item_since since d k \<noteq> []"
    by (auto simp: item_since_def filter_empty_conv)
  with top_group_eq [OF assms, of i since] k show "eligible since d r" by (auto simp: eligible_def)
next
  assume el: "eligible since d r"
  then obtain i where i: "i \<in> set (db_items d)" "ir_id i = tp_id r" "ir_title i = tp_title r" by (auto simp: eligible_def)
  from el have ne: "item_since since d (ir_id i) \<noteq> []" by (auto simp: eligible_def i(2) count_type_def)
  then have "ir_id i \<in> set ?keys"
    unfolding set_remdups join_keys using i(1) by (auto simp: item_since_def filter_empty_conv)
  moreover have "?grp (ir_id i) = r"
    using top_group_eq [OF assms i(1) ne] el i by (cases r) (simp add: eligible_def)
  ultimately show "r \<in> set (filter (\<lambda>r. 20 \<le> tp_imp r) (map ?grp ?keys))"
    using el by (force simp: eligible_def)
qed

lemma top_ids_distinct: "distinct (map tp_id (select_top since d))"
proof -
  let ?rows = "filter (\<lambda>r. 20 \<le> tp_imp r) (map (top_group (join_items (db_items d) (human_since since (db_events d))))
      (remdups (map (ir_id \<circ> snd) (join_items (db_items d) (human_since since (db_events d))))))"
  have "distinct (map tp_id ?rows)"
    by (rule distinct_map_filter') (simp add: comp_def top_group_def Let_def)
  moreover have "mset (map tp_id (stable_sort ratio_before ?rows)) = mset (map tp_id ?rows)"
    using ratio_order.mset_stable_sort by simp
  ultimately have "distinct (map tp_id (stable_sort ratio_before ?rows))" by (metis mset_eq_imp_distinct_iff)
  then show ?thesis by (simp add: select_top_def Let_def take_map [symmetric])
qed

lemma stats_body_reads:
  assumes "stats_body faults since c = (r, c')" and "cn_saved c = None"
  shows "committed c' = cn_db c \<and> (\<forall>rp. r = Inr rp \<longrightarrow> rp_funnel rp = select_funnel since (cn_db c) \<and>
    map fst (rp_top rp) = map tp_id (select_top since (cn_db c)) \<and>
    rp_conversions rp = map (\<lambda>(st, n, amt). (st, n, amt sdiv 100)) (select_conversions since (cn_db c)))"
  using assms
  by (auto simp: stats_body_def committed_def dbm_simps Let_def comp_def split: fault.splits sum.splits prod.splits)

lemma cmd_stats_reads:
  assumes "cmd_stats faults now days d = (r, d')"
  shows "d' = d \<and> (\<forall>rp. r = Inr rp \<longrightarrow> rp_funnel rp = select_funnel (stats_since now days) d \<and>
    map fst (rp_top rp) = map tp_id (select_top (stats_since now days) d) \<and>
    rp_conversions rp = map (\<lambda>(st, n, amt). (st, n, amt sdiv 100)) (select_conversions (stats_since now days) d))"
  using assms [unfolded cmd_stats_def] by (cases rule: with_conn_cases) (use stats_body_reads in auto)

text \<open>An item as \<open>eligible\<close> has it, over the raw events.\<close>

lemma eligible_iff:
  "eligible since d r \<longleftrightarrow> 20 \<le> tp_imp r \<and> (\<exists>i \<in> set (db_items d). ir_id i = tp_id r \<and> ir_title i = tp_title r) \<and>
     tp_imp r = int (length (filter (\<lambda>e. since \<le> er_ts e \<and> er_ua_class e \<noteq> ''bot'' \<and> er_item_id e = Some (tp_id r) \<and>
       er_type e = ''impression'') (db_events d))) \<and>
     tp_out r = int (length (filter (\<lambda>e. since \<le> er_ts e \<and> er_ua_class e \<noteq> ''bot'' \<and> er_item_id e = Some (tp_id r) \<and>
       er_type e = ''outbound'') (db_events d)))"
  by (simp add: eligible_def item_since_def human_since_def count_type_def conj_ac)

lemma select_top_best:
  assumes "distinct (map ir_id (db_items d))"
  shows "sorted_wrt (\<lambda>a b. out_ratio b \<le> out_ratio a) (select_top since d)"
    and "r \<in> set (select_top since d) \<Longrightarrow> eligible since d r"
    and "eligible since d r \<Longrightarrow> r \<in> set (select_top since d) \<or>
       length (select_top since d) = 10 \<and> (\<forall>t \<in> set (select_top since d). out_ratio r \<le> out_ratio t)"
proof -
  define rows where "rows = filter (\<lambda>r. 20 \<le> tp_imp r) (map (top_group (join_items (db_items d) (human_since since (db_events d))))
      (remdups (map (ir_id \<circ> snd) (join_items (db_items d) (human_since since (db_events d))))))"
  have top: "select_top since d = take 10 (stable_sort ratio_before rows)" by (simp add: select_top_def rows_def Let_def)
  have el: "r \<in> set rows \<longleftrightarrow> eligible since d r" for r unfolding rows_def by (rule top_rows [OF assms])
  have "sorted_wrt (\<lambda>a b. out_ratio b \<le> out_ratio a) (stable_sort ratio_before rows)"
    using ratio_order.ordered_stable_sort by (simp add: ratio_before_def not_less)
  then show "sorted_wrt (\<lambda>a b. out_ratio b \<le> out_ratio a) (select_top since d)" by (simp add: top sorted_wrt_take)
  show "r \<in> set (select_top since d) \<Longrightarrow> eligible since d r"
    using in_set_takeD [of r 10 "stable_sort ratio_before rows"] by (simp add: top el)
  show "eligible since d r \<Longrightarrow> r \<in> set (select_top since d) \<or>
       length (select_top since d) = 10 \<and> (\<forall>t \<in> set (select_top since d). out_ratio r \<le> out_ratio t)"
    using ratio_order.best_of [of r rows 10] by (auto simp: top el ratio_before_def not_less)
qed

section \<open>Properties\<close>

text \<open>
  \<^bold>\<open>C30.\<close> The list of best items, counted on the raw events: an event counts when it is not
  older than the window, is not from a bot and names the item. Every line is an existing item
  once, with its title, its number of such impressions, at least twenty, and its number of such
  outbound clicks; there are at most ten lines, by falling ratio of outbound clicks to
  impressions (as the quotient of two doubles). And they are the best: an existing item with its
  counts and at least twenty impressions that is not listed has no higher ratio than any line,
  and then ten are listed.
\<close>

theorem top_items_correct:
  assumes "distinct (map ir_id (db_items d))"
  shows "let n = (\<lambda>type i. int (length (filter (\<lambda>e. since \<le> er_ts e \<and> er_ua_class e \<noteq> ''bot'' \<and> er_item_id e = Some i \<and>
            er_type e = type) (db_events d))));
        line = (\<lambda>r. (\<exists>i \<in> set (db_items d). ir_id i = tp_id r \<and> ir_title i = tp_title r) \<and> 20 \<le> tp_imp r \<and>
            tp_imp r = n ''impression'' (tp_id r) \<and> tp_out r = n ''outbound'' (tp_id r));
        ratio = (\<lambda>r. round_rat (round_rat (of_int (tp_out r)) / round_rat (of_int (tp_imp r))));
        top = select_top since d
    in length top \<le> 10 \<and> distinct (map tp_id top) \<and> sorted_wrt (\<lambda>a b. ratio b \<le> ratio a) top \<and>
       (\<forall>r. r \<in> set top \<longrightarrow> line r) \<and>
       (\<forall>r. line r \<longrightarrow> r \<in> set top \<or> length top = 10 \<and> (\<forall>t \<in> set top. ratio r \<le> ratio t))"
proof -
  have ratio: "(\<lambda>r. round_rat (round_rat (of_int (tp_out r)) / round_rat (of_int (tp_imp r)))) = out_ratio"
    by (simp add: out_ratio_def fun_eq_iff)
  have line: "(\<exists>i \<in> set (db_items d). ir_id i = tp_id r \<and> ir_title i = tp_title r) \<and> 20 \<le> tp_imp r \<and>
      tp_imp r = int (length (filter (\<lambda>e. since \<le> er_ts e \<and> er_ua_class e \<noteq> ''bot'' \<and> er_item_id e = Some (tp_id r) \<and>
        er_type e = ''impression'') (db_events d))) \<and>
      tp_out r = int (length (filter (\<lambda>e. since \<le> er_ts e \<and> er_ua_class e \<noteq> ''bot'' \<and> er_item_id e = Some (tp_id r) \<and>
        er_type e = ''outbound'') (db_events d))) \<longleftrightarrow> eligible since d r" for r
    unfolding eligible_iff by blast
  have "length (select_top since d) \<le> 10" by (simp add: select_top_def Let_def)
  with select_top_best [OF assms] top_ids_distinct [of since d] show ?thesis
    unfolding Let_def ratio line by blast
qed

text \<open>
  Item 3 is seen twenty times and clicked twice, item 1 seen twenty times and clicked four times; the
  clicks of a bot, a click before the window and an item seen once do not count.
\<close>

definition viewed_database :: database where
  "viewed_database =
     (let seen = (\<lambda>i. event_row_of 1 (event_default\<lparr> ev_ts := 50, ev_item_id := Some i \<rparr>));
          out = (\<lambda>i. event_row_of 1 (event_default\<lparr> ev_ts := 60, ev_type := Outbound, ev_item_id := Some i \<rparr>))
      in stocked_database\<lparr> db_events := (out 3)\<lparr> er_ts := 9 \<rparr> # replicate 20 (seen 3) @ replicate 2 (out 3) @
           replicate 3 ((out 3)\<lparr> er_ua_class := ''bot'' \<rparr>) @ replicate 20 (seen 1) @ replicate 4 (out 1) @ [seen 2] \<rparr>)"

theorem top_items_correct_witness:
  "map (\<lambda>r. (tp_id r, tp_title r, tp_imp r, tp_out r)) (select_top 10 viewed_database) = [(1, ''t'', 20, 4), (3, ''t'', 20, 2)] \<and>
   length (select_top 10 viewed_database) \<le> 10"
proof -
  have ids: "distinct (map ir_id (db_items viewed_database))"
    by (simp add: viewed_database_def stocked_database_def empty_database_def sample_row_def Let_def)
  have "map (\<lambda>r. (tp_id r, tp_title r, tp_imp r, tp_out r)) (select_top 10 viewed_database) = [(1, ''t'', 20, 4), (3, ''t'', 20, 2)]"
    by code_simp
  with top_items_correct [OF ids, of 10] show ?thesis by (simp add: Let_def)
qed

text \<open>
  The report of \<open>stats\<close> is what the tables hold: for every type of event there is one
  line exactly when a human caused one since the start of the window, with the number of such
  events and of different visitors; for every status one line with the number of its
  conversions and the whole rubles of their amounts, and the lines together account for every
  conversion of the window. The command changes nothing, and returns when sqlite does not fail.
\<close>

theorem cmd_stats_correct:
  assumes "cmd_stats faults now days d = (r, d')"
  shows "d' = d \<and> (faults = (\<lambda>_. NoFault) \<longrightarrow> (\<exists>rp. r = Inr rp)) \<and>
    (\<forall>rp. r = Inr rp \<longrightarrow>
       (let since = stats_since now days; evs = human_since since (db_events d); convs = conversions_since since d
        in (\<forall>t n u. (t, n, u) \<in> set (rp_funnel rp) \<longleftrightarrow>
              0 < n \<and> n = int (length (filter (\<lambda>e. er_type e = t) evs)) \<and>
              u = int (card {er_anon_id e | e. e \<in> set evs \<and> er_type e = t})) \<and>
           (\<forall>st n rub. (st, n, rub) \<in> set (rp_conversions rp) \<longleftrightarrow>
              0 < n \<and> n = int (length (filter (\<lambda>c. cr_status c = st) convs)) \<and>
              rub = sum_amounts (filter (\<lambda>c. cr_status c = st) convs) sdiv 100) \<and>
           sum_list (map (fst \<circ> snd) (rp_conversions rp)) = int (length convs) \<and>
           map fst (rp_top rp) = map tp_id (select_top since d)))"
proof -
  let ?since = "stats_since now days"
  note cmd_stats_reads [OF assms]
  moreover have "\<exists>rp. r = Inr rp" if "faults = (\<lambda>_. NoFault)"
    using assms that by (auto simp: cmd_stats_def with_conn_def connect_no_fault stats_body_def dbm_simps Let_def)
  moreover have "(st, n, rub) \<in> set (map (\<lambda>(st, n, amt). (st, n, amt sdiv 100)) (select_conversions ?since d)) \<longleftrightarrow>
      (\<exists>amt. (st, n, amt) \<in> set (select_conversions ?since d) \<and> rub = amt sdiv 100)" for st n rub
    by force
  moreover have "map (fst \<circ> snd) (map (\<lambda>(st, n, amt). (st, n, amt sdiv 100)) xs) = map (fst \<circ> snd) xs" for xs :: "(string \<times> int \<times> int) list"
    by auto
  ultimately show ?thesis
    unfolding Let_def by (auto simp: funnel_row conversion_row_of conversions_partition simp del: map_map set_map)
qed

theorem cmd_stats_correct_witness:
  "\<exists>rp. cmd_stats (\<lambda>_. NoFault) 0 7 clicked_database = (Inr rp, clicked_database)"
  using cmd_stats_correct [of "\<lambda>_. NoFault" 0 7 clicked_database "fst (cmd_stats (\<lambda>_. NoFault) 0 7 clicked_database)"
      "snd (cmd_stats (\<lambda>_. NoFault) 0 7 clicked_database)"]
  by (metis prod.collapse)

text \<open>
  The statistics read the raw events, not the daily rollup: once events before \<open>t\<close> are
  pruned, a window that starts earlier shows what a window starting at \<open>t\<close> shows.
\<close>

lemma stats_window_clipped:
  "select_funnel since (snd (prune_stmt t d)) = select_funnel (max since t) d"
  "select_top since (snd (prune_stmt t d)) = select_top (max since t) d"
proof -
  have "human_since since (filter (\<lambda>r. \<not> er_ts r < t) evs) = human_since (max since t) evs" for evs
    unfolding human_since_def filter_filter by (rule filter_cong) auto
  then show "select_funnel since (snd (prune_stmt t d)) = select_funnel (max since t) d"
    "select_top since (snd (prune_stmt t d)) = select_top (max since t) d"
    by (simp_all add: select_funnel_def select_top_def prune_stmt_def)
qed

end
