(* ===== verification/Admin_Cli.thy ===== *)
theory Admin_Cli
  imports Admin_Seed Admin_Stats Migrations Config
begin

text \<open>
  The admin tool: \<open>cmd_migrate\<close> and \<open>main\<close> of \<open>src/admin_cli.cpp\<close>. Option parsing belongs to
  Boost; what the source declares of it is here: which options exist, that \<open>--help\<close> is looked at
  before the required ones are checked, and the defaults. \<open>admin_world\<close> is everything the
  process meets outside the sources. The disk maps a path to the tables of the sqlite file
  there; the exit code, what is printed and the disk afterwards are the result.
\<close>

section \<open>Commands\<close>

definition cmd_migrate ::
  "faults \<Rightarrow> scripts \<Rightarrow> (string \<Rightarrow> string option) \<Rightarrow> dir_entry list option \<Rightarrow> database \<Rightarrow> (sql_error + int) \<times> database" where
  "cmd_migrate faults run_script read_file dir d = with_conn faults d (apply_migrations faults run_script read_file dir)"

section \<open>Options\<close>

text \<open>The variables map after \<open>po::store\<close>; the parser itself throws on an unknown or malformed option.\<close>

record admin_options =
  ao_help :: bool
  ao_config :: "string option"
  ao_command :: "string option"
  ao_count :: "int option"
  ao_days :: "int option"

record admin_call =
  ac_config_path :: string
  ac_command :: string
  ac_count :: int
  ac_days :: int

text \<open>\<open>po::notify\<close>: throws when a required option is missing, keeps the initial values of the others.\<close>

definition notify :: "admin_options \<Rightarrow> admin_call option" where
  "notify vm =
     (case (ao_config vm, ao_command vm) of
        (Some path, Some command) \<Rightarrow>
          Some \<lparr> ac_config_path = path, ac_command = command,
                 ac_count = coalesce (ao_count vm) 60, ac_days = coalesce (ao_days vm) 7 \<rparr>
      | _ \<Rightarrow> None)"

section \<open>main\<close>

record ('n, 'g) admin_world =
  aw_sodium_init :: int
  aw_toml :: "'n toml_lib"
  aw_parse_file :: "string \<Rightarrow> 'n table option"
  aw_faults :: faults
  aw_scripts :: scripts
  aw_migration_files :: "string \<Rightarrow> dir_entry list option"
  aw_read_file :: "string \<Rightarrow> string \<Rightarrow> string option"
  aw_rng :: "'g rng_lib"
  aw_mt19937_42 :: 'g
  aw_now :: ts_ms

datatype admin_output = Usage | UsageError | SchemaVersion int | SeedOutput seed_outcome | Report report
  | UnknownCommand string | Fatal

type_synonym disk = "string \<Rightarrow> database"

definition run_migrate :: "('n, 'g) admin_world \<Rightarrow> config \<Rightarrow> disk \<Rightarrow> (int \<times> admin_output) \<times> disk" where
  "run_migrate w cfg disk =
     (case cmd_migrate (aw_faults w) (aw_scripts w) (aw_read_file w (cfg_migrations_dir cfg))
             (aw_migration_files w (cfg_migrations_dir cfg)) (disk (cfg_db_path cfg)) of
        (r, d) \<Rightarrow> (case r of Inl e \<Rightarrow> (1, Fatal) | Inr v \<Rightarrow> (0, SchemaVersion v), disk(cfg_db_path cfg := d)))"

definition run_seed :: "('n, 'g) admin_world \<Rightarrow> config \<Rightarrow> int \<Rightarrow> disk \<Rightarrow> (int \<times> admin_output) \<times> disk" where
  "run_seed w cfg cnt disk =
     (case cmd_seed (aw_faults w) (aw_rng w) (aw_mt19937_42 w) (aw_now w) cnt (disk (cfg_db_path cfg)) of
        (r, d) \<Rightarrow> (case r of
                     Inl e \<Rightarrow> (1, Fatal)
                   | Inr out \<Rightarrow> (case out of NoDirectPartner \<Rightarrow> 1 | Seeded n \<Rightarrow> 0, SeedOutput out),
                   disk(cfg_db_path cfg := d)))"

definition run_stats :: "('n, 'g) admin_world \<Rightarrow> config \<Rightarrow> int \<Rightarrow> disk \<Rightarrow> (int \<times> admin_output) \<times> disk" where
  "run_stats w cfg days disk =
     (case cmd_stats (aw_faults w) (aw_now w) days (disk (cfg_db_path cfg)) of
        (r, d) \<Rightarrow> (case r of Inl e \<Rightarrow> (1, Fatal) | Inr rp \<Rightarrow> (0, Report rp), disk(cfg_db_path cfg := d)))"

definition run_command :: "('n, 'g) admin_world \<Rightarrow> admin_call \<Rightarrow> disk \<Rightarrow> (int \<times> admin_output) \<times> disk" where
  "run_command w call disk =
     (if aw_sodium_init w < 0 then ((1, Fatal), disk)
      else case load_config (aw_toml w) (aw_parse_file w (ac_config_path call)) of
             Inl e \<Rightarrow> ((1, Fatal), disk)
           | Inr cfg \<Rightarrow>
               if ac_command call = ''migrate'' then run_migrate w cfg disk
               else if ac_command call = ''seed'' then run_seed w cfg (ac_count call) disk
               else if ac_command call = ''stats'' then run_stats w cfg (ac_days call) disk
               else ((2, UnknownCommand (ac_command call)), disk))"

definition admin_main :: "('n, 'g) admin_world \<Rightarrow> admin_options option \<Rightarrow> disk \<Rightarrow> (int \<times> admin_output) \<times> disk" where
  "admin_main w parsed disk =
     (case parsed of
        None \<Rightarrow> ((2, UsageError), disk)
      | Some vm \<Rightarrow>
          if ao_help vm then ((0, Usage), disk)
          else case notify vm of
                 None \<Rightarrow> ((2, UsageError), disk)
               | Some call \<Rightarrow> run_command w call disk)"

section \<open>What a run may change\<close>

text \<open>The seed command leaves its database alone when it does not report success.\<close>

lemma cmd_seed_failed:
  assumes "cmd_seed faults lib g now cnt d = (r, d')" and "\<And>n. r \<noteq> Inr (Seeded n)"
  shows "d' = d"
  using assms(1) [unfolded cmd_seed_def]
proof (cases rule: with_conn_cases)
  case (opened c c')
  from opened(4,2) show ?thesis by (cases rule: seed_body_cases) (use assms(2) opened in auto)
qed simp

text \<open>One command: its exit code, and what became of the disk.\<close>

lemma run_command_cases:
  assumes "run_command w call disk = ((code, out), disk')"
  shows "code \<in> {0, 1, 2} \<and> (code = 2 \<longleftrightarrow> out = UnknownCommand (ac_command call)) \<and> out \<noteq> UsageError \<and>
    (disk' = disk \<or>
     code \<noteq> 2 \<and> (\<exists>cfg k. load_config (aw_toml w) (aw_parse_file w (ac_config_path call)) = Inr cfg \<and>
        (\<forall>p. p \<noteq> cfg_db_path cfg \<longrightarrow> disk' p = disk p) \<and>
        (ac_command call = ''seed'' \<and> code = 0 \<or>
         ac_command call = ''migrate'' \<and> (\<exists>todo. disk' (cfg_db_path cfg) =
            foldl (migrated (aw_scripts w) (aw_read_file w (cfg_migrations_dir cfg))) (disk (cfg_db_path cfg)) (take k todo)))))"
proof (cases "load_config (aw_toml w) (aw_parse_file w (ac_config_path call))")
  case (Inl e)
  with assms show ?thesis by (auto simp: run_command_def split: if_splits)
next
  case (Inr cfg)
  show ?thesis
  proof (cases "aw_sodium_init w < 0")
    case True
    with assms show ?thesis by (simp add: run_command_def)
  next
    case False
    note start = assms [unfolded run_command_def, simplified False Inr if_False sum.case]
    consider "ac_command call = ''migrate''" | "ac_command call = ''seed''" | "ac_command call = ''stats''"
      | "ac_command call \<notin> {''migrate'', ''seed'', ''stats''}" by blast
    then show ?thesis
    proof cases
      case 1
      obtain r d where run: "cmd_migrate (aw_faults w) (aw_scripts w) (aw_read_file w (cfg_migrations_dir cfg))
          (aw_migration_files w (cfg_migrations_dir cfg)) (disk (cfg_db_path cfg)) = (r, d)" by fastforce
      with start 1 have "code \<in> {0, 1}" "out \<noteq> UnknownCommand (ac_command call)" "out \<noteq> UsageError" "disk' = disk(cfg_db_path cfg := d)"
        by (auto simp: run_migrate_def split: sum.splits)
      with migrate_block_prefix [OF run [unfolded cmd_migrate_def]] Inr 1 show ?thesis by (auto simp: fun_upd_def)
    next
      case 2
      obtain r d where run: "cmd_seed (aw_faults w) (aw_rng w) (aw_mt19937_42 w) (aw_now w) (ac_count call) (disk (cfg_db_path cfg)) = (r, d)"
        by fastforce
      with start 2 have out: "code \<in> {0, 1}" "out \<noteq> UnknownCommand (ac_command call)" "out \<noteq> UsageError" "disk' = disk(cfg_db_path cfg := d)"
          "code \<noteq> 0 \<Longrightarrow> \<forall>n. r \<noteq> Inr (Seeded n)"
        by (auto simp: run_seed_def split: sum.splits seed_outcome.splits)
      with cmd_seed_failed [OF run] Inr 2 show ?thesis by (cases "code = 0") (auto simp: fun_upd_def)
    next
      case 3
      obtain r d where run: "cmd_stats (aw_faults w) (aw_now w) (ac_days call) (disk (cfg_db_path cfg)) = (r, d)" by fastforce
      with cmd_stats_reads [OF run] start 3 show ?thesis by (auto simp: run_stats_def split: sum.splits)
    next
      case 4
      with start show ?thesis by auto
    qed
  qed
qed

text \<open>
  \<^bold>\<open>C29.\<close> What the tool may do to the disk. It exits with 0, 1 or 2; 2 exactly when the
  options are wrong or the command is unknown, and then nothing was changed. No database but the
  configured one is ever touched, and that one only by a seed that exits with 0 or by
  \<open>migrate\<close>, which leaves it after a number of whole migrations even when it fails. \<open>--help\<close>
  wins over missing options.
\<close>

theorem admin_main_correct:
  assumes "admin_main w parsed disk = ((code, out), disk')"
  shows "code \<in> {0, 1, 2} \<and> (code = 2 \<longleftrightarrow> out = UsageError \<or> (\<exists>c. out = UnknownCommand c)) \<and>
    (out = UsageError \<longleftrightarrow> (case parsed of None \<Rightarrow> True | Some vm \<Rightarrow> \<not> ao_help vm \<and> notify vm = None)) \<and>
    (disk' = disk \<or>
     (\<exists>vm call cfg k. parsed = Some vm \<and> \<not> ao_help vm \<and> notify vm = Some call \<and> code \<noteq> 2 \<and>
        load_config (aw_toml w) (aw_parse_file w (ac_config_path call)) = Inr cfg \<and>
        (\<forall>p. p \<noteq> cfg_db_path cfg \<longrightarrow> disk' p = disk p) \<and>
        (ac_command call = ''seed'' \<and> code = 0 \<or>
         ac_command call = ''migrate'' \<and> (\<exists>todo. disk' (cfg_db_path cfg) =
            foldl (migrated (aw_scripts w) (aw_read_file w (cfg_migrations_dir cfg))) (disk (cfg_db_path cfg)) (take k todo)))))"
proof (cases "\<exists>vm call. parsed = Some vm \<and> \<not> ao_help vm \<and> notify vm = Some call")
  case True
  then obtain vm call where vm: "parsed = Some vm" "\<not> ao_help vm" "notify vm = Some call" by blast
  with assms have run: "run_command w call disk = ((code, out), disk')" by (simp add: admin_main_def)
  have "code = 2 \<longleftrightarrow> (\<exists>c. out = UnknownCommand c)"
    using run by (auto simp: run_command_def run_migrate_def run_seed_def run_stats_def split: if_splits sum.splits prod.splits seed_outcome.splits)
  with run_command_cases [OF run] vm show ?thesis by auto
next
  case False
  with assms show ?thesis by (auto simp: admin_main_def split: option.splits if_splits)
qed

definition sample_admin :: "(unit, unit) admin_world" where
  "sample_admin = \<lparr> aw_sodium_init = 0, aw_toml = minimal_toml, aw_parse_file = \<lambda>_. Some [''metrics'' \<mapsto> ()],
     aw_faults = \<lambda>_. NoFault, aw_scripts = \<lambda>_ d. (None, d), aw_migration_files = \<lambda>_. Some [], aw_read_file = \<lambda>_ _. None,
     aw_rng = lowest_draws, aw_mt19937_42 = (), aw_now = 0 \<rparr>"

definition publish_options :: admin_options where
  "publish_options = \<lparr> ao_help = False, ao_config = Some ''ssize.toml'', ao_command = Some ''publish'', ao_count = None, ao_days = None \<rparr>"

text \<open>There is no command to publish an item, although the head of the file names one.\<close>

theorem admin_main_correct_witness:
  "admin_main sample_admin (Some publish_options) (\<lambda>_. direct_database) = ((2, UnknownCommand ''publish''), \<lambda>_. direct_database)"
proof -
  obtain code out disk' where run: "admin_main sample_admin (Some publish_options) (\<lambda>_. direct_database) = ((code, out), disk')"
    by (metis prod.collapse)
  have "code = 2" "out = UnknownCommand ''publish''"
    using run minimal_config
    by (auto simp: admin_main_def publish_options_def notify_def run_command_def sample_admin_def)
  with admin_main_correct [OF run] run show ?thesis by auto
qed

end
