(* ===== verification/Sql_Stmt.thy ===== *)
theory Sql_Stmt
  imports Complex_Main Sql_Conn
begin

text \<open>
  The statement wrapper \<open>Stmt\<close> of \<open>src/db.hpp\<close> and \<open>src/db.cpp\<close>, one member function at a time: a
  prepared statement with its parameters and its cursor. What the SQL text does when it is
  executed is the \<open>program\<close> of the statement, a function of the bound values and the tables that
  yields rows and the number \<open>sqlite3_last_insert_rowid\<close> or \<open>sqlite3_changes\<close> reports.

  Reading a column as another type than it has is a conversion inside sqlite; conversions are the
  parameter \<open>sqlite_conv\<close>.
\<close>

section \<open>Values\<close>

datatype sql_value = SqlNull | SqlInt int | SqlReal rat | SqlText string | SqlBlob "byte list"

type_synonym sql_row = "sql_value list"

type_synonym 'd program = "sql_value list \<Rightarrow> 'd \<Rightarrow> sql_error + (sql_row list \<times> int) \<times> 'd"

record sqlite_conv =
  sc_int :: "sql_value \<Rightarrow> int"
  sc_real :: "sql_value \<Rightarrow> rat"
  sc_text :: "sql_value \<Rightarrow> string"

section \<open>Statements\<close>

datatype cursor = Fresh | AtRow sql_row "sql_row list" | Done

record 'd stmt =
  st_program :: "'d program"
  st_params :: "sql_value list"
  st_cursor :: cursor
  st_number :: int

text \<open>\<open>Stmt::Stmt\<close>: preparing may fail; parameters start as NULL.\<close>

definition new_stmt :: "nat \<Rightarrow> 'd program \<Rightarrow> 'd stmt" where
  "new_stmt n prog = \<lparr> st_program = prog, st_params = replicate n SqlNull, st_cursor = Fresh, st_number = 0 \<rparr>"

definition prepare :: "faults \<Rightarrow> nat \<Rightarrow> 'd program \<Rightarrow> ('d, 'd stmt) dbm" where
  "prepare faults n prog = sqlite_call faults (\<lambda>c. (Inr (new_stmt n prog), c))"

text \<open>
  \<open>sqlite3_bind_*\<close> refuses an index that is no parameter and a statement that was stepped and
  not reset.
\<close>

definition bind_value :: "nat \<Rightarrow> sql_value \<Rightarrow> 'd stmt \<Rightarrow> sql_error + 'd stmt" where
  "bind_value idx v st =
     (if st_cursor st \<noteq> Fresh \<or> idx = 0 \<or> length (st_params st) < idx then Inl BindFailed
      else Inr (st\<lparr> st_params := (st_params st)[idx - 1 := v] \<rparr>))"

definition bind_int :: "nat \<Rightarrow> int \<Rightarrow> 'd stmt \<Rightarrow> sql_error + 'd stmt" where
  "bind_int idx v = bind_value idx (SqlInt v)"

definition bind_real :: "nat \<Rightarrow> rat \<Rightarrow> 'd stmt \<Rightarrow> sql_error + 'd stmt" where
  "bind_real idx v = bind_value idx (SqlReal v)"

definition bind_text :: "nat \<Rightarrow> string \<Rightarrow> 'd stmt \<Rightarrow> sql_error + 'd stmt" where
  "bind_text idx v = bind_value idx (SqlText v)"

definition bind_null :: "nat \<Rightarrow> 'd stmt \<Rightarrow> sql_error + 'd stmt" where
  "bind_null idx = bind_value idx SqlNull"

definition bind_blob :: "nat \<Rightarrow> byte list \<Rightarrow> 'd stmt \<Rightarrow> sql_error + 'd stmt" where
  "bind_blob idx v = (if v = [] then bind_null idx else bind_value idx (SqlBlob v))"

definition bind_opt_int :: "nat \<Rightarrow> int option \<Rightarrow> 'd stmt \<Rightarrow> sql_error + 'd stmt" where
  "bind_opt_int idx v = (case v of Some k \<Rightarrow> bind_int idx k | None \<Rightarrow> bind_null idx)"

text \<open>A chain \<open>st.bind(...).bind(...)\<close>.\<close>

fun bind_all :: "('d stmt \<Rightarrow> sql_error + 'd stmt) list \<Rightarrow> 'd stmt \<Rightarrow> sql_error + 'd stmt" where
  "bind_all [] st = Inr st"
| "bind_all (b # bs) st = sum_bind (b st) (bind_all bs)"

text \<open>
  \<open>Stmt::step\<close>: the first step executes the statement, the next ones move on; a step after the
  end starts again, as sqlite does by itself.
\<close>

definition arrive :: "sql_row list \<Rightarrow> 'd stmt \<Rightarrow> bool \<times> 'd stmt" where
  "arrive rows st = (case rows of [] \<Rightarrow> (False, st\<lparr> st_cursor := Done \<rparr>) | r # rest \<Rightarrow> (True, st\<lparr> st_cursor := AtRow r rest \<rparr>))"

definition st_step :: "faults \<Rightarrow> 'd stmt \<Rightarrow> ('d, bool \<times> 'd stmt) dbm" where
  "st_step faults st =
     (case st_cursor st of
        AtRow r rest \<Rightarrow> stmt_step faults (\<lambda>d. Inr (arrive rest st, d))
      | _ \<Rightarrow> stmt_step faults (\<lambda>d. case st_program st (st_params st) d of
                Inl e \<Rightarrow> Inl e
              | Inr ((rows, k), d') \<Rightarrow> Inr (arrive rows (st\<lparr> st_number := k \<rparr>), d')))"

definition st_reset :: "'d stmt \<Rightarrow> 'd stmt" where
  "st_reset st = st\<lparr> st_cursor := Fresh, st_params := map (\<lambda>_. SqlNull) (st_params st) \<rparr>"

text \<open>The columns of the current row.\<close>

definition column :: "sql_row \<Rightarrow> nat \<Rightarrow> sql_value" where
  "column cols i = (if i < length cols then cols ! i else SqlNull)"

definition column_int :: "sqlite_conv \<Rightarrow> sql_row \<Rightarrow> nat \<Rightarrow> int" where
  "column_int conv cols i = (case column cols i of SqlInt k \<Rightarrow> k | SqlNull \<Rightarrow> 0 | v \<Rightarrow> sc_int conv v)"

definition column_real :: "sqlite_conv \<Rightarrow> sql_row \<Rightarrow> nat \<Rightarrow> rat" where
  "column_real conv cols i = (case column cols i of SqlReal q \<Rightarrow> q | SqlNull \<Rightarrow> 0 | v \<Rightarrow> sc_real conv v)"

definition column_text :: "sqlite_conv \<Rightarrow> sql_row \<Rightarrow> nat \<Rightarrow> string" where
  "column_text conv cols i = (case column cols i of SqlText s \<Rightarrow> s | SqlNull \<Rightarrow> [] | v \<Rightarrow> sc_text conv v)"

definition column_is_null :: "sql_row \<Rightarrow> nat \<Rightarrow> bool" where
  "column_is_null cols i \<longleftrightarrow> column cols i = SqlNull"

definition column_opt_int :: "sqlite_conv \<Rightarrow> sql_row \<Rightarrow> nat \<Rightarrow> int option" where
  "column_opt_int conv cols i = (if column_is_null cols i then None else Some (column_int conv cols i))"

text \<open>\<open>while (st.step()) { ... }\<close>: the rows the body sees, in order.\<close>

function collect :: "faults \<Rightarrow> 'd stmt \<Rightarrow> 'd conn \<Rightarrow> (sql_error + sql_row list) \<times> 'd conn" where
  "collect faults st c =
     (case st_step faults st c of
        (Inl e, c') \<Rightarrow> (Inl e, c')
      | (Inr (found, st'), c') \<Rightarrow>
          (case (found, st_cursor st') of
             (True, AtRow r rest) \<Rightarrow>
               (case collect faults st' c' of
                  (Inl e, c'') \<Rightarrow> (Inl e, c'')
                | (Inr rows, c'') \<Rightarrow> (Inr (r # rows), c''))
           | _ \<Rightarrow> (Inr [], c')))"
  by pat_completeness auto

definition rows_left :: "'d stmt \<Rightarrow> nat" where
  "rows_left st = (case st_cursor st of AtRow r rest \<Rightarrow> length rest | _ \<Rightarrow> 0)"

definition at_row :: "'d stmt \<Rightarrow> nat" where
  "at_row st = (case st_cursor st of AtRow r rest \<Rightarrow> 0 | _ \<Rightarrow> 1)"

lemma st_step_moves:
  assumes "st_step faults st c = (Inr (found, st'), c')" and "st_cursor st' = AtRow r rest" and "found"
  shows "at_row st' < at_row st \<or> at_row st' = at_row st \<and> rows_left st' < rows_left st"
proof -
  obtain rows st0 where "arrive rows st0 = (found, st')" and "at_row st = 1 \<or> rows_left st = length rows \<and> at_row st = 0"
    using assms(1)
    by (cases "st_cursor st")
      (auto simp: st_step_def at_row_def rows_left_def dest!: stmt_step_Inr split: sum.splits prod.splits)
  with assms(2,3) show ?thesis by (cases rows) (auto simp: arrive_def at_row_def rows_left_def)
qed

termination collect
proof (relation "measures [\<lambda>(faults, st, c). at_row st, \<lambda>(faults, st, c). rows_left st]")
qed (auto dest: st_step_moves [OF sym sym])

declare collect.simps [simp del]

section \<open>Binding\<close>

lemma bind_value_Inr:
  "st_cursor st = Fresh \<Longrightarrow> 0 < idx \<Longrightarrow> idx \<le> length (st_params st) \<Longrightarrow>
     bind_value idx v st = Inr (st\<lparr> st_params := (st_params st)[idx - 1 := v] \<rparr>)"
  by (simp add: bind_value_def)

lemmas bind_defs = bind_int_def bind_real_def bind_text_def bind_null_def bind_blob_def bind_opt_int_def

section \<open>Running a statement\<close>

definition db_raise :: "sql_error \<Rightarrow> ('d, 'a) dbm" where
  "db_raise e c = (Inl e, c)"

text \<open>\<open>Stmt st(conn, sql); st.bind(...)...;\<close> followed by one step or by the loop over the rows.\<close>

definition bound_stmt :: "faults \<Rightarrow> nat \<Rightarrow> 'd program \<Rightarrow> ('d stmt \<Rightarrow> sql_error + 'd stmt) list \<Rightarrow> ('d, 'd stmt) dbm" where
  "bound_stmt faults n prog binds =
     db_bind (prepare faults n prog) (\<lambda>st. case bind_all binds st of Inl e \<Rightarrow> db_raise e | Inr st' \<Rightarrow> db_return st')"

definition run_stmt ::
  "faults \<Rightarrow> nat \<Rightarrow> 'd program \<Rightarrow> ('d stmt \<Rightarrow> sql_error + 'd stmt) list \<Rightarrow> ('d, bool \<times> 'd stmt) dbm" where
  "run_stmt faults n prog binds = db_bind (bound_stmt faults n prog binds) (st_step faults)"

definition query_rows ::
  "faults \<Rightarrow> nat \<Rightarrow> 'd program \<Rightarrow> ('d stmt \<Rightarrow> sql_error + 'd stmt) list \<Rightarrow> ('d, sql_row list) dbm" where
  "query_rows faults n prog binds = db_bind (bound_stmt faults n prog binds) (collect faults)"

end
