(* ===== verification/Sql_Refine.thy ===== *)
theory Sql_Refine
  imports Sql_Stmt
begin

text \<open>
  When a sequence of calls of the statement wrapper implements an operation that counts as one
  call in \<open>Sql_Conn\<close>: for every run of the calls there are faults with which the operation gives the
  same result and the same tables, and a run without faults gives the result of the operation
  without faults. Properties of an operation that hold for all faults then hold
  for the sequence of calls.
\<close>

section \<open>Implementing an operation by several calls\<close>

definition same_tables :: "'d conn \<Rightarrow> 'd conn \<Rightarrow> bool" where
  "same_tables c c0 \<longleftrightarrow> cn_db c = cn_db c0 \<and> cn_saved c = cn_saved c0 \<and> cn_foreign_keys c = cn_foreign_keys c0"

definition calm :: "faults \<Rightarrow> bool" where
  "calm faults \<longleftrightarrow> (\<forall>n. faults n = NoFault)"

definition implements :: "faults \<Rightarrow> ('d, 'a) dbm \<Rightarrow> (faults \<Rightarrow> ('d, 'a) dbm) \<Rightarrow> bool" where
  "implements faults m spec \<longleftrightarrow>
     (\<forall>c r c' c0. m c = (r, c') \<longrightarrow> same_tables c c0 \<longrightarrow>
        (\<exists>f c0'. spec f c0 = (r, c0') \<and> same_tables c' c0' \<and> (calm faults \<longrightarrow> calm f)))"

text \<open>An operation asks for the faults of its own calls only, so faults of consecutive operations can be joined.\<close>

definition call_local :: "(faults \<Rightarrow> ('d, 'a) dbm) \<Rightarrow> bool" where
  "call_local spec \<longleftrightarrow>
     (\<forall>f g c r c'. spec f c = (r, c') \<longrightarrow> cn_calls c \<le> cn_calls c' \<and>
        ((\<forall>n. cn_calls c \<le> n \<longrightarrow> n < cn_calls c' \<longrightarrow> f n = g n) \<longrightarrow> spec g c = (r, c')))"

definition refines :: "faults \<Rightarrow> ('d, 'a) dbm \<Rightarrow> (faults \<Rightarrow> ('d, 'a) dbm) \<Rightarrow> bool" where
  "refines faults m spec \<longleftrightarrow> implements faults m spec \<and> call_local spec"

lemma refinesI: "implements faults m spec \<Longrightarrow> call_local spec \<Longrightarrow> refines faults m spec"
  by (simp add: refines_def)

lemma refinesD: "refines faults m spec \<Longrightarrow> m c = (r, c') \<Longrightarrow> 
     \<exists>f c0'. spec f c = (r, c0') \<and> same_tables c' c0' \<and> (calm faults \<longrightarrow> calm f)"
  by (auto simp: refines_def implements_def same_tables_def)

lemma call_local_mono: "call_local spec \<Longrightarrow> spec f c = (r, c') \<Longrightarrow> cn_calls c \<le> cn_calls c'"
  unfolding call_local_def by blast

lemma call_local_change:
  assumes "call_local spec" and "spec f c = (r, c')" and "\<And>n. cn_calls c \<le> n \<Longrightarrow> n < cn_calls c' \<Longrightarrow> f n = g n"
  shows "spec g c = (r, c')"
  using assms(1) [unfolded call_local_def, rule_format, OF assms(2)] assms(3) by blast

lemma call_local_return: "call_local (\<lambda>f. db_return a)"
  by (simp add: call_local_def db_return_def)

text \<open>A single call: the effect may not touch the counter.\<close>

lemma call_local_call:
  assumes "\<And>c r c'. g c = (r, c') \<Longrightarrow> cn_calls c' = cn_calls c"
  shows "call_local (\<lambda>f. sqlite_call f g)"
  unfolding call_local_def
proof (intro allI impI)
  fix f f' c r c'
  assume run: "sqlite_call f g c = (r, c')"
  have calls: "cn_calls c' = Suc (cn_calls c)"
    using run by (auto simp: sqlite_call_def Let_def roll_back_def split: fault.splits option.splits dest: assms)
  then show "cn_calls c \<le> cn_calls c' \<and>
      ((\<forall>n. cn_calls c \<le> n \<longrightarrow> n < cn_calls c' \<longrightarrow> f n = f' n) \<longrightarrow> sqlite_call f' g c = (r, c'))"
    using run by (auto simp: sqlite_call_def)
qed

lemma call_local_step: "call_local (\<lambda>f. stmt_step f h)"
  unfolding stmt_step_def by (rule call_local_call) (auto split: sum.splits prod.splits)

lemma call_local_exec: "call_local exec_begin" "call_local exec_commit" "call_local exec_rollback"
  unfolding exec_begin_def exec_commit_def exec_rollback_def
  by (rule call_local_call; auto simp: roll_back_def split: if_splits option.splits)+

lemma call_local_bind:
  assumes "call_local a" and "\<And>x. call_local (b x)"
  shows "call_local (\<lambda>f. db_bind (a f) (\<lambda>x. b x f))"
  unfolding call_local_def
proof (intro allI impI)
  fix f g c r c'
  assume run: "db_bind (a f) (\<lambda>x. b x f) c = (r, c')"
  obtain r1 c1 where one: "a f c = (r1, c1)" by fastforce
  note le1 = call_local_mono [OF assms(1) one]
  show "cn_calls c \<le> cn_calls c' \<and>
      ((\<forall>n. cn_calls c \<le> n \<longrightarrow> n < cn_calls c' \<longrightarrow> f n = g n) \<longrightarrow> db_bind (a g) (\<lambda>x. b x g) c = (r, c'))"
  proof (cases r1)
    case (Inl e)
    with run one have "r = Inl e" "c' = c1" by (simp_all add: db_bind_def)
    with le1 call_local_change [OF assms(1) one] Inl show ?thesis by (auto simp: db_bind_def)
  next
    case (Inr x)
    with run one have two: "b x f c1 = (r, c')" by (simp add: db_bind_def)
    note le2 = call_local_mono [OF assms(2) two]
    show ?thesis
    proof (intro conjI impI)
      show "cn_calls c \<le> cn_calls c'" using le1 le2 by simp
      assume same: "\<forall>n. cn_calls c \<le> n \<longrightarrow> n < cn_calls c' \<longrightarrow> f n = g n"
      have "a g c = (r1, c1)" using call_local_change [OF assms(1) one] same le2 by simp
      moreover have "b x g c1 = (r, c')" using call_local_change [OF assms(2) two] same le1 by simp
      ultimately show "db_bind (a g) (\<lambda>x. b x g) c = (r, c')" by (simp add: db_bind_def Inr)
    qed
  qed
qed

lemma call_local_rethrow:
  assumes "call_local a" and "call_local h"
  shows "call_local (\<lambda>f. db_rethrow_after (a f) (h f))"
  unfolding call_local_def
proof (intro allI impI)
  fix f g c r c'
  assume run: "db_rethrow_after (a f) (h f) c = (r, c')"
  obtain r1 c1 where one: "a f c = (r1, c1)" by fastforce
  note le1 = call_local_mono [OF assms(1) one]
  obtain r2 c2 where two: "h f c1 = (r2, c2)" by fastforce
  note le2 = call_local_mono [OF assms(2) two]
  show "cn_calls c \<le> cn_calls c' \<and>
      ((\<forall>n. cn_calls c \<le> n \<longrightarrow> n < cn_calls c' \<longrightarrow> f n = g n) \<longrightarrow> db_rethrow_after (a g) (h g) c = (r, c'))"
  proof (cases r1)
    case (Inr x)
    with run one have "r = Inr x" "c' = c1" by (simp_all add: db_rethrow_after_def)
    with le1 call_local_change [OF assms(1) one] Inr show ?thesis by (auto simp: db_rethrow_after_def)
  next
    case (Inl e)
    with run one two have c': "c' = c2" by (simp add: db_rethrow_after_def split: sum.splits)
    show ?thesis
    proof (intro conjI impI)
      show "cn_calls c \<le> cn_calls c'" using le1 le2 c' by simp
      assume same: "\<forall>n. cn_calls c \<le> n \<longrightarrow> n < cn_calls c' \<longrightarrow> f n = g n"
      have "a g c = (r1, c1)" using call_local_change [OF assms(1) one] same le2 c' by simp
      moreover have "h g c1 = (r2, c2)" using call_local_change [OF assms(2) two] same le1 c' by simp
      ultimately show "db_rethrow_after (a g) (h g) c = (r, c')" using run one two Inl by (simp add: db_rethrow_after_def)
    qed
  qed
qed

section \<open>Refinement rules\<close>

lemma refines_return: "refines faults (db_return a) (\<lambda>f. db_return a)"
  by (auto simp: refines_def call_local_return implements_def db_return_def)

text \<open>
  The result of the first part may say more than the operation returns (a statement with its
  cursor, where the operation returns nothing); only results that occur need a continuation.
\<close>

lemma refines_bind_via:
  assumes a: "refines faults (db_bind m (\<lambda>x. db_return (g x))) a"
    and b: "\<And>x c c'. m c = (Inr x, c') \<Longrightarrow> refines faults (k x) (b (g x))" and local: "\<And>y. call_local (b y)"
  shows "refines faults (db_bind m k) (\<lambda>f. db_bind (a f) (\<lambda>y. b y f))"
proof (rule refinesI)
  show "call_local (\<lambda>f. db_bind (a f) (\<lambda>y. b y f))"
    using a local by (intro call_local_bind) (simp_all add: refines_def)
  show "implements faults (db_bind m k) (\<lambda>f. db_bind (a f) (\<lambda>y. b y f))"
    unfolding implements_def
  proof (intro allI impI)
    fix c r c' c0
    assume run: "db_bind m k c = (r, c')" and same: "same_tables c c0"
    obtain r1 c1 where one: "m c = (r1, c1)" by fastforce
    then have "db_bind m (\<lambda>x. db_return (g x)) c = (map_sum id g r1, c1)"
      by (simp add: db_bind_def db_return_def split: sum.split)
    with same a obtain f1 c01 where f1: "a f1 c0 = (map_sum id g r1, c01)" "same_tables c1 c01" "calm faults \<longrightarrow> calm f1"
      unfolding refines_def implements_def by blast
    show "\<exists>f c0'. db_bind (a f) (\<lambda>y. b y f) c0 = (r, c0') \<and> same_tables c' c0' \<and> (calm faults \<longrightarrow> calm f)"
    proof (cases r1)
      case (Inl e)
      with run one f1 show ?thesis by (intro exI [of _ f1] exI [of _ c01]) (simp add: db_bind_def)
    next
      case (Inr x)
      with run one have two: "k x c1 = (r, c')" by (simp add: db_bind_def)
      with f1(2) b [of c x c1] one Inr obtain f2 c02 where f2: "b (g x) f2 c01 = (r, c02)" "same_tables c' c02" "calm faults \<longrightarrow> calm f2"
        unfolding refines_def implements_def by blast
      let ?f = "\<lambda>n. if n < cn_calls c01 then f1 n else f2 n"
      have "a ?f c0 = (map_sum id g r1, c01)"
        by (rule call_local_change [of a f1, OF _ f1(1)]) (use a in \<open>simp_all add: refines_def\<close>)
      moreover have "b (g x) ?f c01 = (r, c02)"
        by (rule call_local_change [of "b (g x)" f2, OF local f2(1)]) simp
      ultimately show ?thesis
        using f1(3) f2(2,3) by (intro exI [of _ ?f] exI [of _ c02]) (simp add: db_bind_def Inr calm_def)
    qed
  qed
qed

lemma db_bind_right_unit: "db_bind m (\<lambda>x. db_return x) = m"
  by (rule ext) (auto simp: db_bind_def db_return_def split: sum.split prod.split)

lemma refines_bind:
  assumes "refines faults m a" and "\<And>x. refines faults (k x) (b x)"
  shows "refines faults (db_bind m k) (\<lambda>f. db_bind (a f) (\<lambda>x. b x f))"
  by (rule refines_bind_via [where g = "\<lambda>x. x"]) (use assms in \<open>simp_all add: db_bind_right_unit refines_def\<close>)

lemma refines_rethrow:
  assumes "refines faults m a" and "refines faults h b"
  shows "refines faults (db_rethrow_after m h) (\<lambda>f. db_rethrow_after (a f) (b f))"
proof (rule refinesI)
  show "call_local (\<lambda>f. db_rethrow_after (a f) (b f))"
    using assms by (intro call_local_rethrow) (simp_all add: refines_def)
  show "implements faults (db_rethrow_after m h) (\<lambda>f. db_rethrow_after (a f) (b f))"
    unfolding implements_def
  proof (intro allI impI)
    fix c r c' c0
    assume run: "db_rethrow_after m h c = (r, c')" and same: "same_tables c c0"
    obtain r1 c1 where one: "m c = (r1, c1)" by fastforce
    with same assms(1) obtain f1 c01 where f1: "a f1 c0 = (r1, c01)" "same_tables c1 c01" "calm faults \<longrightarrow> calm f1"
      unfolding refines_def implements_def by blast
    show "\<exists>f c0'. db_rethrow_after (a f) (b f) c0 = (r, c0') \<and> same_tables c' c0' \<and> (calm faults \<longrightarrow> calm f)"
    proof (cases r1)
      case (Inr x)
      with run one have "r = Inr x" "c' = c1" by (simp_all add: db_rethrow_after_def)
      with f1 Inr show ?thesis by (intro exI [of _ f1] exI [of _ c01]) (simp add: db_rethrow_after_def)
    next
      case (Inl e)
      obtain r2 c2 where two: "h c1 = (r2, c2)" by fastforce
      with f1(2) assms(2) obtain f2 c02 where f2: "b f2 c01 = (r2, c02)" "same_tables c2 c02" "calm faults \<longrightarrow> calm f2"
        unfolding refines_def implements_def by blast
      let ?f = "\<lambda>n. if n < cn_calls c01 then f1 n else f2 n"
      have "a ?f c0 = (r1, c01)"
        by (rule call_local_change [of a f1, OF _ f1(1)]) (use assms(1) in \<open>simp_all add: refines_def\<close>)
      moreover have "b ?f c01 = (r2, c02)"
        by (rule call_local_change [of b f2, OF _ f2(1)]) (use assms(2) in \<open>simp_all add: refines_def\<close>)
      moreover have "c' = c2" "r = (case r2 of Inl e' \<Rightarrow> Inl e' | Inr u \<Rightarrow> Inl e)"
        using run one two Inl by (auto simp: db_rethrow_after_def split: sum.splits)
      ultimately show ?thesis
        using f1(3) f2(2,3) Inl
        by (intro exI [of _ ?f] exI [of _ c02]) (auto simp: db_rethrow_after_def calm_def split: sum.splits)
    qed
  qed
qed

text \<open>A single call is implemented by itself, whatever its number.\<close>

lemma refines_step: "refines faults (stmt_step faults h) (\<lambda>f. stmt_step f h)"
proof (rule refinesI [OF _ call_local_step], unfold implements_def, intro allI impI)
  fix c :: "'a conn" and r c' c0
  assume "stmt_step faults h c = (r, c')" and "same_tables c c0"
  then show "\<exists>f c0'. stmt_step f h c0 = (r, c0') \<and> same_tables c' c0' \<and> (calm faults \<longrightarrow> calm f)"
    by (intro exI [of _ "\<lambda>_. faults (cn_calls c)"])
      (auto simp: dbm_simps same_tables_def calm_def Let_def split: fault.splits sum.splits option.splits)
qed

lemma call_local_pragma: "(\<And>fk. call_local (spec fk)) \<Longrightarrow> call_local (\<lambda>f. with_pragma (\<lambda>fk. spec fk f))"
  unfolding call_local_def with_pragma_def by blast

lemma refines_pragma:
  assumes "\<And>fk. refines faults (m fk) (spec fk)"
  shows "refines faults (with_pragma m) (\<lambda>f. with_pragma (\<lambda>fk. spec fk f))"
proof (rule refinesI [OF _ call_local_pragma], unfold implements_def, intro allI impI)
  fix c r c' c0
  assume run: "with_pragma m c = (r, c')" and same: "same_tables c c0"
  from same have "cn_foreign_keys c0 = cn_foreign_keys c" by (simp add: same_tables_def)
  with run same assms [of "cn_foreign_keys c"]
  show "\<exists>f c0'. with_pragma (\<lambda>fk. spec fk f) c0 = (r, c0') \<and> same_tables c' c0' \<and> (calm faults \<longrightarrow> calm f)"
    by (simp add: with_pragma_def refines_def implements_def)
qed (use assms in \<open>simp add: refines_def\<close>)

lemma refines_read: "refines faults (stmt_read faults h) (\<lambda>f. stmt_read f h)"
  unfolding stmt_read_def by (rule refines_step)

lemma refines_exec:
  "refines faults (exec_begin faults) (exec_begin :: faults \<Rightarrow> ('d, unit) dbm)"
  "refines faults (exec_commit faults) (exec_commit :: faults \<Rightarrow> ('d, unit) dbm)"
  "refines faults (exec_rollback faults) (exec_rollback :: faults \<Rightarrow> ('d, unit) dbm)"
proof -
  have "\<exists>f c0'. exec_begin f c0 = (r, c0') \<and> same_tables c' c0' \<and> (calm faults \<longrightarrow> calm f)"
    if "exec_begin faults c = (r, c')" "same_tables c c0" for c c' c0 :: "'d conn" and r
    using that by (intro exI [of _ "\<lambda>_. faults (cn_calls c)"])
      (auto simp: dbm_simps same_tables_def calm_def Let_def split: fault.splits option.splits if_splits)
  moreover have "\<exists>f c0'. exec_commit f c0 = (r, c0') \<and> same_tables c' c0' \<and> (calm faults \<longrightarrow> calm f)"
    if "exec_commit faults c = (r, c')" "same_tables c c0" for c c' c0 :: "'d conn" and r
    using that by (intro exI [of _ "\<lambda>_. faults (cn_calls c)"])
      (auto simp: dbm_simps same_tables_def calm_def Let_def split: fault.splits option.splits if_splits)
  moreover have "\<exists>f c0'. exec_rollback f c0 = (r, c0') \<and> same_tables c' c0' \<and> (calm faults \<longrightarrow> calm f)"
    if "exec_rollback faults c = (r, c')" "same_tables c c0" for c c' c0 :: "'d conn" and r
    using that by (intro exI [of _ "\<lambda>_. faults (cn_calls c)"])
      (auto simp: dbm_simps same_tables_def calm_def Let_def split: fault.splits option.splits if_splits)
  ultimately show "refines faults (exec_begin faults) (exec_begin :: faults \<Rightarrow> ('d, unit) dbm)"
    "refines faults (exec_commit faults) (exec_commit :: faults \<Rightarrow> ('d, unit) dbm)"
    "refines faults (exec_rollback faults) (exec_rollback :: faults \<Rightarrow> ('d, unit) dbm)"
    by (simp_all add: refines_def implements_def call_local_exec)
qed

lemma refines_transaction:
  assumes "refines faults body spec"
  shows "refines faults (in_transaction faults body) (\<lambda>f. in_transaction f (spec f))"
  unfolding in_transaction_def
  by (intro refines_bind refines_rethrow refines_exec refines_return assms)

section \<open>Statements\<close>

lemma db_bind_assoc: "db_bind (db_bind m f) g = db_bind m (\<lambda>x. db_bind (f x) g)"
  by (rule ext) (auto simp: db_bind_def split: sum.splits prod.splits)

lemma step_then_return:
  "db_bind (stmt_step faults h) (\<lambda>x. db_return (g x)) =
     stmt_step faults (\<lambda>d. case h d of Inl e \<Rightarrow> Inl e | Inr (a, d') \<Rightarrow> Inr (g a, d'))"
  by (rule ext) (auto simp: dbm_simps Let_def split: fault.splits sum.splits prod.splits)

text \<open>The connection after a failed call, up to the counter.\<close>

definition failed :: "fault \<Rightarrow> 'd conn \<Rightarrow> 'd conn" where
  "failed k c = (if k = FailsRollingBack then roll_back c else c)"

definition fails_first :: "(faults \<Rightarrow> ('d, 'a) dbm) \<Rightarrow> bool" where
  "fails_first spec \<longleftrightarrow>
     (\<forall>k c c0. k \<noteq> NoFault \<longrightarrow> same_tables c c0 \<longrightarrow>
        (\<exists>f c0'. spec f c0 = (Inl IoError, c0') \<and> same_tables (failed k c) c0'))"

lemma fails_first_step: "fails_first (\<lambda>f. stmt_step f h)"
  unfolding fails_first_def
proof (intro allI impI)
  fix k and c c0 :: "'a conn"
  assume "k \<noteq> NoFault" and "same_tables c c0"
  then show "\<exists>f c0'. stmt_step f h c0 = (Inl IoError, c0') \<and> same_tables (failed k c) c0'"
    by (intro exI [of _ "\<lambda>_. k"])
      (auto simp: dbm_simps same_tables_def failed_def Let_def split: fault.splits option.splits)
qed

lemma fails_first_bind: "fails_first a \<Longrightarrow> fails_first (\<lambda>f. db_bind (a f) (b f))"
proof -
  have "a f c0 = (Inl e, c0') \<Longrightarrow> db_bind (a f) (b f) c0 = (Inl e, c0')" for f c0 c0' e by (simp add: db_bind_def)
  then show "fails_first a \<Longrightarrow> fails_first (\<lambda>f. db_bind (a f) (b f))" unfolding fails_first_def by blast
qed

lemma fails_first_read: "fails_first (\<lambda>f. stmt_read f h)"
  unfolding stmt_read_def by (rule fails_first_step)

lemmas fails_first_intros = fails_first_step fails_first_read fails_first_bind

lemma prepare_cases:
  assumes "prepare faults n prog c = (r, c')"
  obtains (prepared) "r = Inr (new_stmt n prog)" "same_tables c c'"
    | (refused) k where "r = Inl IoError" "k \<noteq> NoFault" "same_tables (failed k c) c'" "\<not> calm faults"
proof (cases "faults (cn_calls c)")
  case NoFault
  with assms show thesis by (intro prepared) (auto simp: prepare_def sqlite_call_def same_tables_def Let_def)
next
  case Fails
  with assms show thesis
    by (intro refused [of Fails]) (auto simp: prepare_def sqlite_call_def same_tables_def failed_def calm_def Let_def intro: exI [of _ "cn_calls c"])
next
  case FailsRollingBack
  with assms show thesis
    by (intro refused [of FailsRollingBack])
      (auto simp: prepare_def sqlite_call_def same_tables_def failed_def calm_def roll_back_def Let_def intro: exI [of _ "cn_calls c"] split: option.splits)
qed

lemma same_tables_sym: "same_tables c c' \<Longrightarrow> same_tables c' c"
  by (simp add: same_tables_def)

lemma same_tables_trans: "same_tables c c' \<Longrightarrow> same_tables c' c'' \<Longrightarrow> same_tables c c''"
  by (simp add: same_tables_def)

lemma same_tables_failed: "same_tables c c' \<Longrightarrow> same_tables (failed k c) (failed k c')"
  by (auto simp: same_tables_def failed_def roll_back_def split: option.splits)

lemma bound_then:
  assumes "bind_all binds (new_stmt n prog) = Inr st" and "db_bind (bound_stmt faults n prog binds) k c = (Inr x, c')"
  obtains c1 where "k st c1 = (Inr x, c')"
proof -
  obtain r1 c1 where one: "prepare faults n prog c = (r1, c1)" by fastforce
  then show thesis
  proof (cases rule: prepare_cases)
    case prepared
    with assms one show thesis by (intro that [of c1]) (simp add: bound_stmt_def db_bind_def db_return_def)
  next
    case (refused kind)
    with assms one show thesis by (simp add: bound_stmt_def db_bind_def)
  qed
qed

lemma refines_bound:
  assumes "bind_all binds (new_stmt n prog) = Inr st" and "refines faults (k st) spec" and "fails_first spec"
  shows "refines faults (db_bind (bound_stmt faults n prog binds) k) spec"
proof (rule refinesI)
  show "call_local spec" using assms(2) by (simp add: refines_def)
  show "implements faults (db_bind (bound_stmt faults n prog binds) k) spec"
    unfolding implements_def
  proof (intro allI impI)
    fix c r c' c0
    assume run: "db_bind (bound_stmt faults n prog binds) k c = (r, c')" and same: "same_tables c c0"
    obtain r1 c1 where one: "prepare faults n prog c = (r1, c1)" by fastforce
    from one show "\<exists>f c0'. spec f c0 = (r, c0') \<and> same_tables c' c0' \<and> (calm faults \<longrightarrow> calm f)"
    proof (cases rule: prepare_cases)
      case prepared
      with run one assms(1) have "k st c1 = (r, c')" by (simp add: bound_stmt_def db_bind_def db_return_def)
      with same_tables_trans [OF same_tables_sym [OF prepared(2)] same] assms(2) show ?thesis
        unfolding refines_def implements_def by blast
    next
      case (refused kind)
      with run one have "r = Inl IoError" "c' = c1" by (simp_all add: bound_stmt_def db_bind_def)
      moreover from assms(3) same refused(2) obtain f c0' where
        "spec f c0 = (Inl IoError, c0')" "same_tables (failed kind c) c0'" unfolding fails_first_def by blast
      moreover have "same_tables c1 c0'"
        using same_tables_trans [OF same_tables_sym [OF refused(3)]] calculation(4) by blast
      ultimately show ?thesis using refused(4) by blast
    qed
  qed
qed

text \<open>One step of a freshly bound statement.\<close>

lemma refines_run:
  assumes "bind_all binds (new_stmt n prog) = Inr st" and "st_cursor st = Fresh" and "st_program st = prog"
    and "\<And>d. h d = (case prog (st_params st) d of
        Inl e \<Rightarrow> Inl e | Inr ((rows, k), d') \<Rightarrow> Inr (g (arrive rows (st\<lparr> st_number := k \<rparr>)), d'))"
  shows "refines faults (db_bind (run_stmt faults n prog binds) (\<lambda>x. db_return (g x))) (\<lambda>f. stmt_step f h)"
proof -
  have "db_bind (st_step faults st) (\<lambda>x. db_return (g x)) = stmt_step faults h"
    unfolding st_step_def assms(2,3) cursor.case step_then_return
    by (rule arg_cong [where f = "stmt_step faults"], rule ext) (simp add: assms(4) split: sum.split prod.split)
  then have "refines faults (db_bind (st_step faults st) (\<lambda>x. db_return (g x))) (\<lambda>f. stmt_step f h)" by (simp add: refines_step)
  from refines_bound [where k = "\<lambda>st. db_bind (st_step faults st) (\<lambda>x. db_return (g x))", OF assms(1) this fails_first_step]
  show ?thesis by (simp add: run_stmt_def db_bind_assoc)
qed

text \<open>The loop over the rows of a query: all of them, or the failure of one of the steps.\<close>

definition seen :: "faults \<Rightarrow> 'a \<Rightarrow> 'd conn \<Rightarrow> (sql_error + 'a) \<Rightarrow> 'd conn \<Rightarrow> bool" where
  "seen faults x c r c' \<longleftrightarrow>
     r = Inr x \<and> same_tables c c' \<or> (\<exists>k. k \<noteq> NoFault \<and> \<not> calm faults \<and> r = Inl IoError \<and> same_tables (failed k c) c')"

lemma seen_after:
  assumes "same_tables c c1" and "seen faults x c1 r c'"
  shows "seen faults (f x) c (case r of Inl e \<Rightarrow> Inl e | Inr y \<Rightarrow> Inr (f y)) c'"
  using assms(2) same_tables_trans [OF assms(1)] same_tables_trans [OF same_tables_failed [OF assms(1)]]
  unfolding seen_def by auto

lemma read_call_cases:
  assumes "stmt_step faults (\<lambda>d. Inr (x d, d)) c = (r, c')"
  shows "seen faults (x (cn_db c)) c r c'"
proof (cases "faults (cn_calls c)")
  case NoFault
  with assms show ?thesis by (auto simp: seen_def dbm_simps same_tables_def Let_def)
next
  case Fails
  with assms show ?thesis unfolding seen_def
    by (intro disjI2 exI [of _ Fails]) (auto simp: dbm_simps same_tables_def failed_def calm_def Let_def intro: exI [of _ "cn_calls c"])
next
  case FailsRollingBack
  with assms show ?thesis unfolding seen_def
    by (intro disjI2 exI [of _ FailsRollingBack])
      (auto simp: dbm_simps same_tables_def failed_def calm_def Let_def intro: exI [of _ "cn_calls c"] split: option.splits)
qed

lemma collect_rest:
  assumes "st_cursor st = AtRow r rest" and "collect faults st c = (res, c')"
  shows "seen faults rest c res c'"
  using assms
proof (induction rest arbitrary: st r c res c')
  case Nil
  then have "st_step faults st = stmt_step faults (\<lambda>d. Inr (arrive [] st, d))" by (simp add: st_step_def)
  moreover obtain r1 c1 where one: "stmt_step faults (\<lambda>d. Inr (arrive [] st, d)) c = (r1, c1)" by fastforce
  ultimately show ?case
    using read_call_cases [OF one] Nil(2) by (auto simp: collect.simps [of faults st] arrive_def seen_def)
next
  case (Cons r' rest)
  let ?st = "st\<lparr> st_cursor := AtRow r' rest \<rparr>"
  have step: "st_step faults st = stmt_step faults (\<lambda>d. Inr ((True, ?st), d))"
    using Cons.prems(1) by (simp add: st_step_def arrive_def)
  obtain r1 c1 where one: "stmt_step faults (\<lambda>d. Inr ((True, ?st), d)) c = (r1, c1)" by fastforce
  show ?case
  proof (cases r1)
    case (Inl e)
    with read_call_cases [OF one] Cons.prems(2) one show ?thesis by (auto simp: collect.simps [of faults st] step seen_def)
  next
    case (Inr y)
    with read_call_cases [OF one] have y: "y = (True, ?st)" "same_tables c c1" by (auto simp: seen_def)
    obtain r2 c2 where two: "collect faults ?st c1 = (r2, c2)" by fastforce
    have "res = (case r2 of Inl e \<Rightarrow> Inl e | Inr rows \<Rightarrow> Inr (r' # rows))" "c' = c2"
      using Cons.prems(2) one Inr y two by (auto simp: collect.simps [of faults st] step split: sum.splits)
    moreover have "seen faults rest c1 r2 c2" by (rule Cons.IH [OF _ two]) simp
    ultimately show ?thesis using seen_after [OF y(2), where f = "Cons r'"] by simp
  qed
qed

lemma collect_all:
  assumes "st_cursor st = Fresh" and prog: "\<And>d. st_program st (st_params st) d = Inr ((rows d, k d), d)"
    and "collect faults st c = (res, c')"
  shows "seen faults (rows (cn_db c)) c res c'"
proof -
  let ?x = "\<lambda>d. arrive (rows d) (st\<lparr> st_number := k d \<rparr>)"
  have step: "st_step faults st = stmt_step faults (\<lambda>d. Inr (?x d, d))"
    using assms(1) by (simp add: st_step_def prog)
  obtain r1 c1 where one: "stmt_step faults (\<lambda>d. Inr (?x d, d)) c = (r1, c1)" by fastforce
  show ?thesis
  proof (cases r1)
    case (Inl e)
    with read_call_cases [OF one] assms(3) one show ?thesis by (auto simp: collect.simps [of faults st] step seen_def)
  next
    case (Inr y)
    with read_call_cases [OF one] have y: "y = ?x (cn_db c)" "same_tables c c1" by (auto simp: seen_def)
    show ?thesis
    proof (cases "rows (cn_db c)")
      case Nil
      with assms(3) one Inr y show ?thesis by (auto simp: collect.simps [of faults st] step arrive_def seen_def)
    next
      case (Cons r rest)
      let ?st = "st\<lparr> st_number := k (cn_db c), st_cursor := AtRow r rest \<rparr>"
      obtain r2 c2 where two: "collect faults ?st c1 = (r2, c2)" by fastforce
      have "res = (case r2 of Inl e \<Rightarrow> Inl e | Inr rows \<Rightarrow> Inr (r # rows))" "c' = c2"
        using assms(3) one Inr y two Cons by (auto simp: collect.simps [of faults st] step arrive_def split: sum.splits)
      moreover have "seen faults rest c1 r2 c2" by (rule collect_rest [OF _ two]) simp
      ultimately show ?thesis unfolding Cons using seen_after [OF y(2), where f = "Cons r"] by simp
    qed
  qed
qed

lemma refines_query:
  assumes "bind_all binds (new_stmt n prog) = Inr st" and "st_cursor st = Fresh" and "st_program st = prog"
    and rows: "\<And>d. prog (st_params st) d = Inr ((rows d, k d), d)"
  shows "refines faults (db_bind (query_rows faults n prog binds) (\<lambda>rs. db_return (g rs))) (\<lambda>f. stmt_read f (\<lambda>d. g (rows d)))"
proof -
  have "refines faults (db_bind (collect faults st) (\<lambda>rs. db_return (g rs))) (\<lambda>f. stmt_read f (\<lambda>d. g (rows d)))"
  proof (rule refinesI)
    show "call_local (\<lambda>f. stmt_read f (\<lambda>d. g (rows d)))" unfolding stmt_read_def by (rule call_local_step)
    show "implements faults (db_bind (collect faults st) (\<lambda>rs. db_return (g rs))) (\<lambda>f. stmt_read f (\<lambda>d. g (rows d)))"
      unfolding implements_def
    proof (intro allI impI)
      fix c r c' c0
      assume run: "db_bind (collect faults st) (\<lambda>rs. db_return (g rs)) c = (r, c')" and same: "same_tables c c0"
      obtain r1 c1 where one: "collect faults st c = (r1, c1)" by fastforce
      note cases = collect_all [where rows = rows and k = k, OF assms(2) _ one]
      have "seen faults (rows (cn_db c)) c r1 c1" by (rule cases) (simp add: assms(3) rows)
      then show "\<exists>f c0'. stmt_read f (\<lambda>d. g (rows d)) c0 = (r, c0') \<and> same_tables c' c0' \<and> (calm faults \<longrightarrow> calm f)"
        unfolding seen_def
      proof
        assume ok: "r1 = Inr (rows (cn_db c)) \<and> same_tables c c1"
        with run one have "r = Inr (g (rows (cn_db c)))" "c' = c1" by (simp_all add: db_bind_def db_return_def)
        with ok same show ?thesis
          by (intro exI [of _ "\<lambda>_. NoFault"]) (auto simp: dbm_simps same_tables_def calm_def)
      next
        assume "\<exists>k. k \<noteq> NoFault \<and> \<not> calm faults \<and> r1 = Inl IoError \<and> same_tables (failed k c) c1"
        then obtain k where k: "k \<noteq> NoFault" "r1 = Inl IoError" "same_tables (failed k c) c1" "\<not> calm faults" by blast
        with run one have "r = Inl IoError" "c' = c1" by (simp_all add: db_bind_def)
        moreover from fails_first_read [unfolded fails_first_def, rule_format, OF k(1) same] obtain f c0' where
          "stmt_read f (\<lambda>d. g (rows d)) c0 = (Inl IoError, c0')" "same_tables (failed k c) c0'" by blast
        ultimately show ?thesis using same_tables_trans [OF same_tables_sym [OF k(3)]] k(4) by blast
      qed
    qed
  qed
  from refines_bound [where k = "\<lambda>st. db_bind (collect faults st) (\<lambda>rs. db_return (g rs))", OF assms(1) this fails_first_read]
  show ?thesis by (simp add: query_rows_def db_bind_assoc)
qed

end
