(* ===== verification/Db_Statements.thy ===== *)
theory Db_Statements
  imports Db Sql_Refine
begin

text \<open>
  Every operation of \<open>DbConn\<close> once more, as the sequence of its calls on the statement wrapper: the
  parameters bound by number, the steps, the columns read by number (\<open>src/db.cpp\<close>). Names carry the
  suffix \<open>_c\<close>. The SQL text of each statement is a program over values: which parameter goes into
  which column and which columns come out. Columns that are declared nullable but that no statement
  of the sources ever fills with NULL are plain fields of the rows; a program that would meet a
  value of another type stops with \<open>WrongType\<close>, since sqlite's conversions are not modelled.

  \<open>Db_Refinement\<close> shows that all of them implement the operations of \<open>Db\<close>, and that no value ever
  has the wrong type.
\<close>

section \<open>Typed values\<close>

definition as_int :: "sql_value \<Rightarrow> sql_error + int" where
  "as_int v = (case v of SqlInt k \<Rightarrow> Inr k | SqlNull \<Rightarrow> Inl NotNullFailed | _ \<Rightarrow> Inl WrongType)"

definition as_opt_int :: "sql_value \<Rightarrow> sql_error + int option" where
  "as_opt_int v = (case v of SqlInt k \<Rightarrow> Inr (Some k) | SqlNull \<Rightarrow> Inr None | _ \<Rightarrow> Inl WrongType)"

definition as_real :: "sql_value \<Rightarrow> sql_error + rat" where
  "as_real v = (case v of SqlReal q \<Rightarrow> Inr q | SqlNull \<Rightarrow> Inl NotNullFailed | _ \<Rightarrow> Inl WrongType)"

definition as_text :: "sql_value \<Rightarrow> sql_error + string" where
  "as_text v = (case v of SqlText s \<Rightarrow> Inr s | SqlNull \<Rightarrow> Inl NotNullFailed | _ \<Rightarrow> Inl WrongType)"

definition as_opt_text :: "sql_value \<Rightarrow> sql_error + string option" where
  "as_opt_text v = (case v of SqlText s \<Rightarrow> Inr (Some s) | SqlNull \<Rightarrow> Inr None | _ \<Rightarrow> Inl WrongType)"

definition as_opt_blob :: "sql_value \<Rightarrow> sql_error + byte list option" where
  "as_opt_blob v = (case v of SqlBlob b \<Rightarrow> Inr (Some b) | SqlNull \<Rightarrow> Inr None | _ \<Rightarrow> Inl WrongType)"

named_theorems value_simps \<open>reading and writing typed values\<close>

declare as_int_def [value_simps] as_opt_int_def [value_simps] as_real_def [value_simps] as_text_def [value_simps]
  as_opt_text_def [value_simps] as_opt_blob_def [value_simps] column_int_def [value_simps] column_real_def [value_simps]
  column_text_def [value_simps] column_opt_int_def [value_simps] column_is_null_def [value_simps] column_def [value_simps]

definition opt_int :: "int option \<Rightarrow> sql_value" where
  "opt_int v = (case v of None \<Rightarrow> SqlNull | Some k \<Rightarrow> SqlInt k)"

text \<open>The row under the cursor.\<close>

definition current_row :: "'d stmt \<Rightarrow> sql_row" where
  "current_row st = (case st_cursor st of AtRow r rest \<Rightarrow> r | _ \<Rightarrow> [])"

text \<open>A query returns rows and leaves the tables alone; a change returns no rows and a number.\<close>

definition query :: "('d \<Rightarrow> sql_row list) \<Rightarrow> 'd \<Rightarrow> sql_error + (sql_row list \<times> int) \<times> 'd" where
  "query f d = Inr ((f d, 0), d)"

definition change :: "('d \<Rightarrow> sql_error + int \<times> 'd) \<Rightarrow> 'd \<Rightarrow> sql_error + (sql_row list \<times> int) \<times> 'd" where
  "change f d = (case f d of Inl e \<Rightarrow> Inl e | Inr (k, d') \<Rightarrow> Inr (([], k), d'))"

section \<open>Catalog reads\<close>

definition partner_columns :: "partner_row \<Rightarrow> sql_row" where
  "partner_columns r = [SqlInt (pr_id r), SqlText (pr_code r), SqlText (pr_title r), SqlText (pr_link_template r), SqlInt (pr_enabled r)]"

definition partner_of_columns :: "sqlite_conv \<Rightarrow> sql_row \<Rightarrow> partner" where
  "partner_of_columns conv cols = \<lparr> pt_id = column_int conv cols 0, pt_code = column_text conv cols 1,
     pt_title = column_text conv cols 2, pt_link_template = column_text conv cols 3,
     pt_enabled = (column_int conv cols 4 \<noteq> 0) \<rparr>"

definition select_partners_sql :: "database program" where
  "select_partners_sql ps = query (\<lambda>d. map partner_columns (db_partners d))"

definition list_partners_c :: "sqlite_conv \<Rightarrow> faults \<Rightarrow> partner list sql" where
  "list_partners_c conv faults =
     db_bind (query_rows faults 0 select_partners_sql []) (\<lambda>rows. db_return (map (partner_of_columns conv) rows))"

definition item_columns :: "item_row \<Rightarrow> sql_row" where
  "item_columns r = [SqlInt (ir_id r), SqlText (ir_title r), SqlText (ir_description r), SqlText (coalesce (ir_brand r) []),
     SqlInt (ir_price_kopek r), opt_int (ir_old_price_kopek r), SqlText (ir_currency r), SqlInt (coalesce (ir_partner_id r) 0),
     SqlText (ir_product_url r), SqlText (coalesce (ir_campaign r) []), SqlText (ir_status r), SqlReal (ir_score r),
     SqlInt (ir_created_at r), SqlInt (ir_updated_at r), opt_int (ir_published_at r)]"

definition item_of_columns :: "sqlite_conv \<Rightarrow> sql_row \<Rightarrow> item" where
  "item_of_columns conv cols = item_default\<lparr> it_id := column_int conv cols 0, it_title := column_text conv cols 1,
     it_description := column_text conv cols 2, it_brand := column_text conv cols 3,
     it_price_kopek := column_int conv cols 4, it_old_price_kopek := column_opt_int conv cols 5,
     it_currency := column_text conv cols 6, it_partner_id := column_int conv cols 7,
     it_product_url := column_text conv cols 8, it_campaign := column_text conv cols 9,
     it_status := (case item_status_from_string (column_text conv cols 10) of None \<Rightarrow> Draft | Some s \<Rightarrow> s),
     it_score := column_real conv cols 11, it_created_at := column_int conv cols 12,
     it_updated_at := column_int conv cols 13, it_published_at := column_opt_int conv cols 14 \<rparr>"

definition select_items_sql :: "database program" where
  "select_items_sql ps = query (\<lambda>d. map item_columns (select_published d))"

definition image_columns :: "image_row \<Rightarrow> sql_row" where
  "image_columns r = [SqlInt (mr_item_id r), SqlInt (mr_id r), SqlText (mr_path r), SqlText (coalesce (mr_thumb_path r) []),
     SqlInt (coalesce (mr_width r) 0), SqlInt (coalesce (mr_height r) 0), SqlInt (mr_sort_order r)]"

definition push_image_c :: "sqlite_conv \<Rightarrow> sql_row \<Rightarrow> item \<Rightarrow> item" where
  "push_image_c conv cols it = it\<lparr> it_images := it_images it @
     [\<lparr> img_id = column_int conv cols 1, img_path = column_text conv cols 2, img_thumb_path = column_text conv cols 3,
        img_width = int32_of (column_int conv cols 4), img_height = int32_of (column_int conv cols 5),
        img_sort_order = int32_of (column_int conv cols 6) \<rparr>] \<rparr>"

definition push_tag_c :: "sqlite_conv \<Rightarrow> sql_row \<Rightarrow> item \<Rightarrow> item" where
  "push_tag_c conv cols it = it\<lparr> it_tags := it_tags it @ [column_text conv cols 1] \<rparr>"

definition push_size_c :: "sqlite_conv \<Rightarrow> sql_row \<Rightarrow> item \<Rightarrow> item" where
  "push_size_c conv cols it = it\<lparr> it_sizes := it_sizes it @ [column_text conv cols 1] \<rparr>"

definition push_color_c :: "sqlite_conv \<Rightarrow> sql_row \<Rightarrow> item \<Rightarrow> item" where
  "push_color_c conv cols it = it\<lparr> it_colors := it_colors it @
     [\<lparr> col_name = column_text conv cols 1, col_hex = column_text conv cols 2 \<rparr>] \<rparr>"

definition select_images_sql :: "database program" where
  "select_images_sql ps = query (\<lambda>d. map image_columns (select_images d))"

definition select_tags_sql :: "database program" where
  "select_tags_sql ps = query (\<lambda>d. map (\<lambda>p. [SqlInt (fst p), SqlText (snd p)]) (select_tags d))"

definition select_sizes_sql :: "database program" where
  "select_sizes_sql ps = query (\<lambda>d. map (\<lambda>r. [SqlInt (zr_item_id r), SqlText (zr_size r)]) (select_sizes d))"

definition select_colors_sql :: "database program" where
  "select_colors_sql ps =
     query (\<lambda>d. map (\<lambda>r. [SqlInt (kr_item_id r), SqlText (kr_color r), SqlText (coalesce (kr_hex r) [])]) (select_colors d))"

text \<open>The \<open>attach\<close> lambda: one query, each row handed to the item of its column 0.\<close>

definition attach_c ::
  "sqlite_conv \<Rightarrow> faults \<Rightarrow> database program \<Rightarrow> (int \<rightharpoonup> nat) \<Rightarrow> (sql_row \<Rightarrow> item \<Rightarrow> item) \<Rightarrow> item list \<Rightarrow> item list sql" where
  "attach_c conv faults prog index fn items =
     db_bind (query_rows faults 0 prog []) (\<lambda>rows.
       db_return (attach index (\<lambda>cols. column_int conv cols 0) fn rows items))"

definition load_published_items_c :: "sqlite_conv \<Rightarrow> faults \<Rightarrow> item list sql" where
  "load_published_items_c conv faults =
     db_bind (db_bind (query_rows faults 0 select_items_sql []) (\<lambda>rows. db_return (map (item_of_columns conv) rows))) (\<lambda>items.
       let index = build_index it_id items in
       db_bind (attach_c conv faults select_images_sql index (push_image_c conv) items) (\<lambda>items.
       db_bind (attach_c conv faults select_tags_sql index (push_tag_c conv) items) (\<lambda>items.
       db_bind (attach_c conv faults select_sizes_sql index (push_size_c conv) items) (\<lambda>items.
         attach_c conv faults select_colors_sql index (push_color_c conv) items))))"

definition select_partner_sql :: "database program" where
  "select_partner_sql ps = query (\<lambda>d. map partner_columns (filter (\<lambda>r. SqlText (pr_code r) = ps ! 0) (db_partners d)))"

definition find_partner_by_code_c :: "sqlite_conv \<Rightarrow> faults \<Rightarrow> string \<Rightarrow> partner option sql" where
  "find_partner_by_code_c conv faults code =
     db_bind (run_stmt faults 1 select_partner_sql [bind_text 1 code]) (\<lambda>(found, st).
       db_return (if \<not> found then None else Some (partner_of_columns conv (current_row st))))"

definition user_version_sql :: "database program" where
  "user_version_sql ps = query (\<lambda>d. [[SqlInt (db_user_version d)]])"

definition user_version_c :: "sqlite_conv \<Rightarrow> faults \<Rightarrow> int sql" where
  "user_version_c conv faults =
     db_bind (run_stmt faults 0 user_version_sql []) (\<lambda>(found, st).
       db_return (if found then int32_of (column_int conv (current_row st) 0) else 0))"

section \<open>Catalog writes\<close>

text \<open>\<open>INSERT INTO items (...) VALUES (?1, ..., ?11, NULL, ?12, ?13, ?14)\<close>: the columns the parameters go into.\<close>

definition item_of_params :: "sql_value list \<Rightarrow> sql_error + item_row" where
  "item_of_params ps =
     sum_bind (as_text (ps ! 0)) (\<lambda>title. sum_bind (as_text (ps ! 1)) (\<lambda>description.
     sum_bind (as_opt_text (ps ! 2)) (\<lambda>brand. sum_bind (as_int (ps ! 3)) (\<lambda>price.
     sum_bind (as_opt_int (ps ! 4)) (\<lambda>old_price. sum_bind (as_text (ps ! 5)) (\<lambda>currency.
     sum_bind (as_opt_int (ps ! 6)) (\<lambda>partner. sum_bind (as_text (ps ! 7)) (\<lambda>url.
     sum_bind (as_opt_text (ps ! 8)) (\<lambda>campaign. sum_bind (as_text (ps ! 9)) (\<lambda>status.
     sum_bind (as_real (ps ! 10)) (\<lambda>score. sum_bind (as_int (ps ! 11)) (\<lambda>created.
     sum_bind (as_int (ps ! 12)) (\<lambda>updated. sum_bind (as_opt_int (ps ! 13)) (\<lambda>published.
       Inr \<lparr> ir_id = 0, ir_title = title, ir_description = description, ir_brand = brand, ir_price_kopek = price,
             ir_old_price_kopek = old_price, ir_currency = currency, ir_partner_id = partner, ir_product_url = url,
             ir_campaign = campaign, ir_status = status, ir_score = score, ir_source_channel = None,
             ir_created_at = created, ir_updated_at = updated, ir_published_at = published \<rparr>))))))))))))))"

definition insert_item_sql :: "bool \<Rightarrow> database program" where
  "insert_item_sql fk ps = change (\<lambda>d.
     sum_bind (item_of_params ps) (\<lambda>row.
       if ir_status row \<notin> {''draft'', ''published'', ''archived''} then Inl CheckFailed
       else if fk \<and> (case ir_partner_id row of None \<Rightarrow> False | Some p \<Rightarrow> p \<notin> set (map pr_id (db_partners d))) then Inl ForeignKeyFailed
       else let rowid = next_rowid (map ir_id (db_items d))
            in Inr (rowid, d\<lparr> db_items := db_items d @ [row\<lparr> ir_id := rowid \<rparr>] \<rparr>)))"

definition insert_item_c :: "faults \<Rightarrow> item \<Rightarrow> int sql" where
  "insert_item_c faults it =
     with_pragma (\<lambda>fk. db_bind (run_stmt faults 14 (insert_item_sql fk)
       [bind_text 1 (it_title it), bind_text 2 (it_description it), bind_text 3 (it_brand it),
        bind_int 4 (it_price_kopek it), bind_opt_int 5 (it_old_price_kopek it), bind_text 6 (it_currency it),
        bind_int 7 (it_partner_id it), bind_text 8 (it_product_url it), bind_text 9 (it_campaign it),
        bind_text 10 (status_to_string (it_status it)), bind_real 11 (it_score it), bind_int 12 (it_created_at it),
        bind_int 13 (it_updated_at it), bind_opt_int 14 (it_published_at it)])
       (\<lambda>(found, st). db_return (st_number st)))"

definition set_item_status_sql :: "database program" where
  "set_item_status_sql ps = change (\<lambda>d.
     sum_bind (as_int (ps ! 0)) (\<lambda>i. sum_bind (as_text (ps ! 1)) (\<lambda>status. sum_bind (as_int (ps ! 2)) (\<lambda>now.
       if status \<notin> {''draft'', ''published'', ''archived''} \<and> i \<in> set (map ir_id (db_items d)) then Inl CheckFailed
       else Inr (0, d\<lparr> db_items := map (set_status_row i status now) (db_items d) \<rparr>)))))"

definition set_item_status_c :: "faults \<Rightarrow> int \<Rightarrow> item_status \<Rightarrow> ts_ms \<Rightarrow> unit sql" where
  "set_item_status_c faults i status now =
     db_bind (run_stmt faults 3 set_item_status_sql [bind_int 1 i, bind_text 2 (status_to_string status), bind_int 3 now])
       (\<lambda>_. db_return ())"

definition select_tag_sql :: "database program" where
  "select_tag_sql ps = query (\<lambda>d. map (\<lambda>t. [SqlInt (tr_id t)]) (filter (\<lambda>t. SqlText (tr_slug t) = ps ! 0) (db_tags d)))"

definition insert_tag_sql :: "database program" where
  "insert_tag_sql ps = change (\<lambda>d.
     sum_bind (as_text (ps ! 0)) (\<lambda>slug. sum_bind (as_text (ps ! 1)) (\<lambda>title. insert_tag_stmt slug title d)))"

definition upsert_tag_c :: "sqlite_conv \<Rightarrow> faults \<Rightarrow> string \<Rightarrow> string \<Rightarrow> int sql" where
  "upsert_tag_c conv faults slug title =
     db_bind (db_bind (run_stmt faults 1 select_tag_sql [bind_text 1 slug]) (\<lambda>(found, sel).
         db_return (if found then Some (column_int conv (current_row sel) 0) else None)))
       (\<lambda>known. case known of
          Some i \<Rightarrow> db_return i
        | None \<Rightarrow> db_bind (run_stmt faults 2 insert_tag_sql [bind_text 1 slug, bind_text 2 title])
                    (\<lambda>(found, ins). db_return (st_number ins)))"

definition attach_tag_sql :: "bool \<Rightarrow> database program" where
  "attach_tag_sql fk ps = change (\<lambda>d.
     sum_bind (as_int (ps ! 0)) (\<lambda>item_id. sum_bind (as_int (ps ! 1)) (\<lambda>tag_id.
       case attach_tag_stmt fk item_id tag_id d of Inl e \<Rightarrow> Inl e | Inr (u, d') \<Rightarrow> Inr (0, d'))))"

definition attach_tag_c :: "faults \<Rightarrow> int \<Rightarrow> int \<Rightarrow> unit sql" where
  "attach_tag_c faults item_id tag_id =
     with_pragma (\<lambda>fk. db_bind (run_stmt faults 2 (attach_tag_sql fk) [bind_int 1 item_id, bind_int 2 tag_id])
       (\<lambda>_. db_return ()))"

definition add_image_sql :: "bool \<Rightarrow> database program" where
  "add_image_sql fk ps = change (\<lambda>d.
     sum_bind (as_int (ps ! 0)) (\<lambda>item_id. sum_bind (as_text (ps ! 1)) (\<lambda>path.
     sum_bind (as_opt_text (ps ! 2)) (\<lambda>thumb. sum_bind (as_opt_int (ps ! 3)) (\<lambda>width.
     sum_bind (as_opt_int (ps ! 4)) (\<lambda>height. sum_bind (as_int (ps ! 5)) (\<lambda>sort_order.
       if fk \<and> item_id \<notin> set (map ir_id (db_items d)) then Inl ForeignKeyFailed
       else Inr (0, d\<lparr> db_images := db_images d @
              [\<lparr> mr_id = next_rowid (map mr_id (db_images d)), mr_item_id = item_id, mr_path = path,
                 mr_thumb_path = thumb, mr_width = width, mr_height = height, mr_sort_order = sort_order \<rparr>] \<rparr>))))))))"

definition add_image_c :: "faults \<Rightarrow> int \<Rightarrow> image \<Rightarrow> unit sql" where
  "add_image_c faults item_id img =
     with_pragma (\<lambda>fk. db_bind (run_stmt faults 6 (add_image_sql fk)
       [bind_int 1 item_id, bind_text 2 (img_path img), bind_text 3 (img_thumb_path img), bind_int 4 (img_width img),
        bind_int 5 (img_height img), bind_int 6 (img_sort_order img)]) (\<lambda>_. db_return ()))"

section \<open>Metrics\<close>

definition event_of_params :: "sql_value list \<Rightarrow> sql_error + event_row" where
  "event_of_params ps =
     sum_bind (as_int (ps ! 0)) (\<lambda>ts. sum_bind (as_text (ps ! 1)) (\<lambda>anon. sum_bind (as_text (ps ! 2)) (\<lambda>sid.
     sum_bind (as_text (ps ! 3)) (\<lambda>kind. sum_bind (as_opt_int (ps ! 4)) (\<lambda>item_id. sum_bind (as_opt_int (ps ! 5)) (\<lambda>pos.
     sum_bind (as_text (ps ! 6)) (\<lambda>surface. sum_bind (as_opt_text (ps ! 7)) (\<lambda>token. sum_bind (as_text (ps ! 8)) (\<lambda>source.
     sum_bind (as_text (ps ! 9)) (\<lambda>ua. sum_bind (as_opt_blob (ps ! 10)) (\<lambda>hash. sum_bind (as_text (ps ! 11)) (\<lambda>payload.
       Inr \<lparr> er_id = 0, er_ts = ts, er_anon_id = anon, er_session_id = sid, er_type = kind, er_item_id = item_id,
             er_position = pos, er_surface = surface, er_click_token = token, er_source = source, er_ua_class = ua,
             er_ip_hash = hash, er_payload = payload \<rparr>))))))))))))"

definition insert_event_sql :: "database program" where
  "insert_event_sql ps = change (\<lambda>d.
     sum_bind (event_of_params ps) (\<lambda>row.
       if er_click_token row \<noteq> None \<and> er_click_token row \<in> set (map er_click_token (db_events d)) then Inl UniqueFailed
       else let rowid = next_rowid (map er_id (db_events d))
            in Inr (rowid, d\<lparr> db_events := db_events d @ [row\<lparr> er_id := rowid \<rparr>] \<rparr>)))"

definition event_binds :: "event \<Rightarrow> ('d stmt \<Rightarrow> sql_error + 'd stmt) list" where
  "event_binds ev =
     [bind_int 1 (ev_ts ev), bind_text 2 (ev_anon_id ev), bind_text 3 (ev_session_id ev),
      bind_text 4 (event_type_to_string (ev_type ev)), bind_opt_int 5 (ev_item_id ev), bind_opt_int 6 (ev_position ev),
      bind_text 7 (ev_surface ev), (if ev_click_token ev = [] then bind_null 8 else bind_text 8 (ev_click_token ev)),
      bind_text 9 (ev_source ev), bind_text 10 (ev_ua_class ev), bind_blob 11 (ev_ip_hash ev), bind_text 12 (ev_payload ev)]"

text \<open>The loop over the batch: one prepared statement, bound, stepped and reset for every event.\<close>

fun event_rows_c :: "faults \<Rightarrow> database stmt \<Rightarrow> event list \<Rightarrow> unit sql" where
  "event_rows_c faults st [] = db_return ()"
| "event_rows_c faults st (ev # batch) =
     (case bind_all (event_binds ev) st of
        Inl e \<Rightarrow> db_raise e
      | Inr st1 \<Rightarrow> db_bind (st_step faults st1) (\<lambda>(found, st2). event_rows_c faults (st_reset st2) batch))"

definition insert_events_c :: "faults \<Rightarrow> event list \<Rightarrow> unit sql" where
  "insert_events_c faults batch =
     (if batch = [] then db_return ()
      else in_transaction faults
        (db_bind (bound_stmt faults 12 insert_event_sql []) (\<lambda>st. event_rows_c faults st batch)))"

definition token_sql :: "database program" where
  "token_sql ps = query (\<lambda>d.
     map (\<lambda>_. [SqlInt 1]) (filter (\<lambda>e. map_option SqlText (er_click_token e) = Some (ps ! 0)) (db_events d)))"

definition upsert_conversion_sql :: "database program" where
  "upsert_conversion_sql ps = change (\<lambda>d.
     sum_bind (as_text (ps ! 0)) (\<lambda>token. sum_bind (as_int (ps ! 1)) (\<lambda>ts. sum_bind (as_opt_text (ps ! 2)) (\<lambda>order_ref.
     sum_bind (as_opt_int (ps ! 3)) (\<lambda>amount. sum_bind (as_text (ps ! 4)) (\<lambda>status. sum_bind (as_text (ps ! 5)) (\<lambda>raw.
       if \<not> conversion_status_ok status then Inl CheckFailed
       else if order_ref \<noteq> None \<and> order_ref \<in> set (map cr_order_ref (db_conversions d))
         then Inr (0, d\<lparr> db_conversions := map (\<lambda>r. if cr_order_ref r = order_ref
                then r\<lparr> cr_status := status, cr_amount_kopek := amount, cr_ts := ts \<rparr> else r) (db_conversions d) \<rparr>)
       else Inr (0, d\<lparr> db_conversions := db_conversions d @
              [\<lparr> cr_id = next_rowid (map cr_id (db_conversions d)), cr_click_token = token, cr_ts = ts,
                 cr_order_ref = order_ref, cr_amount_kopek = amount, cr_status = status, cr_raw = raw \<rparr>] \<rparr>))))))))"

definition record_conversion_c :: "faults \<Rightarrow> conversion \<Rightarrow> bool sql" where
  "record_conversion_c faults c =
     db_bind (db_bind (run_stmt faults 1 token_sql [bind_text 1 (cv_click_token c)]) (\<lambda>(found, st). db_return found))
       (\<lambda>known. if \<not> known then db_return False
         else db_bind
           (db_bind (run_stmt faults 6 upsert_conversion_sql
              [bind_text 1 (cv_click_token c), bind_int 2 (cv_ts c),
               (if cv_order_ref c = [] then bind_null 3 else bind_text 3 (cv_order_ref c)),
               bind_opt_int 4 (cv_amount c), bind_text 5 (cv_status c), bind_text 6 (cv_raw c)]) (\<lambda>_. db_return ()))
           (\<lambda>_. db_return True))"

definition rollup_sql :: "database program" where
  "rollup_sql ps = change (\<lambda>d.
     sum_bind (as_int (ps ! 0)) (\<lambda>day_from. sum_bind (as_int (ps ! 1)) (\<lambda>day_to. Inr (0, rollup_stmt day_from day_to d))))"

definition rollup_daily_c :: "faults \<Rightarrow> int \<Rightarrow> int \<Rightarrow> unit sql" where
  "rollup_daily_c faults day_from day_to =
     db_bind (run_stmt faults 2 rollup_sql [bind_int 1 day_from, bind_int 2 day_to]) (\<lambda>_. db_return ())"

definition prune_sql :: "database program" where
  "prune_sql ps = change (\<lambda>d. sum_bind (as_int (ps ! 0)) (\<lambda>older_than. Inr (prune_stmt older_than d)))"

definition prune_events_c :: "faults \<Rightarrow> ts_ms \<Rightarrow> int sql" where
  "prune_events_c faults older_than =
     db_bind (run_stmt faults 1 prune_sql [bind_int 1 older_than]) (\<lambda>(found, st). db_return (st_number st))"

end
