(* ===== verification/Db_Refinement.thy ===== *)
theory Db_Refinement
  imports Db_Statements Db_Facts
begin

text \<open>
  The operations of \<open>Db_Statements\<close> implement those of \<open>Db\<close>: the parameters are the right ones in
  the right places, the columns are read back as what was stored, and a failure between the calls of
  one operation looks like a failure of the operation. And the types agree everywhere.
\<close>

section \<open>Binding all parameters\<close>

fun bind_from :: "nat \<Rightarrow> sql_value list \<Rightarrow> ('d stmt \<Rightarrow> sql_error + 'd stmt) list" where
  "bind_from i [] = []"
| "bind_from i (v # vs) = bind_value i v # bind_from (Suc i) vs"

lemma bind_from_all:
  assumes "st_cursor st = Fresh" and "st_params st = pre @ old" and "length old = length vs" and "i = Suc (length pre)"
  shows "bind_all (bind_from i vs) st = Inr (st\<lparr> st_params := pre @ vs \<rparr>)"
  using assms
proof (induction vs arbitrary: st pre old i)
  case (Cons v vs)
  then obtain o1 old' where old: "old = o1 # old'" by (cases old) auto
  let ?st = "st\<lparr> st_params := pre @ v # old' \<rparr>"
  have "bind_value i v st = Inr ?st" using Cons.prems old by (simp add: bind_value_def list_update_append)
  moreover have "bind_all (bind_from (Suc i) vs) ?st = Inr (?st\<lparr> st_params := (pre @ [v]) @ vs \<rparr>)"
    by (rule Cons.IH [where old = old']) (use Cons.prems old in auto)
  ultimately show ?case by simp
qed simp

lemma bind_opt_int_eq: "bind_opt_int i v = bind_value i (opt_int v)"
  by (cases v) (simp_all add: bind_opt_int_def bind_int_def bind_null_def opt_int_def)

definition text_or_null :: "string \<Rightarrow> sql_value" where
  "text_or_null s = (if s = [] then SqlNull else SqlText s)"

definition blob_or_null :: "byte list \<Rightarrow> sql_value" where
  "blob_or_null b = (if b = [] then SqlNull else SqlBlob b)"

lemma bind_blob_eq: "bind_blob i b = bind_value i (blob_or_null b)"
  by (simp add: bind_blob_def bind_null_def blob_or_null_def)

lemma bind_text_or_null: "(if s = [] then bind_null i else bind_text i s) = bind_value i (text_or_null s)"
  by (simp add: bind_text_def bind_null_def text_or_null_def)

lemma value_reads:
  "as_int (SqlInt k) = Inr k" "as_opt_int (SqlInt k) = Inr (Some k)" "as_opt_int (opt_int v) = Inr v"
  "as_real (SqlReal q) = Inr q" "as_text (SqlText s) = Inr s" "as_opt_text (SqlText s) = Inr (Some s)"
  "as_opt_text (text_or_null s) = Inr (if s = [] then None else Some s)"
  "as_opt_blob (blob_or_null b) = Inr (if b = [] then None else Some b)"
  by (simp_all add: value_simps opt_int_def text_or_null_def blob_or_null_def split: option.split)

lemmas bind_eqs = bind_int_def bind_real_def bind_text_def bind_null_def bind_blob_eq bind_opt_int_eq bind_text_or_null

lemma return_case_prod: "(\<lambda>(a, b). db_return (F a b)) = (\<lambda>x. db_return (F (fst x) (snd x)))"
  by (auto simp: fun_eq_iff)

text \<open>The rule for one statement: the values it binds, and what it returns.\<close>

lemma refines_values:
  assumes "binds = bind_from 1 vs" and "length vs = n"
    and "\<And>d. h d = (case prog vs d of
        Inl e \<Rightarrow> Inl e | Inr ((rows, k), d') \<Rightarrow> Inr (g (arrive rows ((new_stmt n prog)\<lparr> st_params := vs, st_number := k \<rparr>)), d'))"
  shows "refines faults (db_bind (run_stmt faults n prog binds) (\<lambda>x. db_return (g x))) (\<lambda>f. stmt_step f h)"
proof (rule refines_run)
  let ?st = "(new_stmt n prog)\<lparr> st_params := vs \<rparr>"
  show "bind_all binds (new_stmt n prog) = Inr ?st"
    unfolding assms(1) using bind_from_all [of "new_stmt n prog" "[]" "replicate n SqlNull" vs 1] assms(2)
    by (simp add: new_stmt_def)
  show "st_cursor ?st = Fresh" "st_program ?st = prog" by (simp_all add: new_stmt_def)
  show "h d = (case prog (st_params ?st) d of
        Inl e \<Rightarrow> Inl e | Inr ((rows, k), d') \<Rightarrow> Inr (g (arrive rows (?st\<lparr> st_number := k \<rparr>)), d'))" for d
    using assms(3) by simp
qed

named_theorems sql_programs \<open>the programs of the statements\<close>

declare query_def [sql_programs] change_def [sql_programs] arrive_def [sql_programs] current_row_def [sql_programs]

section \<open>Catalog reads\<close>

lemma partner_of_partner_columns: "partner_of_columns conv (partner_columns r) = partner_of_row r"
  by (simp add: partner_of_columns_def partner_columns_def partner_of_row_def value_simps)

lemma item_of_item_columns: "item_of_columns conv (item_columns r) = item_of_row r"
  by (simp add: item_of_columns_def item_columns_def item_of_row_def value_simps opt_int_def split: option.split)

lemma push_columns:
  "push_image_c conv (image_columns r) = push_image r"
  "push_tag_c conv [SqlInt (fst p), SqlText (snd p)] = push_tag p"
  "push_size_c conv [SqlInt (zr_item_id z), SqlText (zr_size z)] = push_size z"
  "push_color_c conv [SqlInt (kr_item_id k), SqlText (kr_color k), SqlText (coalesce (kr_hex k) [])] = push_color k"
  by (simp_all add: fun_eq_iff push_image_c_def push_image_def image_columns_def push_tag_c_def push_tag_def push_size_c_def
      push_size_def push_color_c_def push_color_def value_simps)

lemma refines_select:
  assumes "\<And>ps. prog ps = query rows"
  shows "refines faults (db_bind (query_rows faults 0 prog []) (\<lambda>rs. db_return (g rs))) (\<lambda>f. stmt_read f (\<lambda>d. g (rows d)))"
  by (rule refines_query [where st = "new_stmt 0 prog" and k = "\<lambda>_. 0"]) (simp_all add: new_stmt_def assms query_def)

lemma list_partners_refines: "refines faults (list_partners_c conv faults) list_partners"
proof -
  have spec: "list_partners = (\<lambda>f. stmt_read f (\<lambda>d. map (partner_of_columns conv) (map partner_columns (db_partners d))))"
    by (simp add: fun_eq_iff list_partners_def comp_def partner_of_partner_columns)
  show ?thesis
    unfolding list_partners_c_def spec by (rule refines_select [of select_partners_sql, OF select_partners_sql_def])
qed

lemma attach_map:
  assumes "\<And>r. parent' (enc r) = parent r" and "\<And>r. fn' (enc r) = fn r"
  shows "attach index parent' fn' (map enc rows) items = attach index parent fn rows items"
proof -
  have "attach_row index parent' fn' xs (enc r) = attach_row index parent fn xs r" for xs r
    by (simp add: attach_row_def assms split: option.split)
  then show ?thesis by (simp add: attach_def foldl_map)
qed

lemma attach_c_refines:
  assumes "\<And>ps. prog ps = query (\<lambda>d. map enc (rows d))" and "\<And>r. column_int conv (enc r) 0 = parent r" and "\<And>r. fn' (enc r) = fn r"
  shows "refines faults (attach_c conv faults prog index fn' items)
    (\<lambda>f. db_bind (stmt_read f rows) (\<lambda>rs. db_return (attach index parent fn rs items)))"
proof -
  have spec: "(\<lambda>f. db_bind (stmt_read f rows) (\<lambda>rs. db_return (attach index parent fn rs items))) =
      (\<lambda>f. stmt_read f (\<lambda>d. attach index (\<lambda>cols. column_int conv cols 0) fn' (map enc (rows d)) items))"
    unfolding stmt_read_def step_then_return
      attach_map [of "\<lambda>cols. column_int conv cols 0" enc parent fn' fn, OF assms(2,3)] by simp
  show ?thesis unfolding attach_c_def spec by (rule refines_select [of prog, OF assms(1)])
qed

lemma select_columns:
  "column_int conv (image_columns r) 0 = mr_item_id r"
  "column_int conv (SqlInt i # cols) 0 = i"
  by (simp_all add: image_columns_def value_simps)

lemma load_published_items_refines: "refines faults (load_published_items_c conv faults) load_published_items"
proof -
  have items: "refines faults (db_bind (query_rows faults 0 select_items_sql []) (\<lambda>rows. db_return (map (item_of_columns conv) rows)))
      (\<lambda>f. db_bind (stmt_read f select_published) (\<lambda>rows. db_return (map item_of_row rows)))"
  proof -
    have spec: "(\<lambda>f. db_bind (stmt_read f select_published) (\<lambda>rows. db_return (map item_of_row rows))) =
        (\<lambda>f. stmt_read f (\<lambda>d. map (item_of_columns conv) (map item_columns (select_published d))))"
      unfolding stmt_read_def step_then_return by (simp add: comp_def item_of_item_columns)
    show ?thesis unfolding spec by (rule refines_select [of select_items_sql, OF select_items_sql_def])
  qed
  have spec: "load_published_items = (\<lambda>f.
      db_bind (db_bind (stmt_read f select_published) (\<lambda>rows. db_return (map item_of_row rows))) (\<lambda>items.
      db_bind (db_bind (stmt_read f select_images) (\<lambda>rs. db_return (attach (build_index it_id items) mr_item_id push_image rs items))) (\<lambda>items'.
      db_bind (db_bind (stmt_read f select_tags) (\<lambda>rs. db_return (attach (build_index it_id items) fst push_tag rs items'))) (\<lambda>items'.
      db_bind (db_bind (stmt_read f select_sizes) (\<lambda>rs. db_return (attach (build_index it_id items) zr_item_id push_size rs items'))) (\<lambda>items'.
        db_bind (stmt_read f select_colors) (\<lambda>rs. db_return (attach (build_index it_id items) kr_item_id push_color rs items')))))))"
    by (simp add: fun_eq_iff load_published_items_def db_bind_assoc Let_def)
  show ?thesis
    unfolding spec load_published_items_c_def Let_def
    by (intro refines_bind items attach_c_refines [OF select_images_sql_def] attach_c_refines [OF select_tags_sql_def]
        attach_c_refines [OF select_sizes_sql_def] attach_c_refines [OF select_colors_sql_def])
      (simp_all only: select_columns push_columns)
qed

lemma find_as_filter: "List.find P xs = (case filter P xs of [] \<Rightarrow> None | x # _ \<Rightarrow> Some x)"
  by (induction xs) auto

lemma find_partner_by_code_refines: "refines faults (find_partner_by_code_c conv faults code) (\<lambda>f. find_partner_by_code f code)"
  unfolding find_partner_by_code_c_def find_partner_by_code_def return_case_prod stmt_read_def
  by (rule refines_values [where vs = "[SqlText code]"])
    (simp_all add: bind_eqs select_partner_sql_def sql_programs find_as_filter partner_of_partner_columns split: list.split)

lemma user_version_refines:
  "refines faults (user_version_c conv faults) (\<lambda>f. stmt_read f (\<lambda>d. int32_of (db_user_version d)))"
  unfolding user_version_c_def return_case_prod stmt_read_def
  by (rule refines_values [where vs = "[]"]) (simp_all add: user_version_sql_def sql_programs value_simps)

section \<open>Catalog writes\<close>

lemma status_valid:
  "(status_to_string st \<noteq> ''draft'' \<and> status_to_string st \<noteq> ''published'' \<and> status_to_string st \<noteq> ''archived'') = False"
  by (cases st) simp_all

lemma insert_item_refines: "refines faults (insert_item_c faults it) (\<lambda>f. insert_item f it)"
  unfolding insert_item_c_def insert_item_def return_case_prod
  by (rule refines_pragma, rule refines_values [where vs = "[SqlText (it_title it), SqlText (it_description it), SqlText (it_brand it),
        SqlInt (it_price_kopek it), opt_int (it_old_price_kopek it), SqlText (it_currency it), SqlInt (it_partner_id it),
        SqlText (it_product_url it), SqlText (it_campaign it), SqlText (status_to_string (it_status it)),
        SqlReal (it_score it), SqlInt (it_created_at it), SqlInt (it_updated_at it), opt_int (it_published_at it)]"])
    (simp_all add: bind_eqs eval_nat_numeral insert_item_sql_def insert_item_stmt_def item_of_params_def value_reads
      status_valid sql_programs Let_def)

lemma status_checked:
  "status_to_string st = ''draft'' \<or> status_to_string st = ''published'' \<or> status_to_string st = ''archived'' \<or> P"
  using status_to_string_ok [of st] by auto

lemma set_item_status_refines: "refines faults (set_item_status_c faults i status now) (\<lambda>f. set_item_status f i status now)"
  unfolding set_item_status_c_def set_item_status_def
  by (rule refines_values [where vs = "[SqlInt i, SqlText (status_to_string status), SqlInt now]"])
    (simp_all add: bind_eqs eval_nat_numeral set_item_status_sql_def value_reads status_checked sql_programs)

lemma select_tag_refines:
  "refines faults (db_bind (run_stmt faults 1 select_tag_sql [bind_text 1 slug]) (\<lambda>(found, sel).
       db_return (if found then Some (column_int conv (current_row sel) 0) else None)))
     (\<lambda>f. stmt_read f (\<lambda>d. map_option tr_id (List.find (\<lambda>t. tr_slug t = slug) (db_tags d))))"
  unfolding return_case_prod stmt_read_def
  by (rule refines_values [where vs = "[SqlText slug]"])
    (simp_all add: bind_eqs select_tag_sql_def sql_programs find_as_filter value_simps split: list.split)

lemma insert_tag_refines:
  "refines faults (db_bind (run_stmt faults 2 insert_tag_sql [bind_text 1 slug, bind_text 2 title])
      (\<lambda>(found, ins). db_return (st_number ins))) (\<lambda>f. stmt_step f (insert_tag_stmt slug title))"
  unfolding return_case_prod
  by (rule refines_values [where vs = "[SqlText slug, SqlText title]"])
    (simp_all add: bind_eqs eval_nat_numeral insert_tag_sql_def value_reads sql_programs split: sum.split prod.split)

lemma upsert_tag_refines: "refines faults (upsert_tag_c conv faults slug title) (\<lambda>f. upsert_tag f slug title)"
  unfolding upsert_tag_c_def upsert_tag_def
proof (rule refines_bind [OF select_tag_refines])
  fix known
  show "refines faults
      (case known of None \<Rightarrow> db_bind (run_stmt faults 2 insert_tag_sql [bind_text 1 slug, bind_text 2 title])
          (\<lambda>(found, ins). db_return (st_number ins)) | Some i \<Rightarrow> db_return i)
      (\<lambda>f. case known of None \<Rightarrow> stmt_step f (insert_tag_stmt slug title) | Some i \<Rightarrow> db_return i)"
    by (cases known) (simp_all only: option.case insert_tag_refines refines_return)
qed

lemma attach_tag_refines: "refines faults (attach_tag_c faults item_id tag_id) (\<lambda>f. attach_tag f item_id tag_id)"
  unfolding attach_tag_c_def attach_tag_def
  by (rule refines_pragma, rule refines_values [where vs = "[SqlInt item_id, SqlInt tag_id]"])
    (simp_all add: bind_eqs eval_nat_numeral attach_tag_sql_def value_reads sql_programs split: sum.split prod.split)

lemma add_image_refines: "refines faults (add_image_c faults item_id img) (\<lambda>f. add_image f item_id img)"
  unfolding add_image_c_def add_image_def
  by (rule refines_pragma, rule refines_values [where vs = "[SqlInt item_id, SqlText (img_path img), SqlText (img_thumb_path img),
        SqlInt (img_width img), SqlInt (img_height img), SqlInt (img_sort_order img)]"])
    (simp_all add: bind_eqs eval_nat_numeral add_image_sql_def add_image_stmt_def value_reads sql_programs)

section \<open>Metrics\<close>

definition event_values :: "event \<Rightarrow> sql_value list" where
  "event_values ev =
     [SqlInt (ev_ts ev), SqlText (ev_anon_id ev), SqlText (ev_session_id ev), SqlText (event_type_to_string (ev_type ev)),
      opt_int (ev_item_id ev), opt_int (ev_position ev), SqlText (ev_surface ev), text_or_null (ev_click_token ev),
      SqlText (ev_source ev), SqlText (ev_ua_class ev), blob_or_null (ev_ip_hash ev), SqlText (ev_payload ev)]"

text \<open>The statement at the head of the loop: fresh, with its twelve parameters.\<close>

definition event_ready :: "database stmt \<Rightarrow> bool" where
  "event_ready st \<longleftrightarrow> st_program st = insert_event_sql \<and> st_cursor st = Fresh \<and> length (st_params st) = 12"

lemma length_event_values: "length (event_values ev) = 12"
  by (simp add: event_values_def)

lemma bind_event:
  assumes "event_ready st"
  shows "bind_all (event_binds ev) st = Inr (st\<lparr> st_params := event_values ev \<rparr>)"
proof -
  have binds: "event_binds ev = bind_from 1 (event_values ev)"
    by (simp add: event_binds_def event_values_def bind_eqs eval_nat_numeral)
  show ?thesis
    unfolding binds using bind_from_all [of st "[]" "st_params st" "event_values ev" 1] assms
    by (simp add: event_ready_def length_event_values)
qed

lemma insert_event_program:
  "insert_event_sql (event_values ev) d =
     (case insert_event_stmt ev d of
        Inl e \<Rightarrow> Inl e | Inr (u, d') \<Rightarrow> Inr (([], next_rowid (map er_id (db_events d))), d'))"
  by (simp add: insert_event_sql_def insert_event_stmt_def event_of_params_def event_values_def eval_nat_numeral value_reads
      event_row_of_def token_known_def sql_programs Let_def)

lemma step_event:
  assumes "event_ready st"
  shows "refines faults (db_bind (st_step faults (st\<lparr> st_params := event_values ev \<rparr>)) (\<lambda>x. db_return ()))
    (\<lambda>f. stmt_step f (insert_event_stmt ev))"
proof -
  have "db_bind (st_step faults (st\<lparr> st_params := event_values ev \<rparr>)) (\<lambda>x. db_return ()) =
      stmt_step faults (insert_event_stmt ev)"
    using assms unfolding event_ready_def
    by (auto simp: st_step_def step_then_return insert_event_program fun_eq_iff intro!: arg_cong [where f = "\<lambda>h. stmt_step faults h _"]
        split: sum.split prod.split)
  then show ?thesis by (simp add: refines_step)
qed

lemma step_event_ready:
  assumes "event_ready st" and "st_step faults (st\<lparr> st_params := event_values ev \<rparr>) c = (Inr (found, st'), c')"
  shows "event_ready (st_reset st')"
  using assms by (auto simp: event_ready_def st_step_def st_reset_def insert_event_program arrive_def length_event_values
      dest!: stmt_step_Inr split: sum.splits prod.splits)

lemma call_local_event_rows: "call_local (\<lambda>f. insert_event_rows f batch)"
proof (induction batch)
  case (Cons ev batch)
  then show ?case using call_local_bind [OF call_local_step, where b = "\<lambda>_ f. insert_event_rows f batch"] by simp
qed (simp add: call_local_return)

lemma event_rows_refines: "event_ready st \<Longrightarrow> refines faults (event_rows_c faults st batch) (\<lambda>f. insert_event_rows f batch)"
proof (induction batch arbitrary: st)
  case (Cons ev batch)
  have "refines faults (db_bind (st_step faults (st\<lparr> st_params := event_values ev \<rparr>))
        (\<lambda>(found, st2). event_rows_c faults (st_reset st2) batch))
      (\<lambda>f. db_bind (stmt_step f (insert_event_stmt ev)) (\<lambda>u. insert_event_rows f batch))"
    by (rule refines_bind_via [OF step_event [OF Cons.prems], where b = "\<lambda>_ f. insert_event_rows f batch"])
      (auto intro!: Cons.IH call_local_event_rows dest: step_event_ready [OF Cons.prems])
  then show ?case by (simp add: bind_event [OF Cons.prems])
qed (simp add: refines_return)

lemma insert_events_refines: "refines faults (insert_events_c faults batch) (\<lambda>f. insert_events f batch)"
proof (cases batch)
  case Nil
  then show ?thesis by (simp add: insert_events_c_def insert_events_def refines_return)
next
  case (Cons ev rest)
  have ready: "event_ready (new_stmt 12 insert_event_sql)" by (simp add: event_ready_def new_stmt_def)
  have "fails_first (\<lambda>f. insert_event_rows f batch)" unfolding Cons by (simp add: fails_first_intros)
  then have "refines faults (db_bind (bound_stmt faults 12 insert_event_sql []) (\<lambda>st. event_rows_c faults st batch))
      (\<lambda>f. insert_event_rows f batch)"
    by (intro refines_bound [where k = "\<lambda>st. event_rows_c faults st batch", OF bind_all.simps(1)] event_rows_refines [OF ready])
  from refines_transaction [OF this] Cons show ?thesis by (simp add: insert_events_c_def insert_events_def)
qed

lemma upsert_conversion_refines:
  "refines faults (db_bind (run_stmt faults 6 upsert_conversion_sql
        [bind_text 1 (cv_click_token c), bind_int 2 (cv_ts c),
         (if cv_order_ref c = [] then bind_null 3 else bind_text 3 (cv_order_ref c)),
         bind_opt_int 4 (cv_amount c), bind_text 5 (cv_status c), bind_text 6 (cv_raw c)]) (\<lambda>_. db_return ()))
     (\<lambda>f. stmt_step f (upsert_conversion_stmt c))"
  by (rule refines_values [where vs = "[SqlText (cv_click_token c), SqlInt (cv_ts c), text_or_null (cv_order_ref c),
        opt_int (cv_amount c), SqlText (cv_status c), SqlText (cv_raw c)]"])
    (simp_all add: bind_eqs eval_nat_numeral upsert_conversion_sql_def upsert_conversion_stmt_def value_reads
      update_conversion_def [abs_def] sql_programs)

lemma known_token_refines:
  "refines faults (db_bind (run_stmt faults 1 token_sql [bind_text 1 tok]) (\<lambda>(found, st). db_return found))
     (\<lambda>f. stmt_read f (\<lambda>d. token_known d tok))"
  unfolding return_case_prod stmt_read_def
  by (rule refines_values [where vs = "[SqlText tok]"])
    (auto simp: bind_eqs token_sql_def sql_programs token_known_def filter_empty_conv filter_eq_Cons_iff split: list.split)

lemma record_conversion_refines: "refines faults (record_conversion_c faults c) (\<lambda>f. record_conversion f c)"
  unfolding record_conversion_c_def record_conversion_def
proof (rule refines_bind [OF known_token_refines])
  fix known
  show "refines faults (if \<not> known then db_return False else db_bind
        (db_bind (run_stmt faults 6 upsert_conversion_sql
          [bind_text 1 (cv_click_token c), bind_int 2 (cv_ts c),
           (if cv_order_ref c = [] then bind_null 3 else bind_text 3 (cv_order_ref c)),
           bind_opt_int 4 (cv_amount c), bind_text 5 (cv_status c), bind_text 6 (cv_raw c)]) (\<lambda>_. db_return ()))
        (\<lambda>_. db_return True))
      (\<lambda>f. if \<not> known then db_return False
        else db_bind (stmt_step f (upsert_conversion_stmt c)) (\<lambda>_. db_return True))"
    by (cases known) (simp_all only: not_True_eq_False not_False_eq_True if_True if_False refines_return
        refines_bind [OF upsert_conversion_refines refines_return])
qed

lemma rollup_daily_refines: "refines faults (rollup_daily_c faults a b) (\<lambda>f. rollup_daily f a b)"
  unfolding rollup_daily_c_def rollup_daily_def
  by (rule refines_values [where vs = "[SqlInt a, SqlInt b]"])
    (simp_all add: bind_eqs eval_nat_numeral rollup_sql_def value_reads sql_programs)

lemma prune_events_refines: "refines faults (prune_events_c faults t) (\<lambda>f. prune_events f t)"
  unfolding prune_events_c_def prune_events_def return_case_prod
  by (rule refines_values [where vs = "[SqlInt t]"])
    (simp_all add: bind_eqs prune_sql_def value_reads sql_programs prune_stmt_def)

section \<open>Types\<close>

text \<open>
  The errors of a statement that was bound wrongly: a parameter that does not exist, a NULL or a
  value of another type for a column that does not take it.
\<close>

definition type_error :: "sql_error \<Rightarrow> bool" where
  "type_error e \<longleftrightarrow> e \<in> {BindFailed, NotNullFailed, WrongType}"

definition well_typed :: "('d, 'a) dbm \<Rightarrow> bool" where
  "well_typed m \<longleftrightarrow> (\<forall>c e c'. m c = (Inl e, c') \<longrightarrow> \<not> type_error e)"

lemma well_typed_return: "well_typed (db_return a)"
  by (simp add: well_typed_def db_return_def)

lemma well_typed_bind: "well_typed m \<Longrightarrow> (\<And>x. well_typed (k x)) \<Longrightarrow> well_typed (db_bind m k)"
  by (auto simp: well_typed_def db_bind_def split: sum.splits prod.splits)

lemma well_typed_rethrow: "well_typed m \<Longrightarrow> well_typed h \<Longrightarrow> well_typed (db_rethrow_after m h)"
  by (fastforce simp: well_typed_def db_rethrow_after_def split: sum.splits prod.splits)

lemma well_typed_step: "(\<And>d e. h d = Inl e \<Longrightarrow> \<not> type_error e) \<Longrightarrow> well_typed (stmt_step faults h)"
  by (auto simp: well_typed_def dbm_simps Let_def type_error_def split: fault.splits sum.splits prod.splits)

lemma well_typed_read: "well_typed (stmt_read faults h)"
  unfolding stmt_read_def by (rule well_typed_step) simp

lemma well_typed_pragma: "(\<And>fk. well_typed (m fk)) \<Longrightarrow> well_typed (with_pragma m)"
  unfolding well_typed_def with_pragma_def by blast

lemma well_typed_exec: "well_typed (exec_begin faults)" "well_typed (exec_commit faults)" "well_typed (exec_rollback faults)"
  by (auto simp: well_typed_def dbm_simps Let_def type_error_def split: fault.splits if_splits)

lemma well_typed_transaction: "well_typed body \<Longrightarrow> well_typed (in_transaction faults body)"
  unfolding in_transaction_def by (intro well_typed_bind well_typed_rethrow well_typed_exec well_typed_return)

lemmas well_typed_intros = well_typed_pragma well_typed_return well_typed_bind well_typed_read well_typed_step well_typed_transaction

lemma well_typed_refined: "refines faults m spec \<Longrightarrow> (\<And>f. well_typed (spec f)) \<Longrightarrow> well_typed m"
  unfolding well_typed_def using refinesD by metis

lemma statement_errors:
  "insert_item_stmt fk it d = Inl e \<Longrightarrow> \<not> type_error e" "insert_tag_stmt slug title d = Inl e \<Longrightarrow> \<not> type_error e"
  "attach_tag_stmt fk i t d = Inl e \<Longrightarrow> \<not> type_error e" "add_image_stmt fk i img d = Inl e \<Longrightarrow> \<not> type_error e"
  "insert_event_stmt ev d = Inl e \<Longrightarrow> \<not> type_error e" "upsert_conversion_stmt c d = Inl e \<Longrightarrow> \<not> type_error e"
  by (auto simp: insert_item_stmt_def insert_tag_stmt_def attach_tag_stmt_def add_image_stmt_def insert_event_stmt_def
      upsert_conversion_stmt_def type_error_def Let_def split: if_splits)

lemma well_typed_event_rows: "well_typed (insert_event_rows faults batch)"
  by (induction batch) (auto intro!: well_typed_intros elim!: statement_errors(5))

lemma abstract_typed:
  "well_typed (list_partners f)" "well_typed (load_published_items f)" "well_typed (find_partner_by_code f code)"
  "well_typed (insert_item f it)" "well_typed (set_item_status f i status now)" "well_typed (upsert_tag f slug title)"
  "well_typed (attach_tag f i t)" "well_typed (add_image f i img)" "well_typed (insert_events f batch)"
  "well_typed (record_conversion f cv)" "well_typed (rollup_daily f day_from day_to)" "well_typed (prune_events f older_than)"
  by (auto simp: list_partners_def load_published_items_def find_partner_by_code_def insert_item_def set_item_status_def
      upsert_tag_def attach_tag_def add_image_def insert_events_def record_conversion_def rollup_daily_def prune_events_def Let_def
      dest: statement_errors intro!: well_typed_intros well_typed_event_rows split: option.split)

lemmas operations_typed =
  list_partners_refines [THEN well_typed_refined, OF abstract_typed(1)]
  load_published_items_refines [THEN well_typed_refined, OF abstract_typed(2)]
  find_partner_by_code_refines [THEN well_typed_refined, OF abstract_typed(3)]
  user_version_refines [THEN well_typed_refined, OF well_typed_read]
  insert_item_refines [THEN well_typed_refined, OF abstract_typed(4)]
  set_item_status_refines [THEN well_typed_refined, OF abstract_typed(5)]
  upsert_tag_refines [THEN well_typed_refined, OF abstract_typed(6)]
  attach_tag_refines [THEN well_typed_refined, OF abstract_typed(7)]
  add_image_refines [THEN well_typed_refined, OF abstract_typed(8)]
  insert_events_refines [THEN well_typed_refined, OF abstract_typed(9)]
  record_conversion_refines [THEN well_typed_refined, OF abstract_typed(10)]
  rollup_daily_refines [THEN well_typed_refined, OF abstract_typed(11)]
  prune_events_refines [THEN well_typed_refined, OF abstract_typed(12)]

text \<open>Reading: the values that come back have the type they are read with, so that no conversion is asked for.\<close>

lemma db_bind_reached:
  assumes "\<And>c x c'. m c = (Inr x, c') \<Longrightarrow> k x = k' x"
  shows "db_bind m k = db_bind m k'"
  by (rule ext) (auto simp: db_bind_def assms split: sum.split prod.split)

lemma selected_rows:
  assumes "\<And>ps. prog ps = query rows" and "query_rows faults 0 prog [] c = (Inr rs, c')"
  obtains d where "rs = rows d"
proof -
  obtain c1 where two: "collect faults (new_stmt 0 prog) c1 = (Inr rs, c')"
    using bound_then [OF bind_all.simps(1)] assms(2) unfolding query_rows_def by metis
  have "seen faults (rows (cn_db c1)) c1 (Inr rs) c'"
    by (rule collect_all [OF _ _ two, where k = "\<lambda>_. 0"]) (simp_all add: new_stmt_def assms(1) query_def)
  then show thesis by (intro that [of "cn_db c1"]) (simp add: seen_def)
qed

lemma first_row:
  assumes "prog vs = query rows" and "length vs = n" and "run_stmt faults n prog (bind_from 1 vs) c = (Inr (found, st), c')"
  obtains d where "found \<longleftrightarrow> rows d \<noteq> []" and "found \<longrightarrow> current_row st = hd (rows d)"
proof -
  let ?st = "(new_stmt n prog)\<lparr> st_params := vs \<rparr>"
  have bound: "bind_all (bind_from 1 vs) (new_stmt n prog) = Inr ?st"
    using bind_from_all [of "new_stmt n prog" "[]" "replicate n SqlNull" vs 1] assms(2) by (simp add: new_stmt_def)
  obtain c1 where two: "st_step faults ?st c1 = (Inr (found, st), c')"
    using bound_then [OF bound] assms(3) unfolding run_stmt_def by metis
  from two have "arrive (rows (cn_db c1)) (?st\<lparr> st_number := 0 \<rparr>) = (found, st)"
    by (auto simp: st_step_def new_stmt_def assms(1) query_def dest!: stmt_step_Inr)
  then show thesis
    by (intro that [of "cn_db c1"]) (auto simp: arrive_def current_row_def split: list.splits)
qed

lemma decoded_rows:
  assumes "\<And>ps. prog ps = query (\<lambda>d. map enc (rows d))" and "\<And>r. dec (enc r) = dec' (enc r)"
  shows "db_bind (query_rows faults 0 prog []) (\<lambda>rs. db_return (map dec rs)) =
    db_bind (query_rows faults 0 prog []) (\<lambda>rs. db_return (map dec' rs))"
proof (rule db_bind_reached)
  fix c rs c'
  assume "query_rows faults 0 prog [] c = (Inr rs, c')"
  then obtain d where "rs = map enc (rows d)" by (rule selected_rows [OF assms(1)])
  then show "db_return (map dec rs) = db_return (map dec' rs)" by (simp add: comp_def assms(2))
qed

lemma attach_unconverted:
  assumes "\<And>ps. prog ps = query (\<lambda>d. map enc (rows d))"
    and "\<And>conv r. column_int conv (enc r) 0 = parent r" and "\<And>conv r. push conv (enc r) = fn r"
  shows "attach_c conv faults prog index (push conv) items = attach_c conv' faults prog index (push conv') items"
  unfolding attach_c_def
proof (rule db_bind_reached)
  fix c rs c'
  assume "query_rows faults 0 prog [] c = (Inr rs, c')"
  then obtain d where rs: "rs = map enc (rows d)" by (rule selected_rows [OF assms(1)])
  have "attach index (\<lambda>cols. column_int cv cols 0) (push cv) rs items = attach index parent fn (rows d) items" for cv
    unfolding rs by (rule attach_map) (rule assms(2,3))+
  then show "db_return (attach index (\<lambda>cols. column_int conv cols 0) (push conv) rs items) =
      db_return (attach index (\<lambda>cols. column_int conv' cols 0) (push conv') rs items)" by simp
qed

lemma list_partners_unconverted: "list_partners_c conv faults = list_partners_c conv' faults"
  unfolding list_partners_c_def by (rule decoded_rows [OF select_partners_sql_def]) (simp add: partner_of_partner_columns)

lemma load_published_items_unconverted: "load_published_items_c conv faults = load_published_items_c conv' faults"
proof -
  have attached:
    "attach_c conv faults select_images_sql index (push_image_c conv) items = attach_c conv' faults select_images_sql index (push_image_c conv') items"
    "attach_c conv faults select_tags_sql index (push_tag_c conv) items = attach_c conv' faults select_tags_sql index (push_tag_c conv') items"
    "attach_c conv faults select_sizes_sql index (push_size_c conv) items = attach_c conv' faults select_sizes_sql index (push_size_c conv') items"
    "attach_c conv faults select_colors_sql index (push_color_c conv) items = attach_c conv' faults select_colors_sql index (push_color_c conv') items"
    for index items
    by (rule attach_unconverted [OF select_images_sql_def, where push = push_image_c]
        attach_unconverted [OF select_tags_sql_def, where push = push_tag_c]
        attach_unconverted [OF select_sizes_sql_def, where push = push_size_c]
        attach_unconverted [OF select_colors_sql_def, where push = push_color_c];
        simp only: select_columns push_columns)+
  show ?thesis
    unfolding load_published_items_c_def attached
    by (simp add: decoded_rows [OF select_items_sql_def, of "item_of_columns conv" "item_of_columns conv'"] item_of_item_columns)
qed

lemma single_row_unconverted:
  assumes "binds = bind_from 1 vs" and "length vs = n" and "prog vs = query (\<lambda>d. map enc (rows d))"
    and "\<And>r. dec (enc r) = dec' (enc r)"
  shows "db_bind (run_stmt faults n prog binds) (\<lambda>(found, st). db_return (g found (if found then Some (dec (current_row st)) else None))) =
    db_bind (run_stmt faults n prog binds) (\<lambda>(found, st). db_return (g found (if found then Some (dec' (current_row st)) else None)))"
proof (rule db_bind_reached)
  fix c x c'
  assume run: "run_stmt faults n prog binds c = (Inr x, c')"
  obtain found st where x: "x = (found, st)" by fastforce
  from run [unfolded x assms(1)] obtain d where "found \<longleftrightarrow> map enc (rows d) \<noteq> []" "found \<longrightarrow> current_row st = hd (map enc (rows d))"
    by (rule first_row [where rows = "\<lambda>d. map enc (rows d)", of prog vs n, OF assms(3,2)])
  then have "found \<Longrightarrow> dec (current_row st) = dec' (current_row st)" by (simp add: hd_map assms(4))
  then show "(case x of (found, st) \<Rightarrow> db_return (g found (if found then Some (dec (current_row st)) else None))) =
      (case x of (found, st) \<Rightarrow> db_return (g found (if found then Some (dec' (current_row st)) else None)))"
    by (simp add: x)
qed

lemma find_partner_unconverted: "find_partner_by_code_c conv faults code = find_partner_by_code_c conv' faults code"
proof -
  have eq: "(\<lambda>(found, st). db_return (if \<not> found then None else Some (partner_of_columns cv (current_row st)))) =
      (\<lambda>(found, st). db_return (if found then Some (partner_of_columns cv (current_row st)) else None))" for cv
    by (auto simp: fun_eq_iff)
  show ?thesis
    unfolding find_partner_by_code_c_def eq
    by (rule single_row_unconverted [of "[bind_text 1 code]" "[SqlText code]" 1 select_partner_sql partner_columns
        "\<lambda>d. filter (\<lambda>r. pr_code r = code) (db_partners d)" "partner_of_columns conv" "partner_of_columns conv'" faults "\<lambda>_ x. x"])
      (simp_all add: bind_eqs select_partner_sql_def partner_of_partner_columns)
qed

lemma user_version_unconverted: "user_version_c conv faults = user_version_c conv' faults"
proof -
  have eq: "(\<lambda>(found, st). db_return (if found then int32_of (column_int cv (current_row st) 0) else 0)) =
      (\<lambda>(found, st). db_return (case if found then Some (column_int cv (current_row st) 0) else None of None \<Rightarrow> 0 | Some v \<Rightarrow> int32_of v))"
    for cv by (auto simp: fun_eq_iff)
  show ?thesis
    unfolding user_version_c_def eq
    by (rule single_row_unconverted [of "[]" "[]" 0 user_version_sql "\<lambda>v. [SqlInt v]" "\<lambda>d. [db_user_version d]"
        "\<lambda>cols. column_int conv cols 0" "\<lambda>cols. column_int conv' cols 0" faults "\<lambda>_ x. case x of None \<Rightarrow> 0 | Some v \<Rightarrow> int32_of v"])
      (simp_all add: user_version_sql_def value_simps)
qed

lemma upsert_tag_unconverted: "upsert_tag_c conv faults slug title = upsert_tag_c conv' faults slug title"
  unfolding upsert_tag_c_def
  using single_row_unconverted [of "[bind_text 1 slug]" "[SqlText slug]" 1 select_tag_sql "\<lambda>t. [SqlInt (tr_id t)]"
      "\<lambda>d. filter (\<lambda>t. tr_slug t = slug) (db_tags d)" "\<lambda>cols. column_int conv cols 0" "\<lambda>cols. column_int conv' cols 0" faults "\<lambda>_ x. x"]
  by (simp add: bind_eqs select_tag_sql_def value_simps)

section \<open>The operations as a whole\<close>

text \<open>
  \<^bold>\<open>C22.\<close> Every operation of \<open>DbConn\<close>, written as its calls on the statement wrapper, with parameters bound by
  number and columns read by number, implements the operation the rest of the development reasons
  about. Whatever call fails, in the middle of a loop over rows or of a batch too, the outcome and the
  tables are those of the operation under some failure of sqlite; and when nothing fails they are
  those of the operation without failures.
\<close>

theorem db_statements_refine:
  "refines faults (list_partners_c conv faults) list_partners \<and>
   refines faults (load_published_items_c conv faults) load_published_items \<and>
   refines faults (find_partner_by_code_c conv faults code) (\<lambda>f. find_partner_by_code f code) \<and>
   refines faults (user_version_c conv faults) (\<lambda>f. stmt_read f (\<lambda>d. int32_of (db_user_version d))) \<and>
   refines faults (insert_item_c faults it) (\<lambda>f. insert_item f it) \<and>
   refines faults (set_item_status_c faults i status now) (\<lambda>f. set_item_status f i status now) \<and>
   refines faults (upsert_tag_c conv faults slug title) (\<lambda>f. upsert_tag f slug title) \<and>
   refines faults (attach_tag_c faults i t) (\<lambda>f. attach_tag f i t) \<and>
   refines faults (add_image_c faults i img) (\<lambda>f. add_image f i img) \<and>
   refines faults (insert_events_c faults batch) (\<lambda>f. insert_events f batch) \<and>
   refines faults (record_conversion_c faults cv) (\<lambda>f. record_conversion f cv) \<and>
   refines faults (rollup_daily_c faults day_from day_to) (\<lambda>f. rollup_daily f day_from day_to) \<and>
   refines faults (prune_events_c faults older_than) (\<lambda>f. prune_events f older_than)"
  by (intro conjI list_partners_refines load_published_items_refines find_partner_by_code_refines user_version_refines
      insert_item_refines set_item_status_refines upsert_tag_refines attach_tag_refines add_image_refines
      insert_events_refines record_conversion_refines rollup_daily_refines prune_events_refines)

text \<open>
  \<^bold>\<open>C23.\<close> The statements are well typed: no operation binds a parameter that does not exist, hands a NULL or a
  value of the wrong type to a column that does not take it, whatever it is called with; and no
  column is read as another type than it has, so that the results do not depend on the conversions
  sqlite offers.
\<close>

theorem db_statements_typed:
  "well_typed (list_partners_c conv faults) \<and> well_typed (load_published_items_c conv faults) \<and>
   well_typed (find_partner_by_code_c conv faults code) \<and> well_typed (user_version_c conv faults) \<and>
   well_typed (insert_item_c faults it) \<and> well_typed (set_item_status_c faults i status now) \<and>
   well_typed (upsert_tag_c conv faults slug title) \<and> well_typed (attach_tag_c faults i t) \<and>
   well_typed (add_image_c faults i img) \<and> well_typed (insert_events_c faults batch) \<and>
   well_typed (record_conversion_c faults cv) \<and> well_typed (rollup_daily_c faults day_from day_to) \<and>
   well_typed (prune_events_c faults older_than) \<and>
   list_partners_c conv faults = list_partners_c conv' faults \<and>
   load_published_items_c conv faults = load_published_items_c conv' faults \<and>
   find_partner_by_code_c conv faults code = find_partner_by_code_c conv' faults code \<and>
   user_version_c conv faults = user_version_c conv' faults \<and>
   upsert_tag_c conv faults slug title = upsert_tag_c conv' faults slug title"
  by (intro conjI operations_typed list_partners_unconverted load_published_items_unconverted find_partner_unconverted
      user_version_unconverted upsert_tag_unconverted)

end
