(* ===== verification/Http_System.thy ===== *)
theory Http_System
  imports Server_System
begin

text \<open>
  The HTTP thread of \<open>src/http_server.cpp\<close> with all its connections: one acceptor and one coroutine
  per connection on a single \<open>io_context\<close>. A coroutine gives up control only while it waits for its
  socket, so between two waits it runs alone; which coroutine is next, and what its socket yields, is
  up to Boost and the peers, so the thread is a step relation. It runs beside the database thread
  of \<open>Server_System\<close>, whose steps may come between any two of its own.
\<close>

section \<open>Sessions and steps\<close>

text \<open>Where a connection's coroutine waits, and after \<open>shutdown\<close> that it is over.\<close>

datatype coroutine = AwaitRead | AwaitWrite bool | Finished

text \<open>
  The requests a connection answered, with the random bytes each used, the response of \<open>dispatch\<close> and
  what was handed to the socket (\<open>None\<close> when Beast refused to prepare it).
\<close>

record session =
  ss_peer :: string
  ss_at :: coroutine
  ss_served :: "(request \<times> entropy \<times> response \<times> response option) list"

record http_thread =
  ht_accepting :: bool
  ht_stopped :: bool
  ht_io_stopped :: bool
  ht_sessions :: "session list"

definition new_session :: "string option \<Rightarrow> session" where
  "new_session ep = \<lparr> ss_peer = peer_ip ep, ss_at = AwaitRead, ss_served = [] \<rparr>"

text \<open>The thread \<open>start\<close> launches; without a bound and listening acceptor it has nothing to run.\<close>

definition http_started :: "bool \<Rightarrow> http_thread" where
  "http_started bound = \<lparr> ht_accepting = bound, ht_stopped = False, ht_io_stopped = False, ht_sessions = [] \<rparr>"

definition waits :: "http_thread \<Rightarrow> nat \<Rightarrow> coroutine \<Rightarrow> bool" where
  "waits h i pt \<longleftrightarrow> \<not> ht_io_stopped h \<and> i < length (ht_sessions h) \<and> ss_at (ht_sessions h ! i) = pt"

definition go_on :: "nat \<Rightarrow> (session \<Rightarrow> session) \<Rightarrow> http_thread \<Rightarrow> http_thread" where
  "go_on i f h = h\<lparr> ht_sessions := (ht_sessions h)[i := f (ht_sessions h ! i)] \<rparr>"

text \<open>The body of the loop from a read to the write of the response.\<close>

definition answered :: "'t web \<Rightarrow> request \<Rightarrow> entropy \<Rightarrow> response \<Rightarrow> session \<Rightarrow> session" where
  "answered web req en res ss = ss\<lparr>
     ss_at := (case handed web req res of None \<Rightarrow> Finished | Some out \<Rightarrow> AwaitWrite (rq_keep_alive req)),
     ss_served := ss_served ss @ [(req, en, res, handed web req res)] \<rparr>"

definition finish :: "session \<Rightarrow> session" where
  "finish ss = ss\<lparr> ss_at := Finished \<rparr>"

definition written :: "bool \<Rightarrow> session \<Rightarrow> session" where
  "written keep_alive ss = (if \<not> keep_alive then finish ss else ss\<lparr> ss_at := AwaitRead \<rparr>)"

text \<open>
  A failed accept other than an abort changes nothing and is no step. The steps of the database thread
  are those of the system that issue no click token.
\<close>

inductive http_step :: "'t web \<Rightarrow> http_thread \<times> 't system \<Rightarrow> http_thread \<times> 't system \<Rightarrow> bool" for web where
  accepted:
    "\<not> ht_io_stopped h \<Longrightarrow> ht_accepting h \<Longrightarrow> \<not> ht_stopped h \<Longrightarrow>
       http_step web (h, s) (h\<lparr> ht_sessions := ht_sessions h @ [new_session ep] \<rparr>, s)"
| accept_over:
    "\<not> ht_io_stopped h \<Longrightarrow> http_step web (h, s) (h\<lparr> ht_accepting := False \<rparr>, s)"
| read_request:
    "waits h i AwaitRead \<Longrightarrow>
     dispatch web fs en clock req (client_address req (ss_peer (ht_sessions h ! i))) (sy_http s) = (res, ctx) \<Longrightarrow>
       http_step web (h, s)
         (go_on i (answered web req en res) h, s\<lparr> sy_http := ctx, sy_issued := issue res en (sy_issued s) \<rparr>)"
| read_failed: "waits h i AwaitRead \<Longrightarrow> http_step web (h, s) (go_on i finish h, s)"
| write_done: "waits h i (AwaitWrite keep_alive) \<Longrightarrow> http_step web (h, s) (go_on i (written keep_alive) h, s)"
| write_failed: "waits h i (AwaitWrite keep_alive) \<Longrightarrow> http_step web (h, s) (go_on i finish h, s)"
| stop_flag: "http_step web (h, s) (h\<lparr> ht_stopped := True \<rparr>, s)"
| stop_io: "ht_stopped h \<Longrightarrow> http_step web (h, s) (h\<lparr> ht_io_stopped := True \<rparr>, s)"
| database: "step web s t \<Longrightarrow> sy_issued t = sy_issued s \<Longrightarrow> http_step web (h, s) (h, t)"

section \<open>What a connection has done\<close>

text \<open>
  Every response comes from \<open>dispatch\<close> on the request and the client's address; only the last
  request may have asked to close or got no response, and the coroutine waits for what comes next.
\<close>

definition answer_ok :: "'t web \<Rightarrow> string \<Rightarrow> request \<times> entropy \<times> response \<times> response option \<Rightarrow> bool" where
  "answer_ok web peer = (\<lambda>(req, en, res, out). \<exists>fs clock ctx ctx'.
     dispatch web fs en clock req (client_address req peer) ctx = (res, ctx') \<and> out = handed web req res)"

definition keeps_open :: "request \<times> entropy \<times> response \<times> response option \<Rightarrow> bool" where
  "keeps_open x \<longleftrightarrow> rq_keep_alive (fst x) \<and> snd (snd (snd x)) \<noteq> None"

definition session_ok :: "'t web \<Rightarrow> session \<Rightarrow> bool" where
  "session_ok web ss \<longleftrightarrow>
     (\<forall>x \<in> set (ss_served ss). answer_ok web (ss_peer ss) x) \<and> (\<forall>x \<in> set (butlast (ss_served ss)). keeps_open x) \<and>
     (case ss_at ss of
        AwaitRead \<Rightarrow> \<forall>x \<in> set (ss_served ss). keeps_open x
      | AwaitWrite k \<Rightarrow> ss_served ss \<noteq> [] \<and> snd (snd (snd (last (ss_served ss)))) \<noteq> None \<and> k = keeps_open (last (ss_served ss))
      | Finished \<Rightarrow> True)"

text \<open>
  The click tokens of the redirects that were answered; with a Beast that does what it documents, each of
  them was handed to the socket.
\<close>

definition redirect_token :: "request \<times> entropy \<times> response \<times> response option \<Rightarrow> string set" where
  "redirect_token = (\<lambda>(req, en, res, out). if rs_status res = 302 then {make_click_token (en_token en)} else {})"

definition session_tokens :: "session \<Rightarrow> string set" where
  "session_tokens ss = (\<Union>x \<in> set (ss_served ss). redirect_token x)"

definition sent_tokens :: "http_thread \<Rightarrow> string set" where
  "sent_tokens h = (\<Union>ss \<in> set (ht_sessions h). session_tokens ss)"

lemma session_ok_new: "session_ok web (new_session ep)"
  by (simp add: session_ok_def new_session_def)

lemma session_ok_finish: "session_ok web ss \<Longrightarrow> session_ok web (finish ss)"
  by (simp add: session_ok_def finish_def)

lemma set_butlast_last: "xs \<noteq> [] \<Longrightarrow> set xs = insert (last xs) (set (butlast xs))"
  by (induction xs) auto

lemma session_ok_written:
  assumes "session_ok web ss" and "ss_at ss = AwaitWrite k"
  shows "session_ok web (written k ss)"
proof (cases k)
  case True
  from assms True have "\<forall>x \<in> set (ss_served ss). keeps_open x"
    by (auto simp: session_ok_def set_butlast_last)
  then show ?thesis using assms True by (simp add: session_ok_def written_def)
next
  case False
  then show ?thesis using session_ok_finish [OF assms(1)] by (simp add: written_def)
qed

lemma session_ok_answered:
  assumes "session_ok web ss" and "ss_at ss = AwaitRead"
    and "dispatch web fs en clock req (client_address req (ss_peer ss)) ctx = (res, ctx')"
  shows "session_ok web (answered web req en res ss)"
proof -
  have "answer_ok web (ss_peer ss) (req, en, res, handed web req res)"
    unfolding answer_ok_def using assms(3) by blast
  with assms(1,2) show ?thesis by (cases "handed web req res") (simp_all add: session_ok_def answered_def keeps_open_def)
qed

lemma answered_tokens: "session_tokens (answered web req en res ss) = issue res en (session_tokens ss)"
  by (auto simp: session_tokens_def answered_def redirect_token_def issue_def)

lemma session_tokens_kept:
  "session_tokens (finish ss) = session_tokens ss" "session_tokens (written k ss) = session_tokens ss"
  "session_tokens (new_session ep) = {}"
  by (simp_all add: session_tokens_def finish_def written_def new_session_def)

lemma sent_tokens_go_on:
  assumes "i < length (ht_sessions h)" and "\<And>ss. session_tokens ss \<subseteq> session_tokens (f ss)"
  shows "sent_tokens h \<union> session_tokens (f (ht_sessions h ! i)) \<subseteq> sent_tokens (go_on i f h)"
proof
  fix t
  assume "t \<in> sent_tokens h \<union> session_tokens (f (ht_sessions h ! i))"
  then obtain j where "j < length (ht_sessions h)"
    "t \<in> session_tokens ((ht_sessions h)[i := f (ht_sessions h ! i)] ! j)"
    using assms by (fastforce simp: sent_tokens_def in_set_conv_nth nth_list_update)
  moreover from this(1) have "(ht_sessions h)[i := f (ht_sessions h ! i)] ! j \<in> set ((ht_sessions h)[i := f (ht_sessions h ! i)])"
    by (intro nth_mem) simp
  ultimately show "t \<in> sent_tokens (go_on i f h)" by (auto simp: sent_tokens_def go_on_def)
qed

section \<open>Every run of the HTTP thread is a run of the system\<close>

definition thread_inv :: "'t web \<Rightarrow> 't system \<Rightarrow> http_thread \<times> 't system \<Rightarrow> bool" where
  "thread_inv web s0 = (\<lambda>(h, s). (step web)\<^sup>*\<^sup>* s0 s \<and> (\<forall>ss \<in> set (ht_sessions h). session_ok web ss) \<and>
     sy_issued s \<subseteq> sy_issued s0 \<union> sent_tokens h)"

lemma thread_inv_go_on:
  assumes "thread_inv web s0 (h, s)" and "i < length (ht_sessions h)" and "session_ok web (f (ht_sessions h ! i))"
    and "\<And>ss. session_tokens ss \<subseteq> session_tokens (f ss)"
    and "(step web)\<^sup>*\<^sup>* s t" and "sy_issued t \<subseteq> sy_issued s \<union> session_tokens (f (ht_sessions h ! i))"
  shows "thread_inv web s0 (go_on i f h, t)"
proof -
  have "\<forall>ss \<in> set (ht_sessions (go_on i f h)). session_ok web ss"
    using assms(1,3) set_update_subset_insert [of "ht_sessions h" i] by (fastforce simp: thread_inv_def go_on_def)
  then show ?thesis
    using assms(1,5,6) sent_tokens_go_on [of i h f, OF assms(2,4)] unfolding thread_inv_def by fastforce
qed

lemma thread_inv_step:
  assumes "http_step web x y" and "thread_inv web s0 x"
  shows "thread_inv web s0 y"
  using assms
proof (induction rule: http_step.induct)
  case (accepted h s ep)
  then show ?case by (auto simp: thread_inv_def session_ok_new sent_tokens_def)
next
  case (read_request h i fs en clock req s res ctx)
  then have "session_ok web (ht_sessions h ! i)" by (auto simp: thread_inv_def waits_def)
  with read_request have "session_ok web (answered web req en res (ht_sessions h ! i))"
    by (intro session_ok_answered) (auto simp: waits_def)
  moreover have "step web s (s\<lparr> sy_http := ctx, sy_issued := issue res en (sy_issued s) \<rparr>)"
    using step.request [OF read_request(2)] .
  ultimately show ?case
    using read_request
    by (intro thread_inv_go_on) (auto simp: answered_tokens issue_def waits_def)
next
  case (read_failed h i s)
  then show ?case
    by (intro thread_inv_go_on session_ok_finish) (auto simp: session_tokens_kept thread_inv_def waits_def)
next
  case (write_done h i keep_alive s)
  then show ?case
    by (intro thread_inv_go_on session_ok_written) (auto simp: session_tokens_kept thread_inv_def waits_def)
next
  case (write_failed h i keep_alive s)
  then show ?case
    by (intro thread_inv_go_on session_ok_finish) (auto simp: session_tokens_kept thread_inv_def waits_def)
qed (auto simp: thread_inv_def sent_tokens_def)

interpretation http: inductive_invariant "\<lambda>x. x = (http_started bound, s0)" "http_step web" "thread_inv web s0"
  for web bound s0
  by (unfold_locales, simp add: thread_inv_def http_started_def sent_tokens_def, blast intro: thread_inv_step)

text \<open>What a connection answered it also handed to its socket.\<close>

lemma answer_handed:
  assumes "beast_ok web" and "answer_ok web peer (req, en, res, out)"
  shows "\<exists>r. out = Some r \<and> rs_status r = rs_status res \<and> rs_body r = rs_body res \<and>
    header_values r ''Location'' = header_values res ''Location''"
proof -
  from assms(2) obtain fs clock ctx ctx' where
    "dispatch web fs en clock req (client_address req peer) ctx = (res, ctx')" "out = handed web req res"
    by (auto simp: answer_ok_def)
  with handed_Some [OF assms(1)] show ?thesis by fastforce
qed

section \<open>Every connection can run\<close>

text \<open>
  The converse for one connection: whatever its socket yields, the thread has a run in which this
  connection alone answers, and its responses and the context afterwards are those of
  \<open>handle_connection\<close>.
\<close>

lemma waits_go_on:
  "waits h i k \<Longrightarrow> waits (go_on i f h) i (ss_at (f (ht_sessions h ! i)))"
  "waits h i k \<Longrightarrow> ht_sessions (go_on i f h) ! i = f (ht_sessions h ! i)"
  by (simp_all add: waits_def go_on_def)

definition responses :: "http_thread \<Rightarrow> nat \<Rightarrow> response list" where
  "responses h i = List.map_filter (snd \<circ> snd \<circ> snd) (ss_served (ht_sessions h ! i))"

lemma answer_and_write:
  assumes "waits h i AwaitRead"
    and "dispatch web fs en clock req (client_address req (ss_peer (ht_sessions h ! i))) (sy_http s) = (res, ctx)"
    and "handed web req res = Some out"
  shows "\<exists>h' s'. (http_step web)\<^sup>*\<^sup>* (h, s) (h', s') \<and> sy_http s' = ctx \<and> ss_peer (ht_sessions h' ! i) = ss_peer (ht_sessions h ! i) \<and>
    responses h' i = responses h i @ [out] \<and> waits h' i (if ok \<and> rq_keep_alive req then AwaitRead else Finished)"
proof -
  let ?h = "go_on i (answered web req en res) h" and ?s = "s\<lparr> sy_http := ctx, sy_issued := issue res en (sy_issued s) \<rparr>"
  let ?w = "if ok then written (rq_keep_alive req) else finish"
  have one: "http_step web (h, s) (?h, ?s)" by (rule http_step.read_request [OF assms(1,2)])
  have w: "waits ?h i (AwaitWrite (rq_keep_alive req))"
    using waits_go_on(1) [OF assms(1), of "answered web req en res"] by (simp add: answered_def assms(3))
  have two: "http_step web (?h, ?s) (go_on i ?w ?h, ?s)"
    using http_step.write_done [OF w] http_step.write_failed [OF w] by (cases ok) simp_all
  have "(http_step web)\<^sup>*\<^sup>* (h, s) (go_on i ?w ?h, ?s)" using one two by (rule converse_rtranclp_into_rtranclp [OF _ r_into_rtranclp])
  moreover have "waits (go_on i ?w ?h) i (if ok \<and> rq_keep_alive req then AwaitRead else Finished)"
    using waits_go_on(1) [OF w, of ?w] by (auto simp: written_def finish_def split: if_splits)
  moreover have "responses (go_on i ?w ?h) i = responses h i @ [out]"
    "ss_peer (ht_sessions (go_on i ?w ?h) ! i) = ss_peer (ht_sessions h ! i)"
    by (simp_all add: responses_def waits_go_on(2) [OF w] waits_go_on(2) [OF assms(1)] answered_def written_def finish_def
        assms(3) List.map_filter_def)
  ultimately show ?thesis by (intro exI [of _ "go_on i ?w ?h"] exI [of _ ?s]) simp
qed

lemma connection_runs:
  assumes "beast_ok web" and "waits h i AwaitRead"
    and "handle_connection web fs (ss_peer (ht_sessions h ! i)) rounds (sy_http s) = (out, ctx)"
  shows "\<exists>h' s'. (http_step web)\<^sup>*\<^sup>* (h, s) (h', s') \<and> responses h' i = responses h i @ out \<and> sy_http s' = ctx"
  using assms(2,3)
proof (induction rounds arbitrary: h s out)
  case (Cons rd rest)
  show ?case
  proof (cases "rd_read rd")
    case (ReadRequest req)
    obtain res ctx1 where d: "dispatch web fs (rd_entropy rd) (rd_clock rd) req
        (client_address req (ss_peer (ht_sessions h ! i))) (sy_http s) = (res, ctx1)" by fastforce
    from handed_Some [OF assms(1) d] obtain r where r: "handed web req res = Some r" by blast
    from answer_and_write [OF Cons.prems(1) d r, of "rd_written rd"] obtain h1 s1 where one:
      "(http_step web)\<^sup>*\<^sup>* (h, s) (h1, s1)" "sy_http s1 = ctx1" "ss_peer (ht_sessions h1 ! i) = ss_peer (ht_sessions h ! i)"
      "responses h1 i = responses h i @ [r]" "waits h1 i (if rd_written rd \<and> rq_keep_alive req then AwaitRead else Finished)"
      by blast
    show ?thesis
    proof (cases "rd_written rd \<and> rq_keep_alive req")
      case True
      obtain out1 ctx2 where rest: "handle_connection web fs (ss_peer (ht_sessions h1 ! i)) rest (sy_http s1) = (out1, ctx2)"
        by fastforce
      with Cons.prems(2) ReadRequest d r True one have out: "out = r # out1" "ctx = ctx2" by simp_all
      from True one(5) have "waits h1 i AwaitRead" by simp
      from Cons.IH [OF this rest [folded out(2)]] one(1,4) out(1) show ?thesis
        by (metis (no_types, lifting) append.assoc append_Cons append_Nil rtranclp_trans)
    next
      case False
      with Cons.prems(2) ReadRequest d r have "out = [r]" "ctx = ctx1" by auto
      with one show ?thesis by auto
    qed
  qed (use Cons.prems in \<open>auto intro!: exI [of _ h] exI [of _ s]\<close>)
qed (metis append_Nil2 handle_connection.simps(1) prod.inject rtranclp.rtrancl_refl)

end
