(* ===== verification/Stored_Data.thy ===== *)
theory Stored_Data
  imports Server_System
begin

text \<open>
  What the rows of the metrics tables can hold. Handlers put numbers that fit their C++ types,
  a documented class of user agent and a fixed-length hash into every event, and a checked status
  and amount into every conversion; the queues and the database thread carry them to the tables
  unchanged. The development keeps \<open>int64_t\<close> and \<open>int\<close> fields as unbounded integers; that none of
  the stored ones leaves its type is shown here.
\<close>

section \<open>Rows\<close>

text \<open>
  What is relied on of the libraries: \<open>crypto_generichash\<close> fills the whole buffer when it succeeds,
  and a cast to \<open>int64_t\<close>, also an undefined one, yields an \<open>int64_t\<close>.
\<close>

definition lib_ok :: "'t web \<Rightarrow> bool" where
  "lib_ok web \<longleftrightarrow> (\<forall>n ip secret digest. web_generichash web n ip secret = Some digest \<longrightarrow> length digest = n) \<and>
     (\<forall>d. in_int64 (web_wild_cast web d))"

definition event_row_ok :: "event_row \<Rightarrow> bool" where
  "event_row_ok r \<longleftrightarrow> pred_option in_int64 (er_item_id r) \<and> pred_option in_int32 (er_position r) \<and>
     er_type r \<in> range event_type_to_string \<and> er_ua_class r \<in> {''bot'', ''mobile'', ''desktop''} \<and>
     (\<exists>digest. er_ip_hash r = Some digest \<and> length digest = crypto_generichash_BYTES_MIN)"

definition conversion_row_ok :: "conversion_row \<Rightarrow> bool" where
  "conversion_row_ok r \<longleftrightarrow> conversion_status_ok (cr_status r) \<and> cr_click_token r \<noteq> [] \<and> pred_option in_int64 (cr_amount_kopek r)"

definition rows_ok :: "database \<Rightarrow> bool" where
  "rows_ok d \<longleftrightarrow> list_all event_row_ok (db_events d) \<and> list_all conversion_row_ok (db_conversions d)"

lemma hash_ip_length:
  assumes "lib_ok web"
  shows "length (hash_ip (web_generichash web) ip secret) = crypto_generichash_BYTES_MIN"
  using assms by (simp add: lib_ok_def hash_ip_def split: option.split)

lemma event_row_ok_of:
  assumes "lib_ok web" and "event_valid web ev"
  shows "event_row_ok (event_row_of rowid ev)"
proof -
  from assms(2) obtain ip secret where "ev_ip_hash ev = hash_ip (web_generichash web) ip secret" by (auto simp: event_valid_def)
  with hash_ip_length [OF assms(1)] have len: "length (ev_ip_hash ev) = crypto_generichash_BYTES_MIN" by simp
  then have "ev_ip_hash ev \<noteq> []" by (auto simp: crypto_generichash_BYTES_MIN_def)
  with len assms(2) show ?thesis by (auto simp: event_row_ok_def event_row_of_def event_valid_def)
qed

lemma postback_amount:
  assumes "lib_ok web" and "postback_valid web cv"
  shows "pred_option in_int64 (cv_amount cv)"
  using assms by (cases "cv_amount cv") (auto simp: lib_ok_def postback_valid_def)

section \<open>Operations\<close>

lemma insert_event_rows_ok:
  assumes "lib_ok web" and "event_valid web ev" and "rows_ok d" and "insert_event_stmt ev d = Inr (u, d')"
  shows "rows_ok d'"
  using assms event_row_ok_of [OF assms(1,2)] by (auto simp: insert_event_stmt_def rows_ok_def split: if_splits)

lemma insert_events_rows_ok:
  assumes "lib_ok web" and "list_all (event_valid web) batch"
  shows "preserves rows_ok (insert_events faults batch)"
proof -
  have "preserves rows_ok (insert_event_rows faults batch)"
    using assms(2)
    by (induction batch) (auto intro!: preserves_intros preserves_step intro: insert_event_rows_ok [OF assms(1)])
  then show ?thesis by (simp add: insert_events_def preserves_intros)
qed

lemma upsert_conversion_ok:
  assumes "lib_ok web" and "postback_valid web cv" and "rows_ok d" and "upsert_conversion_stmt cv d = Inr (u, d')"
  shows "rows_ok d'"
  using assms postback_amount [OF assms(1,2)]
  by (auto simp: upsert_conversion_stmt_def rows_ok_def list_all_iff conversion_row_ok_def update_conversion_def postback_valid_def
      split: if_splits)

lemma record_conversion_ok:
  assumes "lib_ok web" and "postback_valid web cv"
  shows "preserves rows_ok (record_conversion faults cv)"
proof -
  have "preserves rows_ok (db_bind (stmt_step faults (upsert_conversion_stmt cv)) (\<lambda>_. db_return True))"
    by (intro preserves_intros preserves_step) (rule upsert_conversion_ok [OF assms])
  then show ?thesis unfolding record_conversion_def by (auto intro!: preserves_intros)
qed

lemma maintenance_rows_ok: "preserves rows_ok (maintenance faults cfg now)"
  unfolding maintenance_def Let_def rollup_daily_def prune_events_def
  by (intro preserves_intros preserves_step) (auto simp: rows_ok_def list_all_iff rollup_stmt_def prune_stmt_def)

section \<open>The invariant\<close>

definition data_inv :: "'t web \<Rightarrow> 't system \<Rightarrow> bool" where
  "data_inv web s \<longleftrightarrow> lib_ok web \<and> conn_ok rows_ok (sy_conn s) \<and>
     list_all (event_valid web) (eq_pending (hc_events (sy_http s))) \<and>
     list_all (postback_valid web) (cq_pending (hc_conversions (sy_http s))) \<and>
     (case sy_phase s of
        Writing batch \<Rightarrow> list_all (event_valid web) batch | Recording cvs \<Rightarrow> list_all (postback_valid web) cvs | _ \<Rightarrow> True)"

lemma data_inv_request:
  assumes "data_inv web s" and "dispatch web fs en clock req ip (sy_http s) = (res, ctx)"
  shows "data_inv web (s\<lparr> sy_http := ctx, sy_issued := T \<rparr>)"
proof -
  from clean_dispatch [OF assms(2), unfolded clean_request_def] obtain evs where
    "hc_events ctx = push_all evs (hc_events (sy_http s))" "list_all (event_valid web) evs"
    and cvs: "hc_conversions ctx = hc_conversions (sy_http s) \<or>
      (\<exists>cv. postback_valid web cv \<and> hc_conversions ctx = snd (conversion_push cv (hc_conversions (sy_http s))))"
    by (auto simp: list_all_iff)
  with push_all_set [of evs "hc_events (sy_http s)"] assms(1) have "list_all (event_valid web) (eq_pending (hc_events ctx))"
    by (auto simp: data_inv_def list_all_iff)
  moreover have "list_all (postback_valid web) (cq_pending (hc_conversions ctx))"
    using cvs assms(1) by (auto simp: data_inv_def conversion_push_def)
  ultimately show ?thesis using assms(1) by (simp add: data_inv_def)
qed

text \<open>A step that works on the connection and goes to a phase with checked data.\<close>

lemma data_inv_conn:
  assumes "data_inv web s" and "m (sy_conn s) = (r, c)" and "preserves rows_ok m"
  shows "conn_ok rows_ok c"
  using assms preservesD [OF assms(3) _ assms(2)] by (simp add: data_inv_def)

lemma data_inv_step:
  assumes "data_inv web s" and "step web s t"
  shows "data_inv web t"
  using assms(2)
proof (cases rule: step.cases)
  case request
  with assms(1) show ?thesis by (simp add: data_inv_request)
next
  case (refreshed faults now cat c addr)
  with data_inv_conn [OF assms(1) _ load_snapshot_preserves] assms(1) show ?thesis by (auto simp: data_inv_def)
next
  case (refresh_failed faults now e c)
  with data_inv_conn [OF assms(1) _ load_snapshot_preserves] assms(1) show ?thesis by (auto simp: data_inv_def)
next
  case (drain_clicks batch q)
  with assms(1) show ?thesis by (auto simp: data_inv_def event_drain_def)
next
  case (write_clicks batch faults u c)
  with assms(1) data_inv_conn [OF assms(1) _ insert_events_rows_ok] show ?thesis by (auto simp: data_inv_def)
next
  case (write_failed batch faults e c)
  with assms(1) data_inv_conn [OF assms(1) _ insert_events_rows_ok] show ?thesis by (auto simp: data_inv_def)
next
  case (drain_postbacks batch q)
  with assms(1) show ?thesis by (auto simp: data_inv_def conversion_drain_def)
next
  case (record_next cv cvs faults matched c)
  with assms(1) data_inv_conn [OF assms(1) _ record_conversion_ok] show ?thesis by (auto simp: data_inv_def)
next
  case (record_failed cv cvs faults e c)
  with assms(1) data_inv_conn [OF assms(1) _ record_conversion_ok] show ?thesis by (auto simp: data_inv_def)
next
  case recorded
  with assms(1) show ?thesis by (simp add: data_inv_def)
next
  case (maintain faults cfg now r c)
  with data_inv_conn [OF assms(1) _ maintenance_rows_ok] assms(1) show ?thesis by (auto simp: data_inv_def)
qed

interpretation stored: inductive_invariant "\<lambda>s. lib_ok web \<and> initial s \<and> rows_ok (cn_db (sy_conn s))" "step web" "data_inv web"
  for web
  by (unfold_locales, simp add: data_inv_def initial_def conn_ok_def, rule data_inv_step)

end
