(* ===== verification/Funnel.thy ===== *)
theory Funnel
  imports Server_System
begin

text \<open>
  From the click to the money: what the two threads promise together about a click whose postback
  comes back. A conversion is acknowledged to the network long before it is written, so this is a
  statement about runs: how many actions of the database thread it takes until the row is there,
  whatever requests come in between.
\<close>

section \<open>Outside a transaction\<close>

definition closed_call :: "('d, 'a) dbm \<Rightarrow> bool" where
  "closed_call m \<longleftrightarrow> (\<forall>c r c'. cn_saved c = None \<longrightarrow> m c = (r, c') \<longrightarrow> cn_saved c' = None)"

lemma closed_callD: "closed_call m \<Longrightarrow> cn_saved c = None \<Longrightarrow> m c = (r, c') \<Longrightarrow> cn_saved c' = None"
  unfolding closed_call_def by blast

lemma closed_call_step: "closed_call (stmt_step faults f)"
  unfolding closed_call_def by (auto elim: stmt_step_cases)

lemma closed_call_read: "closed_call (stmt_read faults f)"
  unfolding stmt_read_def by (rule closed_call_step)

lemma closed_call_return: "closed_call (db_return a)"
  by (simp add: closed_call_def db_return_def)

lemma closed_call_bind:
  assumes "closed_call m" and "\<And>a. closed_call (f a)"
  shows "closed_call (db_bind m f)"
  unfolding closed_call_def
proof (intro allI impI)
  fix c r c'
  assume saved: "cn_saved c = None" and run: "db_bind m f c = (r, c')"
  obtain r1 c1 where one: "m c = (r1, c1)" by fastforce
  from closed_callD [OF assms(1) saved one] have saved1: "cn_saved c1 = None" .
  show "cn_saved c' = None"
  proof (cases r1)
    case (Inl e)
    with run one saved1 show ?thesis by (simp add: db_bind_def)
  next
    case (Inr a)
    with run one closed_callD [OF assms(2) saved1] show ?thesis by (simp add: db_bind_def)
  qed
qed

lemmas closed_call_intros = closed_call_step closed_call_read closed_call_return closed_call_bind

lemma closed_load_snapshot: "closed_call (load_snapshot faults now)"
  unfolding load_snapshot_def load_published_items_def list_partners_def Let_def by (intro closed_call_intros)

lemma closed_maintenance: "closed_call (maintenance faults cfg now)"
  unfolding maintenance_def Let_def rollup_daily_def prune_events_def by (intro closed_call_intros)

lemma closed_record_conversion: "closed_call (record_conversion faults cv)"
  unfolding record_conversion_def by (auto intro!: closed_call_intros)

section \<open>What each database action does to a click and an order\<close>

definition stored_click :: "string \<Rightarrow> ts_ms \<Rightarrow> database \<Rightarrow> bool" where
  "stored_click tok ts d \<longleftrightarrow> (\<exists>r \<in> set (db_events d). er_click_token r = Some tok \<and> er_ts r = ts)"

definition is_click :: "string \<Rightarrow> ts_ms \<Rightarrow> event \<Rightarrow> bool" where
  "is_click tok ts ev \<longleftrightarrow> ev_click_token ev = tok \<and> ev_ts ev = ts"

definition paid :: "string \<Rightarrow> database \<Rightarrow> bool" where
  "paid ref d \<longleftrightarrow> order_rows ref d \<noteq> []"

lemma stored_click_known: "stored_click tok ts d \<Longrightarrow> token_known d tok"
  by (force simp: stored_click_def token_known_def)

lemma insert_events_Inr:
  assumes "insert_events faults batch c = (Inr u, c')" and "cn_saved c = None"
  shows "cn_saved c' = None \<and> cn_db c' = append_events batch (cn_db c)"
proof (cases "batch = []")
  case True
  with assms show ?thesis by (auto simp: insert_events_def db_return_def)
next
  case False
  with assms(1) have "in_transaction faults (insert_event_rows faults batch) c = (Inr u, c')"
    by (simp add: insert_events_def)
  from event_batch.atomic [OF this assms(2)] obtain c1 c2 where
    "cn_db c1 = cn_db c" "insert_event_rows faults batch c1 = (Inr u, c2)" "cn_saved c' = None" "cn_db c' = cn_db c2"
    by auto
  with insert_event_rows_result show ?thesis by metis
qed

lemma append_events_stores:
  assumes "ev \<in> set batch" and "is_click tok ts ev" and "tok \<noteq> []"
  shows "stored_click tok ts (append_events batch d)"
proof -
  obtain rows where rows: "append_events batch d = d\<lparr> db_events := db_events d @ rows \<rparr>"
    "list_all2 (\<lambda>row ev. row = event_row_of (er_id row) ev) rows batch"
    using append_events_rows [of batch d] by blast
  from assms(1) obtain k where "k < length batch" "batch ! k = ev" by (auto simp: in_set_conv_nth)
  with rows(2) have "rows ! k = event_row_of (er_id (rows ! k)) ev" "k < length rows"
    by (auto simp: list_all2_conv_all_nth)
  with assms(2,3) have "rows ! k \<in> set rows" "er_click_token (rows ! k) = Some tok" "er_ts (rows ! k) = ts"
    by (auto simp: is_click_def event_row_of_def dest: arg_cong [where f = er_ts] arg_cong [where f = er_click_token])
  then show ?thesis by (auto simp: stored_click_def rows(1))
qed

lemma append_events_frame:
  "stored_click tok ts d \<Longrightarrow> stored_click tok ts (append_events batch d)" "paid ref (append_events batch d) = paid ref d"
proof -
  obtain rows where "append_events batch d = d\<lparr> db_events := db_events d @ rows \<rparr>"
    using append_events_rows [of batch d] by blast
  then show "stored_click tok ts d \<Longrightarrow> stored_click tok ts (append_events batch d)"
    "paid ref (append_events batch d) = paid ref d"
    by (auto simp: stored_click_def paid_def order_rows_def)
qed

lemma record_conversion_frame:
  assumes "record_conversion faults cv c = (Inr matched, c')"
  shows "stored_click tok ts (cn_db c') = stored_click tok ts (cn_db c)" "paid ref (cn_db c) \<Longrightarrow> paid ref (cn_db c')"
proof -
  have "db_events (cn_db c') = db_events (cn_db c) \<and> (paid ref (cn_db c) \<longrightarrow> paid ref (cn_db c'))"
    using assms
  proof (cases rule: record_conversion_cases)
    case known
    from known(3) show ?thesis
      by (cases rule: upsert_conversion_cases) (auto simp: paid_def order_rows_def filter_empty_conv)
  qed simp
  then show "stored_click tok ts (cn_db c') = stored_click tok ts (cn_db c)" "paid ref (cn_db c) \<Longrightarrow> paid ref (cn_db c')"
    by (simp_all add: stored_click_def)
qed

lemma record_conversion_pays:
  assumes "record_conversion faults cv c = (Inr matched, c')" and "token_known (cn_db c) (cv_click_token cv)"
    and "cv_order_ref cv \<noteq> []"
  shows "paid (cv_order_ref cv) (cn_db c')"
  using assms(1)
proof (cases rule: record_conversion_cases)
  case unknown
  with assms(2) show ?thesis by simp
next
  case known
  from known(3) show ?thesis
    by (cases rule: upsert_conversion_cases)
      (use assms(3) in \<open>auto simp: paid_def order_rows_def filter_empty_conv image_iff\<close>)
qed

lemma closed_preserves:
  assumes "preserves P m" and "cn_saved c = None" and "m c = (r, c')" and "P (cn_db c)"
  shows "P (cn_db c')"
  using preservesD [OF assms(1) _ assms(3)] assms(2,4) by (simp add: conn_ok_def)

lemma maintenance_paid: "preserves (paid ref) (maintenance faults cfg now)"
  unfolding maintenance_def Let_def rollup_daily_def prune_events_def
  by (intro preserves_intros preserves_step) (auto simp: paid_def order_rows_def rollup_stmt_def prune_stmt_def)

text \<open>Maintenance with a cutoff before the click keeps it.\<close>

lemma maintenance_keeps_click:
  assumes "prune_cutoff cfg now \<le> ts"
  shows "preserves (stored_click tok ts) (maintenance faults cfg now)"
  unfolding maintenance_def Let_def rollup_daily_def prune_events_def using assms
  by (intro preserves_intros preserves_step) (auto simp: stored_click_def rollup_stmt_def prune_stmt_def)

section \<open>Calm runs\<close>

text \<open>
  A flush that fails loses its batch, and a click that was pruned is unknown to its postback, so
  nothing can be promised across them. A step is calm when it is none of these: it does not leave
  the flush by an exception, and it keeps the events from time \<open>kept\<close> on. Requests of any
  kind, failed refreshes and failed maintenance are allowed.
\<close>

definition flush_failed :: "phase \<Rightarrow> phase \<Rightarrow> bool" where
  "flush_failed ph ph' \<longleftrightarrow> ph' = Ready \<and> ph \<noteq> Ready \<and> ph \<noteq> Recording []"

definition events_kept :: "ts_ms \<Rightarrow> database \<Rightarrow> database \<Rightarrow> bool" where
  "events_kept kept d d' \<longleftrightarrow> list_all (\<lambda>r. kept \<le> er_ts r \<longrightarrow> r \<in> set (db_events d')) (db_events d)"

definition calm_step :: "'t web \<Rightarrow> ts_ms \<Rightarrow> 't system \<Rightarrow> 't system \<Rightarrow> bool" where
  "calm_step web kept s t \<longleftrightarrow> step web s t \<and> \<not> flush_failed (sy_phase s) (sy_phase t) \<and>
     events_kept kept (cn_db (sy_conn s)) (cn_db (sy_conn t))"

text \<open>A run of calm steps, with the number of actions in it by which the database thread advances its flush.\<close>

inductive calm_run :: "'t web \<Rightarrow> ts_ms \<Rightarrow> nat \<Rightarrow> 't system \<Rightarrow> 't system \<Rightarrow> bool" for web kept where
  start: "calm_run web kept 0 s s"
| idle: "calm_run web kept k s t \<Longrightarrow> calm_step web kept t u \<Longrightarrow> sy_phase u = sy_phase t \<Longrightarrow> calm_run web kept k s u"
| action: "calm_run web kept k s t \<Longrightarrow> calm_step web kept t u \<Longrightarrow> sy_phase u \<noteq> sy_phase t \<Longrightarrow> calm_run web kept (Suc k) s u"

lemma calm_run_steps: "calm_run web kept k s t \<Longrightarrow> (step web)\<^sup>*\<^sup>* s t"
  by (induction rule: calm_run.induct) (auto simp: calm_step_def intro: rtranclp.rtrancl_into_rtrancl)

lemma stored_click_kept: "events_kept kept d d' \<Longrightarrow> kept \<le> ts \<Longrightarrow> stored_click tok ts d \<Longrightarrow> stored_click tok ts d'"
  by (auto simp: events_kept_def stored_click_def list_all_iff)

lemma calm_closed:
  assumes "calm_step web kept s t" and "cn_saved (sy_conn s) = None"
  shows "cn_saved (sy_conn t) = None"
proof -
  from assms(1) have "step web s t" "\<not> flush_failed (sy_phase s) (sy_phase t)" by (simp_all add: calm_step_def)
  then show ?thesis
  proof cases
    case (write_clicks batch faults u c)
    with insert_events_Inr [OF write_clicks(3) assms(2)] show ?thesis by simp
  qed (use assms(2) in \<open>auto simp: flush_failed_def dest: closed_callD [OF closed_load_snapshot]
        closed_callD [OF closed_maintenance] closed_callD [OF closed_record_conversion]\<close>)
qed

text \<open>An order that is paid stays paid.\<close>

lemma calm_paid:
  assumes "calm_step web kept s t" and "cn_saved (sy_conn s) = None" and "paid ref (cn_db (sy_conn s))"
  shows "paid ref (cn_db (sy_conn t))"
proof -
  from assms(1) have "step web s t" "\<not> flush_failed (sy_phase s) (sy_phase t)" by (simp_all add: calm_step_def)
  then show ?thesis
  proof cases
    case (write_clicks batch faults u c)
    with insert_events_Inr [OF write_clicks(3) assms(2)] assms(3) show ?thesis by (simp add: append_events_frame)
  next
    case (record_next cv cvs faults matched c)
    with record_conversion_frame(2) [OF record_next(3)] assms(3) show ?thesis by simp
  qed (use assms(2,3) in \<open>auto simp: flush_failed_def dest: closed_preserves [OF load_snapshot_preserves]
        closed_preserves [OF maintenance_paid]\<close>)
qed

section \<open>Where the click is\<close>

text \<open>
  The click is ahead of a postback in the queue when it will be in the table before that postback
  is taken: it is there, or in the batch that is being written, or waiting in the queue while the
  thread is not between its two drains.
\<close>

definition written_before :: "'t system \<Rightarrow> event list" where
  "written_before s = (case sy_phase s of Writing batch \<Rightarrow> batch | Written \<Rightarrow> [] | _ \<Rightarrow> eq_pending (hc_events (sy_http s)))"

definition click_ahead :: "string \<Rightarrow> ts_ms \<Rightarrow> 't system \<Rightarrow> bool" where
  "click_ahead tok ts s \<longleftrightarrow> stored_click tok ts (cn_db (sy_conn s)) \<or> list_ex (is_click tok ts) (written_before s)"

text \<open>The click has not been lost: it may also wait in the queue while a batch is being written.\<close>

definition click_held :: "string \<Rightarrow> ts_ms \<Rightarrow> 't system \<Rightarrow> bool" where
  "click_held tok ts s \<longleftrightarrow> click_ahead tok ts s \<or> list_ex (is_click tok ts) (eq_pending (hc_events (sy_http s)))"

lemma event_push_keeps: "set (eq_pending q) \<subseteq> set (eq_pending (snd (event_push ev q)))"
  by (auto simp: event_push_def)

lemma push_all_keeps: "set (eq_pending q) \<subseteq> set (eq_pending (push_all evs q))"
proof (induction evs arbitrary: q)
  case (Cons ev evs)
  have "push_all (ev # evs) q = push_all evs (snd (event_push ev q))" by (simp add: push_all_def)
  with Cons.IH [of "snd (event_push ev q)"] event_push_keeps [of q ev] show ?case by auto
qed (simp add: push_all_def)

lemma dispatch_queues:
  assumes "dispatch web fs en clock req ip ctx = (res, ctx')"
  shows "set (eq_pending (hc_events ctx)) \<subseteq> set (eq_pending (hc_events ctx'))"
    and "\<exists>cvs. cq_pending (hc_conversions ctx') = cq_pending (hc_conversions ctx) @ cvs"
proof -
  from clean_dispatch [OF assms, unfolded clean_request_def] obtain evs where
    "hc_events ctx' = push_all evs (hc_events ctx)"
    and "hc_conversions ctx' = hc_conversions ctx \<or>
      (\<exists>cv. postback_valid web cv \<and> hc_conversions ctx' = snd (conversion_push cv (hc_conversions ctx)))"
    by blast
  then show "set (eq_pending (hc_events ctx)) \<subseteq> set (eq_pending (hc_events ctx'))"
    "\<exists>cvs. cq_pending (hc_conversions ctx') = cq_pending (hc_conversions ctx) @ cvs"
    using push_all_keeps by (fastforce simp: conversion_push_def)+
qed

text \<open>
  What a calm step does to a click and to a waiting postback, one line per action: \<open>q\<close> and \<open>p\<close> are
  the two queues.
\<close>

definition advances :: "phase \<Rightarrow> event list \<Rightarrow> conversion list \<Rightarrow> phase \<Rightarrow> event list \<Rightarrow> conversion list \<Rightarrow> bool" where
  "advances ph q p ph' q' p' \<longleftrightarrow>
     (case ph of
        Ready \<Rightarrow> ph' = Writing q \<and> q' = [] \<and> p' = p
      | Writing batch \<Rightarrow> ph' = Written \<and> q' = q \<and> p' = p
      | Written \<Rightarrow> ph' = Recording p \<and> q' = q \<and> p' = []
      | Recording [] \<Rightarrow> ph' = Ready \<and> q' = q \<and> p' = p
      | Recording (cv # cvs) \<Rightarrow> ph' = Recording cvs \<and> q' = q \<and> p' = p)"

lemma calm_step_shape:
  fixes s t :: "'t system"
  defines "q \<equiv> eq_pending (hc_events (sy_http s))" and "q' \<equiv> eq_pending (hc_events (sy_http t))"
    and "p \<equiv> cq_pending (hc_conversions (sy_http s))" and "p' \<equiv> cq_pending (hc_conversions (sy_http t))"
  assumes "calm_step web kept s t"
  shows "(sy_phase t = sy_phase s \<and> set q \<subseteq> set q' \<and> (\<exists>cvs. p' = p @ cvs)) \<or>
    advances (sy_phase s) q p (sy_phase t) q' p'"
proof -
  from assms(5) have "step web s t" "\<not> flush_failed (sy_phase s) (sy_phase t)" by (simp_all add: calm_step_def)
  then show ?thesis
  proof cases
    case (request fs en clock req ip res ctx)
    with dispatch_queues [OF request(2)] show ?thesis by (simp add: q_def q'_def p_def p'_def)
  qed (auto simp: q_def q'_def p_def p'_def flush_failed_def advances_def event_drain_def conversion_drain_def)
qed

lemma calm_stored:
  assumes "calm_step web kept s t" and "kept \<le> ts" and "stored_click tok ts (cn_db (sy_conn s))"
  shows "stored_click tok ts (cn_db (sy_conn t))"
  using assms stored_click_kept by (auto simp: calm_step_def)

lemma calm_writes:
  assumes "calm_step web kept s t" and "cn_saved (sy_conn s) = None" and "sy_phase s = Writing batch"
    and "sy_phase t = Written" and "list_ex (is_click tok ts) batch" and "tok \<noteq> []"
  shows "stored_click tok ts (cn_db (sy_conn t))"
proof -
  from assms(1) have "step web s t" by (simp add: calm_step_def)
  then show ?thesis
  proof cases
    case (write_clicks batch' faults u c)
    with assms(3) insert_events_Inr [OF write_clicks(3) assms(2)] append_events_stores [of _ batch tok ts] assms(5,6)
    show ?thesis by (auto simp: list_ex_iff)
  qed (use assms(3,4) in auto)
qed

lemma calm_click_ahead:
  assumes "calm_step web kept s t" and "cn_saved (sy_conn s) = None" and "kept \<le> ts" and "tok \<noteq> []"
    and "click_ahead tok ts s"
  shows "click_ahead tok ts t"
proof (cases "stored_click tok ts (cn_db (sy_conn s))")
  case True
  with calm_stored [OF assms(1,3)] show ?thesis by (simp add: click_ahead_def)
next
  case False
  with assms(5) have before: "list_ex (is_click tok ts) (written_before s)" by (simp add: click_ahead_def)
  from calm_step_shape [OF assms(1)] show ?thesis
  proof
    assume "sy_phase t = sy_phase s \<and> set (eq_pending (hc_events (sy_http s))) \<subseteq> set (eq_pending (hc_events (sy_http t))) \<and>
      (\<exists>cvs. cq_pending (hc_conversions (sy_http t)) = cq_pending (hc_conversions (sy_http s)) @ cvs)"
    with before show ?thesis by (auto simp: click_ahead_def written_before_def list_ex_iff split: phase.splits)
  next
    assume adv: "advances (sy_phase s) (eq_pending (hc_events (sy_http s))) (cq_pending (hc_conversions (sy_http s)))
      (sy_phase t) (eq_pending (hc_events (sy_http t))) (cq_pending (hc_conversions (sy_http t)))"
    show ?thesis
    proof (cases "sy_phase s")
      case (Writing batch)
      with adv before have "sy_phase t = Written" "list_ex (is_click tok ts) batch"
        by (simp_all add: advances_def written_before_def)
      with calm_writes [OF assms(1,2) Writing _ _ assms(4)] show ?thesis by (simp add: click_ahead_def)
    qed (use adv before in \<open>auto simp: advances_def click_ahead_def written_before_def split: list.splits\<close>)
  qed
qed

lemma calm_click_held:
  assumes "calm_step web kept s t" and "cn_saved (sy_conn s) = None" and "kept \<le> ts" and "tok \<noteq> []"
    and "click_held tok ts s"
  shows "click_held tok ts t"
proof (cases "click_ahead tok ts s")
  case True
  with calm_click_ahead [OF assms(1-4)] show ?thesis by (simp add: click_held_def)
next
  case False
  with assms(5) have "list_ex (is_click tok ts) (eq_pending (hc_events (sy_http s)))" by (simp add: click_held_def)
  with False calm_step_shape [OF assms(1)] show ?thesis
    by (auto simp: click_held_def click_ahead_def written_before_def advances_def list_ex_iff split: phase.splits list.splits)
qed

section \<open>Where the postback is, and how far it has to go\<close>

definition outstanding :: "conversion \<Rightarrow> ts_ms \<Rightarrow> 't system \<Rightarrow> bool" where
  "outstanding cv ts s \<longleftrightarrow>
     paid (cv_order_ref cv) (cn_db (sy_conn s)) \<or>
     ((case sy_phase s of Recording cvs \<Rightarrow> cv \<in> set cvs | _ \<Rightarrow> False) \<and> stored_click (cv_click_token cv) ts (cn_db (sy_conn s))) \<or>
     (cv \<in> set (cq_pending (hc_conversions (sy_http s))) \<and> click_ahead (cv_click_token cv) ts s)"

definition place :: "conversion \<Rightarrow> conversion list \<Rightarrow> nat" where
  "place cv cvs = length (takeWhile (\<lambda>c. c \<noteq> cv) cvs) + 1"

text \<open>The actions of the database thread until the postback is recorded.\<close>

definition distance :: "conversion \<Rightarrow> ts_ms \<Rightarrow> 't system \<Rightarrow> nat" where
  "distance cv ts s =
     (if paid (cv_order_ref cv) (cn_db (sy_conn s)) then 0
      else let wait = place cv (cq_pending (hc_conversions (sy_http s)))
           in case sy_phase s of
                Ready \<Rightarrow> 3 + wait
              | Writing batch \<Rightarrow> 2 + wait
              | Written \<Rightarrow> 1 + wait
              | Recording cvs \<Rightarrow>
                  if cv \<in> set cvs \<and> stored_click (cv_click_token cv) ts (cn_db (sy_conn s)) then place cv cvs
                  else length cvs + 4 + wait)"

lemma place_append [simp]: "cv \<in> set cvs \<Longrightarrow> place cv (cvs @ more_cvs) = place cv cvs"
  unfolding place_def by (metis (mono_tags, lifting) takeWhile_append1)

lemma place_Cons: "place cv (c # cvs) = (if c = cv then 1 else Suc (place cv cvs))"
  by (simp add: place_def)

lemma place_le: "cv \<in> set cvs \<Longrightarrow> place cv cvs \<le> length cvs"
  by (induction cvs) (auto simp: place_Cons)

lemma calm_records:
  assumes "calm_step web kept s t" and "sy_phase s = Recording (c # cvs)" and "sy_phase t = Recording cvs"
  shows "stored_click tok ts (cn_db (sy_conn t)) = stored_click tok ts (cn_db (sy_conn s))"
    and "token_known (cn_db (sy_conn s)) (cv_click_token c) \<Longrightarrow> cv_order_ref c \<noteq> [] \<Longrightarrow>
      paid (cv_order_ref c) (cn_db (sy_conn t))"
proof -
  from assms(1) have st: "step web s t" by (simp add: calm_step_def)
  show "stored_click tok ts (cn_db (sy_conn t)) = stored_click tok ts (cn_db (sy_conn s))"
    using st
  proof cases
    case (record_next cv cvs' faults matched c')
    then show ?thesis using record_conversion_frame(1) [OF record_next(3)] by simp
  qed (use assms(2,3) in auto)
  show "token_known (cn_db (sy_conn s)) (cv_click_token c) \<Longrightarrow> cv_order_ref c \<noteq> [] \<Longrightarrow>
      paid (cv_order_ref c) (cn_db (sy_conn t))"
    using st
  proof cases
    case (record_next cv cvs' faults matched c')
    then show "token_known (cn_db (sy_conn s)) (cv_click_token c) \<Longrightarrow> cv_order_ref c \<noteq> [] \<Longrightarrow> ?thesis"
      using record_conversion_pays [OF record_next(3)] assms(2) by simp
  qed (use assms(2,3) in auto)
qed

text \<open>The database is not touched in a step that only moves a queue.\<close>

lemma calm_db_same:
  assumes "calm_step web kept s t" and "sy_phase t \<noteq> sy_phase s" and "sy_phase s = Ready \<or> sy_phase s = Written \<or> sy_phase s = Recording []"
  shows "sy_conn t = sy_conn s"
proof -
  from assms(1) have "step web s t" by (simp add: calm_step_def)
  then show ?thesis by cases (use assms(2,3) in auto)
qed

text \<open>While it is not paid, the postback is in one of two places.\<close>

lemma outstanding_cases:
  assumes "outstanding cv ts s" and "\<not> paid (cv_order_ref cv) (cn_db (sy_conn s))"
  obtains (taken) cvs where "sy_phase s = Recording cvs" "cv \<in> set cvs" "stored_click (cv_click_token cv) ts (cn_db (sy_conn s))"
  | (queued) "cv \<in> set (cq_pending (hc_conversions (sy_http s)))" "click_ahead (cv_click_token cv) ts s"
      "\<And>cvs. sy_phase s = Recording cvs \<Longrightarrow> \<not> (cv \<in> set cvs \<and> stored_click (cv_click_token cv) ts (cn_db (sy_conn s)))"
  using assms by (auto simp: outstanding_def split: phase.splits)

lemma calm_idle_distance:
  assumes "calm_step web kept s t" and "cn_saved (sy_conn s) = None" and "kept \<le> ts" and "cv_click_token cv \<noteq> []"
    and "outstanding cv ts s" and "sy_phase t = sy_phase s"
  shows "outstanding cv ts t \<and> distance cv ts t \<le> distance cv ts s"
proof (cases "paid (cv_order_ref cv) (cn_db (sy_conn s)) \<or> paid (cv_order_ref cv) (cn_db (sy_conn t))")
  case True
  with calm_paid [OF assms(1,2)] show ?thesis by (auto simp: outstanding_def distance_def)
next
  case False
  from calm_step_shape [OF assms(1)] obtain cvs where
    p: "cq_pending (hc_conversions (sy_http t)) = cq_pending (hc_conversions (sy_http s)) @ cvs"
    using assms(6) by (auto simp: advances_def split: phase.splits list.splits)
  from assms(5) False have "\<not> paid (cv_order_ref cv) (cn_db (sy_conn s))" by simp
  with assms(5) show ?thesis
  proof (cases rule: outstanding_cases)
    case (taken cvs')
    with calm_stored [OF assms(1,3)] False assms(6) show ?thesis by (simp add: outstanding_def distance_def)
  next
    case queued
    note ahead = calm_click_ahead [OF assms(1-4) queued(2)]
    have "distance cv ts t \<le> distance cv ts s"
      using queued(1,3) False p assms(6) calm_stored [OF assms(1,3), of "cv_click_token cv"]
      by (auto simp: distance_def Let_def split: phase.splits dest!: place_le)
    with ahead queued(1) p show ?thesis by (simp add: outstanding_def)
  qed
qed

lemma calm_action_distance:
  assumes "calm_step web kept s t" and "cn_saved (sy_conn s) = None" and "kept \<le> ts" and "cv_click_token cv \<noteq> []"
    and "cv_order_ref cv \<noteq> []" and "outstanding cv ts s" and "sy_phase t \<noteq> sy_phase s"
  shows "outstanding cv ts t \<and> distance cv ts t \<le> distance cv ts s - 1"
proof (cases "paid (cv_order_ref cv) (cn_db (sy_conn s)) \<or> paid (cv_order_ref cv) (cn_db (sy_conn t))")
  case True
  with calm_paid [OF assms(1,2)] show ?thesis by (auto simp: outstanding_def distance_def)
next
  case False
  from calm_step_shape [OF assms(1)] assms(7) have
    adv: "advances (sy_phase s) (eq_pending (hc_events (sy_http s))) (cq_pending (hc_conversions (sy_http s)))
      (sy_phase t) (eq_pending (hc_events (sy_http t))) (cq_pending (hc_conversions (sy_http t)))"
    by blast
  from assms(6) False have "\<not> paid (cv_order_ref cv) (cn_db (sy_conn s))" by simp
  with assms(6) show ?thesis
  proof (cases rule: outstanding_cases)
    case (taken cvs)
    then obtain c cvs' where cvs: "cvs = c # cvs'" by (cases cvs) auto
    with taken adv have t: "sy_phase t = Recording cvs'" by (simp add: advances_def)
    note rec = calm_records [OF assms(1) taken(1) [unfolded cvs] t]
    have "c \<noteq> cv" using rec(2) stored_click_known [OF taken(3)] assms(5) False by auto
    with taken cvs t rec(1) False show ?thesis by (auto simp: outstanding_def distance_def place_Cons)
  next
    case queued
    note ahead = calm_click_ahead [OF assms(1-4) queued(2)]
    show ?thesis
    proof (cases "sy_phase s")
      case Ready
      with adv ahead queued(1) False show ?thesis by (auto simp: advances_def outstanding_def distance_def)
    next
      case (Writing batch)
      with adv ahead queued(1) False show ?thesis by (auto simp: advances_def outstanding_def distance_def)
    next
      case Written
      with queued(2) have stored: "stored_click (cv_click_token cv) ts (cn_db (sy_conn s))"
        by (simp add: click_ahead_def written_before_def)
      from calm_db_same [OF assms(1,7)] Written have "sy_conn t = sy_conn s" by simp
      with Written adv stored queued(1) False show ?thesis by (auto simp: advances_def outstanding_def distance_def)
    next
      case (Recording cvs)
      show ?thesis
      proof (cases cvs)
        case Nil
        with Recording adv ahead queued(1) False show ?thesis by (auto simp: advances_def outstanding_def distance_def)
      next
        case (Cons c cvs')
        with Recording adv have t: "sy_phase t = Recording cvs'"
          "cq_pending (hc_conversions (sy_http t)) = cq_pending (hc_conversions (sy_http s))"
          by (simp_all add: advances_def)
        note rec = calm_records [OF assms(1) Recording [unfolded Cons] t(1)]
        from queued(3) [OF Recording] Cons rec(1) have
          "\<not> (cv \<in> set cvs' \<and> stored_click (cv_click_token cv) ts (cn_db (sy_conn t)))" by auto
        with t Recording Cons ahead queued False show ?thesis by (auto simp: outstanding_def distance_def)
      qed
    qed
  qed
qed

text \<open>So every action of the thread brings the postback closer, and nothing takes it back.\<close>

lemma calm_run_distance:
  assumes "calm_run web kept k s t" and "cn_saved (sy_conn s) = None" and "kept \<le> ts" and "cv_click_token cv \<noteq> []"
    and "cv_order_ref cv \<noteq> []" and "outstanding cv ts s"
  shows "cn_saved (sy_conn t) = None \<and> outstanding cv ts t \<and> distance cv ts t \<le> distance cv ts s - k"
  using assms
proof (induction rule: calm_run.induct)
  case (idle k s t u)
  then show ?case using calm_idle_distance [OF idle(2)] calm_closed [OF idle(2)] by fastforce
next
  case (action k s t u)
  then have ih: "cn_saved (sy_conn t) = None" "outstanding cv ts t" "distance cv ts t \<le> distance cv ts s - k" by simp_all
  from calm_action_distance [OF action(2) ih(1) action(6-8) ih(2) action(3)] have
    "outstanding cv ts u" "distance cv ts u \<le> distance cv ts t - 1" by simp_all
  with ih(3) calm_closed [OF action(2) ih(1)] show ?case by simp
qed simp

lemma calm_run_held:
  assumes "calm_run web kept k s t" and "cn_saved (sy_conn s) = None" and "kept \<le> ts" and "tok \<noteq> []" and "click_held tok ts s"
  shows "cn_saved (sy_conn t) = None \<and> click_held tok ts t"
  using assms
proof (induction rule: calm_run.induct)
  case (idle k s t u)
  then show ?case using calm_click_held [OF idle(2)] calm_closed [OF idle(2)] by blast
next
  case (action k s t u)
  then show ?case using calm_click_held [OF action(2)] calm_closed [OF action(2)] by blast
qed simp

lemma outstanding_arrived:
  assumes "outstanding cv ts s" and "distance cv ts s = 0"
  shows "paid (cv_order_ref cv) (cn_db (sy_conn s))"
  using assms by (auto simp: distance_def place_def Let_def split: if_splits phase.splits)

text \<open>The bound: what is waiting in both places, and one round of the flush.\<close>

definition backlog :: "'t system \<Rightarrow> nat" where
  "backlog s = length (cq_pending (hc_conversions (sy_http s))) +
     (case sy_phase s of Recording cvs \<Rightarrow> length cvs | _ \<Rightarrow> 0)"

lemma distance_bound:
  assumes "outstanding cv ts s"
  shows "distance cv ts s \<le> backlog s + 4"
proof (cases "paid (cv_order_ref cv) (cn_db (sy_conn s))")
  case False
  with assms show ?thesis
    by (cases rule: outstanding_cases)
      (auto simp: distance_def backlog_def Let_def split: phase.splits dest!: place_le)
qed (simp add: distance_def)

end
