(* ===== verification/Payout.thy ===== *)
theory Payout
  imports Funnel
begin

text \<open>
  The life of one sale: a visitor follows the link of an item, the shop's network reports the order
  later, and the two threads bring the conversion into the database; and the window in which they do
  not. \<open>pump\<close> is the database thread by itself.
\<close>

section \<open>A request with its surroundings\<close>

record visit =
  vs_files :: file_system
  vs_entropy :: entropy
  vs_clock :: "nat \<Rightarrow> ts_ms"
  vs_request :: request
  vs_ip :: string

definition answer :: "'t web \<Rightarrow> visit \<Rightarrow> 't system \<Rightarrow> response" where
  "answer web v s = fst (dispatch web (vs_files v) (vs_entropy v) (vs_clock v) (vs_request v) (vs_ip v) (sy_http s))"

definition serve :: "'t web \<Rightarrow> visit \<Rightarrow> 't system \<Rightarrow> 't system" where
  "serve web v s = s\<lparr>
     sy_http := snd (dispatch web (vs_files v) (vs_entropy v) (vs_clock v) (vs_request v) (vs_ip v) (sy_http s)),
     sy_issued := issue (answer web v s) (vs_entropy v) (sy_issued s) \<rparr>"

lemma serve_step: "step web s (serve web v s)"
  by (rule step.request [where fs = "vs_files v" and clock = "vs_clock v" and req = "vs_request v" and ip = "vs_ip v",
        THEN subst [where P = "step web s", rotated]])
    (auto simp: serve_def answer_def)

lemma serve_frame [simp]:
  "sy_phase (serve web v s) = sy_phase s" "sy_conn (serve web v s) = sy_conn s"
  by (simp_all add: serve_def)

lemma serve_cfg [simp]: "hc_cfg (sy_http (serve web v s)) = hc_cfg (sy_http s)"
proof -
  obtain res ctx where run: "dispatch web (vs_files v) (vs_entropy v) (vs_clock v) (vs_request v) (vs_ip v) (sy_http s) = (res, ctx)"
    by fastforce
  then have "same_setup (sy_http s) ctx" by (rule dispatch_cases)
  with run show ?thesis by (simp add: serve_def same_setup_def)
qed

text \<open>The click token a request would put into its redirect.\<close>

definition token_of :: "visit \<Rightarrow> string" where
  "token_of v = make_click_token (en_token (vs_entropy v))"

text \<open>A request for the outbound link of an item of the snapshot, with room for its event.\<close>

definition follows_link :: "visit \<Rightarrow> int \<Rightarrow> 't system \<Rightarrow> bool" where
  "follows_link v i s \<longleftrightarrow> rq_verb (vs_request v) = GetVerb \<and> in_int64 i \<and>
     request_path (hc_cfg (sy_http s)) (vs_request v) = ''/r/'' @ int_to_string i \<and>
     cat_find (cp_obj (handle_get (hc_catalog (sy_http s)))) i \<noteq> None \<and>
     length (eq_pending (hc_events (sy_http s))) < eq_max_pending (hc_events (sy_http s))"

text \<open>A postback that reports an order for a click token and passes the checks.\<close>

definition reports_order :: "'t web \<Rightarrow> visit \<Rightarrow> string \<Rightarrow> string \<Rightarrow> 't system \<Rightarrow> bool" where
  "reports_order web v tok ref s \<longleftrightarrow> rq_verb (vs_request v) = GetVerb \<and>
     request_path (hc_cfg (sy_http s)) (vs_request v) = ''/cpa/postback'' \<and>
     postback_ok web (hc_cfg (sy_http s)) (request_query (vs_request v)) \<and>
     request_query (vs_request v) ''subid'' = Some tok \<and> request_query (vs_request v) ''order'' = Some ref"

definition sent_conversion :: "'t web \<Rightarrow> visit \<Rightarrow> conversion" where
  "sent_conversion web v = queued_conversion web (vs_clock v 0) (request_query (vs_request v))"

lemma route_postback:
  assumes "rq_verb req = GetVerb" and "request_path (hc_cfg ctx) req = ''/cpa/postback''"
  shows "route web fs en clock ident req ip ctx =
    (case handle_postback web (clock 0) (request_query req) ctx of (res, ctx') \<Rightarrow> (Inr res, ctx'))"
  using assms by (simp add: route_def Let_def request_path_def request_query_def)

definition memcmp_ok :: "'t web \<Rightarrow> bool" where
  "memcmp_ok web \<longleftrightarrow> (\<forall>a b. length a = length b \<longrightarrow> (web_memcmp web a b (length b) = 0 \<longleftrightarrow> a = b))"

lemma served_link:
  assumes "follows_link v i s"
  shows "rs_status (answer web v s) = 302"
    and "hc_conversions (sy_http (serve web v s)) = hc_conversions (sy_http s)"
    and "\<exists>ev. is_click (token_of v) (vs_clock v 0) ev \<and>
      eq_pending (hc_events (sy_http (serve web v s))) = eq_pending (hc_events (sy_http s)) @ [ev]"
proof -
  from assms obtain it where it: "cat_find (cp_obj (handle_get (hc_catalog (sy_http s)))) i = Some it"
    and link: "rq_verb (vs_request v) = GetVerb" "in_int64 i"
      "request_path (hc_cfg (sy_http s)) (vs_request v) = ''/r/'' @ int_to_string i"
    and room: "length (eq_pending (hc_events (sy_http s))) < eq_max_pending (hc_events (sy_http s))"
    by (auto simp: follows_link_def)
  obtain res ctx where run: "dispatch web (vs_files v) (vs_entropy v) (vs_clock v) (vs_request v) (vs_ip v) (sy_http s) = (res, ctx)"
    by fastforce
  note facts = dispatch_redirect [OF link(1,3,2) refl it run]
  from facts(1) run show "rs_status (answer web v s) = 302" by (simp add: answer_def)
  from facts(5) run show "hc_conversions (sy_http (serve web v s)) = hc_conversions (sy_http s)" by (simp add: serve_def)
  from facts(5) run room show "\<exists>ev. is_click (token_of v) (vs_clock v 0) ev \<and>
      eq_pending (hc_events (sy_http (serve web v s))) = eq_pending (hc_events (sy_http s)) @ [ev]"
    by (simp add: serve_def event_push_def is_click_def stamped_def outbound_event_def token_of_def)
qed

lemma served_postback:
  assumes "memcmp_ok web" and "reports_order web v tok ref s"
  shows "rs_status (answer web v s) = 200"
    and "hc_events (sy_http (serve web v s)) = hc_events (sy_http s)"
    and "cq_pending (hc_conversions (sy_http (serve web v s))) = cq_pending (hc_conversions (sy_http s)) @ [sent_conversion web v]"
    and "cv_click_token (sent_conversion web v) = tok" "cv_order_ref (sent_conversion web v) = ref" "tok \<noteq> []"
    and "conversion_status_ok (cv_status (sent_conversion web v))"
proof -
  let ?q = "request_query (vs_request v)"
  from assms(1) have memcmp: "\<And>a b. length a = length b \<Longrightarrow> web_memcmp web a b (length b) = 0 \<longleftrightarrow> a = b"
    by (simp add: memcmp_ok_def)
  from assms(2) have req: "rq_verb (vs_request v) = GetVerb"
    "request_path (hc_cfg (sy_http s)) (vs_request v) = ''/cpa/postback''"
    and ok: "postback_ok web (hc_cfg (sy_http s)) ?q" and fields: "?q ''subid'' = Some tok" "?q ''order'' = Some ref"
    by (simp_all add: reports_order_def)
  from ok have "signed (hc_cfg (sy_http s)) ?q" by (simp add: postback_ok_def signed_def)
  from signed_postback [OF memcmp this] ok have
    run: "handle_postback web (vs_clock v 0) ?q (sy_http s) = (text_response 200 ''ok'', (sy_http s)\<lparr> hc_conversions :=
      \<lparr> cq_pending = cq_pending (hc_conversions (sy_http s)) @ [sent_conversion web v] \<rparr> \<rparr>)"
    by (auto simp: postback_ok_def sent_conversion_def)
  have disp: "dispatch web (vs_files v) (vs_entropy v) (vs_clock v) (vs_request v) (vs_ip v) (sy_http s) =
      (finish_response (hc_cfg (sy_http s)) (identify (vs_entropy v) (vs_request v)) (text_response 200 ''ok''),
       (sy_http s)\<lparr> hc_conversions := \<lparr> cq_pending = cq_pending (hc_conversions (sy_http s)) @ [sent_conversion web v] \<rparr> \<rparr>)"
    by (simp add: dispatch_def route_postback [OF req] run)
  show "rs_status (answer web v s) = 200" "hc_events (sy_http (serve web v s)) = hc_events (sy_http s)"
    "cq_pending (hc_conversions (sy_http (serve web v s))) = cq_pending (hc_conversions (sy_http s)) @ [sent_conversion web v]"
    by (simp_all add: answer_def serve_def disp)
  from fields ok show "cv_click_token (sent_conversion web v) = tok" "cv_order_ref (sent_conversion web v) = ref" "tok \<noteq> []"
    "conversion_status_ok (cv_status (sent_conversion web v))"
    by (auto simp: sent_conversion_def queued_conversion_def param_or_def postback_ok_def conversion_status_ok_def)
qed

section \<open>The database thread by itself\<close>

text \<open>Its next action when sqlite does not fail, leaving out the hourly and the refresh jobs.\<close>

definition pump :: "'t system \<Rightarrow> 't system" where
  "pump s =
     (case sy_phase s of
        Ready \<Rightarrow>
          (case event_drain [] (hc_events (sy_http s)) of (batch, q) \<Rightarrow>
             s\<lparr> sy_http := (sy_http s)\<lparr> hc_events := q \<rparr>, sy_phase := Writing batch \<rparr>)
      | Writing batch \<Rightarrow>
          (case insert_events (\<lambda>_. NoFault) batch (sy_conn s) of
             (Inr u, c) \<Rightarrow> s\<lparr> sy_conn := c, sy_phase := Written \<rparr>
           | (Inl e, c) \<Rightarrow> s\<lparr> sy_conn := c, sy_phase := Ready \<rparr>)
      | Written \<Rightarrow>
          (case conversion_drain [] (hc_conversions (sy_http s)) of (batch, q) \<Rightarrow>
             s\<lparr> sy_http := (sy_http s)\<lparr> hc_conversions := q \<rparr>, sy_phase := Recording batch \<rparr>)
      | Recording [] \<Rightarrow> s\<lparr> sy_phase := Ready \<rparr>
      | Recording (cv # cvs) \<Rightarrow>
          (case record_conversion (\<lambda>_. NoFault) cv (sy_conn s) of
             (Inr matched, c) \<Rightarrow> s\<lparr> sy_conn := c, sy_phase := Recording cvs \<rparr>
           | (Inl e, c) \<Rightarrow> s\<lparr> sy_conn := c, sy_phase := Ready \<rparr>))"

lemma pump_step: "step web s (pump s)"
  by (auto simp: pump_def split: phase.split list.split prod.split sum.split
      intro: step.drain_clicks step.write_clicks step.write_failed step.drain_postbacks step.record_next step.record_failed
        step.recorded)

lemma pump_simps:
  "sy_phase s = Ready \<Longrightarrow> pump s = s\<lparr> sy_http := (sy_http s)\<lparr> hc_events := snd (event_drain [] (hc_events (sy_http s))) \<rparr>,
     sy_phase := Writing (eq_pending (hc_events (sy_http s))) \<rparr>"
  "sy_phase s = Written \<Longrightarrow> pump s = s\<lparr> sy_http := (sy_http s)\<lparr> hc_conversions := snd (conversion_drain [] (hc_conversions (sy_http s))) \<rparr>,
     sy_phase := Recording (cq_pending (hc_conversions (sy_http s))) \<rparr>"
  "sy_phase s = Recording [] \<Longrightarrow> pump s = s\<lparr> sy_phase := Ready \<rparr>"
  by (simp_all add: pump_def event_drain_def conversion_drain_def)

text \<open>What keeps it from failing: a closed connection, new click tokens and checked postbacks.\<close>

definition batch_of :: "'t system \<Rightarrow> event list" where
  "batch_of s = (case sy_phase s of Writing batch \<Rightarrow> batch | _ \<Rightarrow> [])"

definition taken_of :: "'t system \<Rightarrow> conversion list" where
  "taken_of s = (case sy_phase s of Recording cvs \<Rightarrow> cvs | _ \<Rightarrow> [])"

definition ready_to_flush :: "'t system \<Rightarrow> bool" where
  "ready_to_flush s \<longleftrightarrow> cn_saved (sy_conn s) = None \<and>
     postbacks_ok (taken_of s @ cq_pending (hc_conversions (sy_http s))) \<and>
     distinct (batch_tokens (batch_of s @ eq_pending (hc_events (sy_http s)))) \<and>
     list_all (\<lambda>t. \<not> token_known (cn_db (sy_conn s)) t) (batch_tokens (batch_of s @ eq_pending (hc_events (sy_http s))))"

lemma batch_tokens_append [simp]: "batch_tokens (xs @ ys) = batch_tokens xs @ batch_tokens ys"
  by (simp add: batch_tokens_def)

lemma postbacks_ok_simps [simp]:
  "postbacks_ok []" "postbacks_ok (c # cs) \<longleftrightarrow> conversion_status_ok (cv_status c) \<and> postbacks_ok cs"
  "postbacks_ok (xs @ ys) \<longleftrightarrow> postbacks_ok xs \<and> postbacks_ok ys"
  by (auto simp: postbacks_ok_def)

lemma append_events_keep: "set (db_events d) \<subseteq> set (db_events (append_events batch d))"
  using append_events_rows [of batch d] by auto

lemma events_keptI: "set (db_events d) \<subseteq> set (db_events d') \<Longrightarrow> events_kept kept d d'"
  by (auto simp: events_kept_def list_all_iff)

text \<open>One action of a thread that is ready to flush: what it does, and that it does not fail.\<close>

lemma pump_write:
  assumes "ready_to_flush s" and "sy_phase s = Writing batch"
  obtains c where "pump s = s\<lparr> sy_conn := c, sy_phase := Written \<rparr>" "cn_saved c = None"
    "cn_db c = append_events batch (cn_db (sy_conn s))"
proof -
  from assms have pre: "cn_saved (sy_conn s) = None" "distinct (batch_tokens batch)"
    "\<And>t. t \<in> set (batch_tokens batch) \<Longrightarrow> \<not> token_known (cn_db (sy_conn s)) t"
    by (auto simp: ready_to_flush_def batch_of_def list_all_iff)
  obtain c where c: "insert_events (\<lambda>_. NoFault) batch (sy_conn s) = (Inr (), c)"
    using insert_events_succeeds [where faults = "\<lambda>_. NoFault", OF refl pre] by (metis prod.collapse)
  with insert_events_Inr [OF c pre(1)] assms(2) show ?thesis by (auto simp: pump_def intro: that)
qed

lemma pump_record:
  assumes "ready_to_flush s" and "sy_phase s = Recording (cv # cvs)"
  obtains c where "pump s = s\<lparr> sy_conn := c, sy_phase := Recording cvs \<rparr>" "cn_saved c = None"
    "cn_db c = record_one (cn_db (sy_conn s)) cv"
proof -
  from assms have "cn_saved (sy_conn s) = None" "conversion_status_ok (cv_status cv)"
    by (auto simp: ready_to_flush_def taken_of_def)
  with record_conversion_no_fault [where faults = "\<lambda>_. NoFault" and c = cv and conn = "sy_conn s", OF refl] assms(2)
  show ?thesis by (auto simp: pump_def intro: that)
qed

lemma record_one_events: "db_events (record_one d c) = db_events d"
  by (auto simp: record_one_def upsert_conversion_stmt_def Let_def split: sum.splits)

lemma pump_ready:
  assumes "ready_to_flush s"
  shows "ready_to_flush (pump s) \<and> calm_step web kept s (pump s) \<and> sy_phase (pump s) \<noteq> sy_phase s"
proof (cases "sy_phase s")
  case Ready
  with assms pump_step [of web s] show ?thesis
    by (auto simp: pump_simps ready_to_flush_def batch_of_def taken_of_def event_drain_def calm_step_def flush_failed_def
        intro: events_keptI)
next
  case (Writing batch)
  from pump_write [OF assms Writing] obtain c where c: "pump s = s\<lparr> sy_conn := c, sy_phase := Written \<rparr>"
    "cn_saved c = None" "cn_db c = append_events batch (cn_db (sy_conn s))" .
  with assms Writing pump_step [of web s] append_events_keep show ?thesis
    by (auto simp: ready_to_flush_def batch_of_def taken_of_def calm_step_def flush_failed_def list_all_iff
        append_events_tokens intro: events_keptI)
next
  case Written
  with assms pump_step [of web s] show ?thesis
    by (auto simp: pump_simps ready_to_flush_def batch_of_def taken_of_def conversion_drain_def calm_step_def flush_failed_def
        intro: events_keptI)
next
  case (Recording cvs)
  show ?thesis
  proof (cases cvs)
    case Nil
    with Recording assms pump_step [of web s] show ?thesis
      by (auto simp: pump_def ready_to_flush_def batch_of_def taken_of_def calm_step_def flush_failed_def intro: events_keptI)
  next
    case (Cons cv cvs')
    from pump_record [OF assms Recording [unfolded Cons]] obtain c where
      c: "pump s = s\<lparr> sy_conn := c, sy_phase := Recording cvs' \<rparr>" "cn_saved c = None"
        "cn_db c = record_one (cn_db (sy_conn s)) cv" .
    with Cons Recording assms pump_step [of web s] show ?thesis
      by (auto simp: ready_to_flush_def batch_of_def taken_of_def calm_step_def flush_failed_def record_one_facts
          record_one_events intro: events_keptI)
  qed
qed

lemma pump_runs:
  assumes "ready_to_flush s"
  shows "ready_to_flush ((pump ^^ k) s) \<and> calm_run web kept k s ((pump ^^ k) s)"
proof (induction k)
  case (Suc k)
  with pump_ready [where s = "(pump ^^ k) s" and web = web and kept = kept] show ?case by (auto intro: calm_run.action)
qed (simp add: assms calm_run.start)

section \<open>The property\<close>





definition sample_visit :: "string \<Rightarrow> visit" where
  "sample_visit target = \<lparr> vs_files = sample_fs, vs_entropy = sample_entropy, vs_clock = (\<lambda>_. 0),
     vs_request = sample_request target, vs_ip = ''::1'' \<rparr>"

definition sample_report :: visit where
  "sample_report = sample_visit ''/cpa/postback?sign=pw&subid=333333333333&order=A1''"

lemma sample_report_query:
  "request_path cfg0 (vs_request sample_report) = (if cfg_base_path cfg0 = [] then ''/cpa/postback'' else request_path cfg0 (vs_request sample_report))"
  "request_query (vs_request sample_report) ''sign'' = Some ''pw''"
  "request_query (vs_request sample_report) ''subid'' = Some (token_of (sample_visit t))"
  "request_query (vs_request sample_report) ''order'' = Some ''A1''"
  "request_query (vs_request sample_report) ''amount'' = None"
  "request_query (vs_request sample_report) ''status'' = None"
proof -
  have target: "split_target (rq_target (vs_request sample_report)) =
    \<lparr> tg_path = ''/cpa/postback'', tg_query = ''sign=pw&subid=333333333333&order=A1'' \<rparr>"
    by (simp add: sample_report_def sample_visit_def sample_request_def) code_simp
  show "request_path cfg0 (vs_request sample_report) = (if cfg_base_path cfg0 = [] then ''/cpa/postback'' else request_path cfg0 (vs_request sample_report))"
    by (simp add: request_path_def target route_path_def)
  have "token_of (sample_visit t) = make_click_token (replicate 12 3)"
    by (simp add: token_of_def sample_visit_def sample_entropy_def)
  also have "\<dots> = ''333333333333''" by code_simp
  finally have tok: "token_of (sample_visit t) = ''333333333333''" .
  show "request_query (vs_request sample_report) ''sign'' = Some ''pw''"
    unfolding request_query_def target target.simps by code_simp
  show "request_query (vs_request sample_report) ''subid'' = Some (token_of (sample_visit t))"
    unfolding request_query_def target target.simps tok by code_simp
  show "request_query (vs_request sample_report) ''order'' = Some ''A1''"
    unfolding request_query_def target target.simps by code_simp
  show "request_query (vs_request sample_report) ''amount'' = None"
    unfolding request_query_def target target.simps by code_simp
  show "request_query (vs_request sample_report) ''status'' = None"
    unfolding request_query_def target target.simps by code_simp
qed

lemma sample_clicks:
  "memcmp_ok sample_web" "follows_link (sample_visit ''/r/7'') 7 quiet_system" "follows_link (sample_visit ''/r/7'') 7 (quiet_system\<lparr> sy_phase := ph \<rparr>)"
  "hc_cfg (sy_http s) = hc_cfg sample_context \<Longrightarrow> reports_order sample_web sample_report (token_of (sample_visit t)) ''A1'' s"
proof -
  show "memcmp_ok sample_web" by (simp add: memcmp_ok_def sample_web_def)
  have path: "request_path (hc_cfg (sy_http quiet_system)) (vs_request (sample_visit ''/r/7'')) = ''/r/'' @ int_to_string 7"
    using sample_path by (simp add: quiet_system_def sample_system_def sample_visit_def)
  then show "follows_link (sample_visit ''/r/7'') 7 quiet_system"
    using sample_find
    by (simp add: follows_link_def in_int64_def int64_min_def int64_max_def quiet_system_def sample_system_def sample_context_def
        new_event_queue_def) (simp add: sample_visit_def sample_request_def)
  then show "follows_link (sample_visit ''/r/7'') 7 (quiet_system\<lparr> sy_phase := ph \<rparr>)"
    by (simp add: follows_link_def)
  assume cfg: "hc_cfg (sy_http s) = hc_cfg sample_context"
  have base: "cfg_base_path (hc_cfg sample_context) = []" "cfg_postback_secret (hc_cfg sample_context) = ''pw''"
    by (simp_all add: sample_context_def config_default_def)
  then have "request_path (hc_cfg sample_context) (vs_request sample_report) = ''/cpa/postback''"
    using sample_report_query(1) [of "hc_cfg sample_context"] by simp
  moreover have "rq_verb (vs_request sample_report) = GetVerb"
    by (simp add: sample_report_def sample_visit_def sample_request_def)
  moreover have "token_of (sample_visit t) \<noteq> []"
    by (simp add: token_of_def sample_visit_def sample_entropy_def make_click_token_def)
  ultimately show "reports_order sample_web sample_report (token_of (sample_visit t)) ''A1'' s"
    by (simp add: reports_order_def cfg postback_ok_def base sample_report_query(2,4-6) sample_report_query(3) [of t]
        amount_param_def param_or_def)
qed

text \<open>A server with empty queues is ready to flush after a click and the report of its order.\<close>

definition idle_system :: "'t system \<Rightarrow> bool" where
  "idle_system s \<longleftrightarrow> cn_saved (sy_conn s) = None \<and> (sy_phase s = Ready \<or> sy_phase s = Written) \<and>
     eq_pending (hc_events (sy_http s)) = [] \<and> cq_pending (hc_conversions (sy_http s)) = []"

lemma two_visits:
  assumes "memcmp_ok web" and "idle_system s" and "follows_link click i s"
    and "reports_order web report (token_of click) ref (serve web click s)"
    and "\<not> token_known (cn_db (sy_conn s)) (token_of click)"
  shows "ready_to_flush (serve web report (serve web click s))"
    and "\<exists>ev. is_click (token_of click) (vs_clock click 0) ev \<and>
      eq_pending (hc_events (sy_http (serve web report (serve web click s)))) = [ev]"
    and "cq_pending (hc_conversions (sy_http (serve web report (serve web click s)))) = [sent_conversion web report]"
proof -
  note link = served_link [OF assms(3), where web = web] and sent = served_postback [OF assms(1,4)]
  from link(3) assms(2) obtain ev where ev: "is_click (token_of click) (vs_clock click 0) ev"
    "eq_pending (hc_events (sy_http (serve web report (serve web click s)))) = [ev]"
    by (auto simp: sent(2) idle_system_def)
  then show "\<exists>ev. is_click (token_of click) (vs_clock click 0) ev \<and>
      eq_pending (hc_events (sy_http (serve web report (serve web click s)))) = [ev]" by blast
  from assms(2) link(2) show cq: "cq_pending (hc_conversions (sy_http (serve web report (serve web click s)))) = [sent_conversion web report]"
    by (simp add: sent(3) idle_system_def)
  show "ready_to_flush (serve web report (serve web click s))"
    using assms(2,5) ev cq sent(7)
    by (auto simp: ready_to_flush_def idle_system_def batch_of_def taken_of_def batch_tokens_def is_click_def)
qed


section \<open>The window\<close>

text \<open>
  \<^bold>\<open>C12.\<close> The exception is real. \<open>DbWorker::run\<close> writes the events before the conversions so that a
  postback finds its click, but each queue is drained by itself: when the click and its report both
  arrive after the events were drained and before the conversions are, then on a healthy database the
  report is answered 200, taken, matched against a table that does not have the click yet, and
  dropped as unknown. Five actions later the click is in the table, no conversion was written and
  nothing is left of the order.
\<close>

theorem report_overtakes_click:
  assumes "memcmp_ok web" and "idle_system s" and "sy_phase s = Written" and "follows_link click i s"
    and "reports_order web report (token_of click) ref (serve web click s)"
    and "\<not> token_known (cn_db (sy_conn s)) (token_of click)"
    and s1: "s1 = serve web report (serve web click s)" and t: "t = (pump ^^ 5) s1"
  shows "rs_status (answer web click s) = 302 \<and> rs_status (answer web report (serve web click s)) = 200 \<and>
    calm_run web kept 5 s1 t \<and> stored_click (token_of click) (vs_clock click 0) (committed (sy_conn t)) \<and>
    cq_pending (hc_conversions (sy_http t)) = [] \<and> sy_phase t = Written \<and>
    db_conversions (committed (sy_conn t)) = db_conversions (committed (sy_conn s))"
proof -
  note link = served_link [OF assms(4), where web = web] and sent = served_postback [OF assms(1,5)]
  note two = two_visits [OF assms(1,2,4-6), folded s1]
  let ?cv = "sent_conversion web report" and ?tok = "token_of click" and ?ts = "vs_clock click 0"
  obtain ev where ev: "is_click ?tok ?ts ev" "eq_pending (hc_events (sy_http s1)) = [ev]" using two(2) by blast
  have ready: "ready_to_flush ((pump ^^ k) s1)" for k using pump_runs [OF two(1)] by blast
  have s1': "sy_phase s1 = Written" "sy_conn s1 = sy_conn s" by (simp_all add: s1 assms(3))
  have a: "sy_phase (pump s1) = Recording [?cv]" "sy_conn (pump s1) = sy_conn s"
    "eq_pending (hc_events (sy_http (pump s1))) = [ev]" "cq_pending (hc_conversions (sy_http (pump s1))) = []"
    by (simp_all add: pump_simps s1' conversion_drain_def two(3) ev(2))
  obtain c where c: "pump (pump s1) = (pump s1)\<lparr> sy_conn := c, sy_phase := Recording [] \<rparr>" "cn_db c = record_one (cn_db (sy_conn s)) ?cv"
    using pump_record [OF ready [of 1, simplified] a(1)] a(2) by auto
  with assms(6) sent(4) have db: "cn_db c = cn_db (sy_conn s)" by (simp add: record_one_def)
  let ?p = "pump (pump (pump (pump s1)))"
  have b: "sy_phase ?p = Writing [ev]" "sy_conn ?p = c" "cq_pending (hc_conversions (sy_http ?p)) = []"
    using a by (simp_all add: c(1) pump_simps event_drain_def)
  have "ready_to_flush ?p" using ready [of 4] by (simp add: eval_nat_numeral)
  from pump_write [OF this b(1)] obtain c' where
    c': "pump ?p = ?p\<lparr> sy_conn := c', sy_phase := Written \<rparr>" "cn_saved c' = None" "cn_db c' = append_events [ev] (cn_db (sy_conn s))"
    by (auto simp: b(2) db)
  have t': "t = pump ?p" by (simp add: t eval_nat_numeral)
  have "stored_click ?tok ?ts (append_events [ev] (cn_db (sy_conn s)))"
    by (rule append_events_stores [OF _ ev(1) sent(6)]) simp
  moreover have "cn_saved (sy_conn s) = None" using assms(2) by (simp add: idle_system_def)
  moreover have "calm_run web kept 5 s1 t" unfolding t using pump_runs [OF two(1)] by blast
  ultimately show ?thesis
    using link(1) sent(1) by (simp add: t' c' b committed_def del: append_events.simps) simp
qed

lemma quiet_written: "(pump ^^ 2) quiet_system = quiet_system\<lparr> sy_phase := Written \<rparr>"
  by (simp add: eval_nat_numeral pump_def quiet_system_def sample_system_def sample_context_def event_drain_def
      new_event_queue_def insert_events_def db_return_def)

theorem report_overtakes_click_witness:
  "\<exists>s t tok. (step sample_web)\<^sup>*\<^sup>* quiet_system s \<and> (step sample_web)\<^sup>*\<^sup>* (serve sample_web sample_report s) t \<and>
     rs_status (answer sample_web sample_report s) = 200 \<and> token_known (committed (sy_conn t)) tok \<and>
     cq_pending (hc_conversions (sy_http t)) = [] \<and> db_conversions (committed (sy_conn t)) = []"
proof -
  let ?q = "quiet_system\<lparr> sy_phase := Written \<rparr>" and ?click = "sample_visit ''/r/7''"
  let ?s = "serve sample_web ?click ?q"
  let ?t = "(pump ^^ 5) (serve sample_web sample_report ?s)"
  have idle: "idle_system ?q" "\<not> token_known (cn_db (sy_conn ?q)) (token_of ?click)" "db_conversions (committed (sy_conn ?q)) = []"
    by (simp_all add: idle_system_def quiet_system_def sample_system_def sample_context_def opened_conn_def new_event_queue_def
        new_conversion_queue_def token_known_def empty_database_def committed_def)
  have rep: "reports_order sample_web sample_report (token_of ?click) ''A1'' ?s"
    by (rule sample_clicks(4)) (simp add: quiet_system_def sample_system_def)
  from report_overtakes_click [OF sample_clicks(1) idle(1) _ sample_clicks(3) rep idle(2) refl refl] idle(3) have
    facts: "rs_status (answer sample_web sample_report ?s) = 200" "calm_run sample_web 0 5 (serve sample_web sample_report ?s) ?t"
      "token_known (committed (sy_conn ?t)) (token_of ?click)" "cq_pending (hc_conversions (sy_http ?t)) = []"
      "db_conversions (committed (sy_conn ?t)) = []"
    by (auto dest: stored_click_known)
  have "(step sample_web)\<^sup>*\<^sup>* quiet_system ((pump ^^ k) quiet_system)" for k
    by (induction k) (auto intro: rtranclp.rtrancl_into_rtrancl pump_step)
  from this [of 2] have "(step sample_web)\<^sup>*\<^sup>* quiet_system ?s"
    unfolding quiet_written by (rule rtranclp.rtrancl_into_rtrancl) (rule serve_step)
  with facts calm_run_steps [OF facts(2)] show ?thesis by blast
qed

end
