(* ===== verification/Http_Stream.thy ===== *)
theory Http_Stream
  imports Http_Server Outbound
begin

text \<open>
  The bytes of a connection: how \<open>handle_connection\<close> of \<open>src/http_server.cpp\<close> reads requests from its
  socket. Beast's \<open>http::async_read\<close> and the way TCP cuts the bytes into pieces are arguments; the buffer
  is the program's. It is declared inside the loop, so every request starts with an empty one.
\<close>

section \<open>Reading\<close>

text \<open>What one receive on the socket yields; after the last of them the peer has closed its side.\<close>

datatype arrival = Bytes string | Reset

text \<open>
  \<open>http::async_read(sock, buffer, req)\<close>: given the bytes in the buffer and what the socket will yield, the
  result, the bytes left in the buffer and what is still to come.
\<close>

type_synonym reader = "string \<Rightarrow> arrival list \<Rightarrow> read_result \<times> string \<times> arrival list"

text \<open>
  The reads of the loop, given for each turn whether its write succeeds, its random bytes and its
  clock: \<open>beast::flat_buffer buffer;\<close> starts each of them anew.
\<close>

fun stream_rounds :: "reader \<Rightarrow> arrival list \<Rightarrow> (bool \<times> entropy \<times> (nat \<Rightarrow> ts_ms)) list \<Rightarrow> round list" where
  "stream_rounds read arrivals [] = []"
| "stream_rounds read arrivals ((ok, en, clock) # turns) =
     (case read [] arrivals of
        (got, buffer, arrivals') \<Rightarrow>
          \<lparr> rd_read = got, rd_written = ok, rd_entropy = en, rd_clock = clock \<rparr> # stream_rounds read arrivals' turns)"

definition handle_stream ::
  "'t web \<Rightarrow> file_system \<Rightarrow> string \<Rightarrow> reader \<Rightarrow> arrival list \<Rightarrow> (bool \<times> entropy \<times> (nat \<Rightarrow> ts_ms)) list \<Rightarrow>
     't handler_context \<Rightarrow> response list \<times> 't handler_context" where
  "handle_stream web fs peer read arrivals turns ctx = handle_connection web fs peer (stream_rounds read arrivals turns) ctx"

section \<open>What a client sends\<close>

text \<open>
  What Beast documents of \<open>async_read\<close>, for the bytes of one request: it receives more as long as the
  message is not complete, however it is cut, returns the request when it is, and leaves the bytes it
  received behind the message in the buffer.
\<close>

definition reads :: "reader \<Rightarrow> string \<Rightarrow> request \<Rightarrow> bool" where
  "reads read bytes req \<longleftrightarrow>
     (\<forall>buffer pieces end_piece behind rest.
        buffer @ concat pieces @ end_piece = bytes @ behind \<longrightarrow> length (buffer @ concat pieces) < length bytes \<longrightarrow>
        read buffer (map Bytes (pieces @ [end_piece]) @ rest) = (ReadRequest req, behind, rest))"

text \<open>
  The pieces in which a request arrives: the last of them completes it, and may carry bytes of what
  the client sent after it.
\<close>

record delivery =
  dl_request :: request
  dl_bytes :: string
  dl_pieces :: "string list"
  dl_last :: string
  dl_behind :: string

definition delivers :: "reader \<Rightarrow> delivery \<Rightarrow> bool" where
  "delivers read d \<longleftrightarrow> reads read (dl_bytes d) (dl_request d) \<and>
     concat (dl_pieces d) @ dl_last d = dl_bytes d @ dl_behind d \<and> length (concat (dl_pieces d)) < length (dl_bytes d)"

definition arrivals_of :: "delivery \<Rightarrow> arrival list" where
  "arrivals_of d = map Bytes (dl_pieces d @ [dl_last d])"

fun delivered_rounds :: "delivery list \<Rightarrow> (bool \<times> entropy \<times> (nat \<Rightarrow> ts_ms)) list \<Rightarrow> round list" where
  "delivered_rounds (d # ds) ((ok, en, clock) # turns) =
     \<lparr> rd_read = ReadRequest (dl_request d), rd_written = ok, rd_entropy = en, rd_clock = clock \<rparr> # delivered_rounds ds turns"
| "delivered_rounds ds turns = []"

lemma stream_rounds_delivered:
  assumes "list_all (delivers read) ds" and "length turns = length ds"
  shows "stream_rounds read (concat (map arrivals_of ds) @ incoming) (turns @ later) =
    delivered_rounds ds turns @ stream_rounds read incoming later"
  using assms
proof (induction ds turns rule: delivered_rounds.induct)
  case (1 d ds ok en clock turns)
  then have "delivers read d" by simp
  then have "read [] (arrivals_of d @ concat (map arrivals_of ds) @ incoming) =
      (ReadRequest (dl_request d), dl_behind d, concat (map arrivals_of ds) @ incoming)"
    unfolding arrivals_of_def delivers_def reads_def by simp
  with 1 show ?case by simp
qed auto

text \<open>A served request after which the loop goes on.\<close>

definition goes_on :: "round \<times> request \<Rightarrow> bool" where
  "goes_on = (\<lambda>(rd, req). rd_written rd \<and> rq_keep_alive req)"

lemma dispatch_all_length: "dispatch_all web fs peer rs ctx = (out, ctx') \<Longrightarrow> length out = length rs"
  by (induction rs arbitrary: ctx out ctx') (auto split: prod.splits)

lemma connection_append:
  assumes "beast_ok web" and "\<forall>rd \<in> set rounds. \<exists>req. rd_read rd = ReadRequest req"
    and "dispatch_all web fs peer (served rounds) ctx = (out, ctx1)"
  shows "\<exists>sent. map Some sent = map (\<lambda>(res, rd, req). handed web req res) (zip out (served rounds)) \<and>
    handle_connection web fs peer (rounds @ later) ctx =
      (if list_all goes_on (served rounds)
       then case handle_connection web fs peer later ctx1 of (out2, ctx2) \<Rightarrow> (sent @ out2, ctx2) else (sent, ctx1))"
  using assms(2,3)
proof (induction rounds arbitrary: ctx out)
  case Nil
  then show ?case by (auto split: prod.split)
next
  case (Cons rd rest)
  from Cons.prems(1) obtain req where req: "rd_read rd = ReadRequest req" by auto
  obtain res ctx0 where d: "dispatch web fs (rd_entropy rd) (rd_clock rd) req (client_address req peer) ctx = (res, ctx0)"
    by fastforce
  from handed_Some [OF assms(1) d] obtain r where r: "handed web req res = Some r" by blast
  show ?case
  proof (cases "rd_written rd \<and> rq_keep_alive req")
    case False
    with Cons.prems(2) req d have "out = [res]" "ctx1 = ctx0" by auto
    with False req d r show ?thesis by (intro exI [of _ "[r]"]) (auto simp: goes_on_def)
  next
    case True
    with Cons.prems(2) req d obtain out0 where out0: "dispatch_all web fs peer (served rest) ctx0 = (out0, ctx1)" "out = res # out0"
      by (auto split: prod.splits)
    from Cons.IH [OF _ out0(1)] Cons.prems(1) obtain sent where
      "map Some sent = map (\<lambda>(res, rd, req). handed web req res) (zip out0 (served rest))"
      "handle_connection web fs peer (rest @ later) ctx0 =
        (if list_all goes_on (served rest)
         then case handle_connection web fs peer later ctx1 of (out2, ctx2) \<Rightarrow> (sent @ out2, ctx2) else (sent, ctx1))"
      by auto
    with True req d r out0(2) show ?thesis
      by (intro exI [of _ "r # sent"]) (auto simp: goes_on_def split: prod.splits)
  qed
qed

section \<open>The property\<close>

text \<open>
  \<^bold>\<open>C39.\<close> A connection answers what it reads, in order, and forgets what it read too much. Take any
  number of requests, each cut into pieces by TCP in any way, the last piece of each with any bytes of
  what the client sent next behind it, and then anything else that may arrive. The requests are
  read one after the other up to the first failed write or the first one that asks to close; each is dispatched on the context the previous one left, and its response, as
  Beast prepares it, is sent. When the loop goes on after all of them, it goes on as a new
  connection would with an empty buffer and what arrives then: the bytes behind the end of a request are
  dropped, so a request that arrived with them is never answered, and one that began in them is read
  from its middle.
\<close>

theorem stream_served_in_order:
  assumes "beast_ok web" and "list_all (delivers read) ds" and "length turns = length ds"
    and "rs = served (delivered_rounds ds turns)" and "dispatch_all web fs peer rs ctx = (out, ctx1)"
  shows "\<exists>sent. length sent = length rs \<and>
    map Some sent = map (\<lambda>(res, rd, req). handed web req res) (zip out rs) \<and>
    handle_stream web fs peer read (concat (map arrivals_of ds) @ incoming) (turns @ later) ctx =
      (if list_all (\<lambda>(rd, req). rd_written rd \<and> rq_keep_alive req) rs
       then case handle_stream web fs peer read incoming later ctx1 of (out2, ctx2) \<Rightarrow> (sent @ out2, ctx2)
       else (sent, ctx1))"
proof -
  have "\<forall>rd \<in> set (delivered_rounds ds turns). \<exists>req. rd_read rd = ReadRequest req"
    by (induction ds turns rule: delivered_rounds.induct) auto
  from connection_append [OF assms(1) this, of fs peer ctx out ctx1 "stream_rounds read incoming later"] assms(4,5) obtain sent where
    sent: "map Some sent = map (\<lambda>(res, rd, req). handed web req res) (zip out rs)"
    "handle_connection web fs peer (delivered_rounds ds turns @ stream_rounds read incoming later) ctx =
      (if list_all goes_on rs then case handle_stream web fs peer read incoming later ctx1 of (out2, ctx2) \<Rightarrow> (sent @ out2, ctx2)
       else (sent, ctx1))"
    by (auto simp: handle_stream_def)
  from arg_cong [OF sent(1), of length] dispatch_all_length [OF assms(5)] have "length sent = length rs" by simp
  with sent show ?thesis
    unfolding handle_stream_def [of web fs peer read "concat (map arrivals_of ds) @ incoming"]
      stream_rounds_delivered [OF assms(2,3)] goes_on_def by blast
qed

section \<open>A reader\<close>

text \<open>
  A reader over a parser of a self-delimiting format: it parses what the buffer holds and receives more
  as long as the message is not complete. An end inside a message is a read error, between two messages
  the end of the stream.
\<close>

datatype parse_result = NeedMore | Complete request nat | Malformed

type_synonym parser = "string \<Rightarrow> parse_result"

fun parsing_reader :: "parser \<Rightarrow> reader" where
  "parsing_reader parse buffer arrivals =
     (case parse buffer of
        Complete req n \<Rightarrow> (ReadRequest req, drop n buffer, arrivals)
      | Malformed \<Rightarrow> (ReadError, buffer, arrivals)
      | NeedMore \<Rightarrow>
          (case arrivals of
             Bytes b # rest \<Rightarrow> parsing_reader parse (buffer @ b) rest
           | Reset # rest \<Rightarrow> (PeerClosed, buffer, rest)
           | [] \<Rightarrow> (if buffer = [] then EndOfStream else ReadError, buffer, [])))"

declare parsing_reader.simps [simp del]

text \<open>No proper prefix of the bytes is complete, and what follows them does not matter.\<close>

definition frames :: "parser \<Rightarrow> string \<Rightarrow> request \<Rightarrow> bool" where
  "frames parse bytes req \<longleftrightarrow>
     (\<forall>rest. parse (bytes @ rest) = Complete req (length bytes)) \<and> (\<forall>p q. bytes = p @ q \<longrightarrow> q \<noteq> [] \<longrightarrow> parse p = NeedMore)"

lemma frames_prefix:
  assumes "frames parse bytes req" and "p @ q = bytes @ behind" and "length p < length bytes"
  shows "parse p = NeedMore"
proof -
  from assms(2,3) have "bytes = p @ take (length bytes - length p) q"
    by (metis append_eq_append_conv2 append_eq_conv_conj less_imp_le_nat nat_less_le take_append take_all_iff)
  moreover have "take (length bytes - length p) q \<noteq> []"
    using assms(3) calculation by (metis append_Nil2 less_irrefl)
  ultimately show ?thesis using assms(1) by (auto simp: frames_def)
qed

text \<open>However it is cut, the request is read, and what came with its last piece is left in the buffer.\<close>

lemma parsing_reader_delivers:
  assumes "frames parse bytes req" and "buffer @ concat pieces @ end_piece = bytes @ behind"
    and "length (buffer @ concat pieces) < length bytes"
  shows "parsing_reader parse buffer (map Bytes (pieces @ [end_piece]) @ rest) = (ReadRequest req, behind, rest)"
  using assms(2,3)
proof (induction pieces arbitrary: buffer)
  case Nil
  then have "parse buffer = NeedMore" using frames_prefix [OF assms(1), of buffer] by simp
  moreover from Nil assms(1) have "parse (buffer @ end_piece) = Complete req (length bytes)" by (simp add: frames_def)
  ultimately show ?case using Nil.prems by (subst parsing_reader.simps) (simp add: parsing_reader.simps)
next
  case (Cons b pieces)
  then have "parse buffer = NeedMore" using frames_prefix [OF assms(1), of buffer] by simp
  with Cons.IH [of "buffer @ b"] Cons.prems show ?case by (subst parsing_reader.simps) simp
qed

lemma frames_reads: "frames parse bytes req \<Longrightarrow> reads (parsing_reader parse) bytes req"
  unfolding reads_def using parsing_reader_delivers by blast

text \<open>A parser for requests that are a target and the end of a line.\<close>

definition line_parser :: parser where
  "line_parser buffer =
     (case find_char (CHR 0x0A) buffer of
        None \<Rightarrow> NeedMore
      | Some n \<Rightarrow> Complete (sample_request (take n buffer)) (Suc n))"

lemma line_frames:
  assumes "CHR 0x0A \<notin> set target"
  shows "frames line_parser (target @ [CHR 0x0A]) (sample_request target)"
  unfolding frames_def
proof (intro conjI allI impI)
  show "line_parser ((target @ [CHR 0x0A]) @ rest) = Complete (sample_request target) (length (target @ [CHR 0x0A]))" for rest
    using find_char_append [OF assms, of rest] by (simp add: line_parser_def)
  show "line_parser p = NeedMore" if "target @ [CHR 0x0A] = p @ q" "q \<noteq> []" for p q
  proof -
    from that have "set p \<subseteq> set target" by (metis append_butlast_last_id append_same_eq butlast_append butlast_snoc
        set_append sup_ge1)
    with assms have "CHR 0x0A \<notin> set p" by blast
    then show ?thesis by (simp add: line_parser_def)
  qed
qed

text \<open>
  A request in two pieces, with the first bytes of the next one behind it: the next read sees only the
  rest of that, which names no page.
\<close>

definition sample_delivery :: delivery where
  "sample_delivery = \<lparr> dl_request = sample_request ''/r/7'', dl_bytes = ''/r/7'' @ [CHR 0x0A], dl_pieces = [''/r''],
     dl_last = ''/7'' @ [CHR 0x0A] @ ''/hea'', dl_behind = ''/hea'' \<rparr>"

definition sample_turn :: "bool \<times> entropy \<times> (nat \<Rightarrow> ts_ms)" where
  "sample_turn = (True, sample_entropy, \<lambda>_. 0)"

lemma sample_delivers: "delivers (parsing_reader line_parser) sample_delivery"
proof -
  have "frames line_parser (''/r/7'' @ [CHR 0x0A]) (sample_request ''/r/7'')" by (rule line_frames) simp
  then show ?thesis by (auto simp: sample_delivery_def delivers_def dest: frames_reads)
qed

lemma sample_rest:
  "stream_rounds (parsing_reader line_parser) [Bytes (''lthz'' @ [CHR 0x0A])] [sample_turn] =
     [\<lparr> rd_read = ReadRequest (sample_request ''lthz''), rd_written = True, rd_entropy = sample_entropy, rd_clock = \<lambda>_. 0 \<rparr>]"
  by (simp add: sample_turn_def parsing_reader.simps line_parser_def)

lemma sample_statuses:
  "dispatch sample_web sample_fs sample_entropy (\<lambda>_. 0) (sample_request ''/r/7'') ''::1'' sample_context = (res, ctx1) \<Longrightarrow>
     rs_status res = 302 \<and> hc_cfg ctx1 = hc_cfg sample_context"
  "dispatch sample_web sample_fs sample_entropy (\<lambda>_. 0) (sample_request ''lthz'') ''::1'' ctx1 = (res2, ctx2) \<Longrightarrow>
     hc_cfg ctx1 = hc_cfg sample_context \<Longrightarrow> rs_status res2 = 404"
proof -
  have "rq_verb (sample_request ''/r/7'') = GetVerb" "in_int64 7"
    by (simp_all add: sample_request_def in_int64_def int64_min_def int64_max_def)
  note redirect = dispatch_redirect [OF this(1) sample_path this(2) refl sample_find]
  show "dispatch sample_web sample_fs sample_entropy (\<lambda>_. 0) (sample_request ''/r/7'') ''::1'' sample_context = (res, ctx1) \<Longrightarrow>
     rs_status res = 302 \<and> hc_cfg ctx1 = hc_cfg sample_context"
    using redirect(1,5) by fastforce
  show "dispatch sample_web sample_fs sample_entropy (\<lambda>_. 0) (sample_request ''lthz'') ''::1'' ctx1 = (res2, ctx2) \<Longrightarrow>
     hc_cfg ctx1 = hc_cfg sample_context \<Longrightarrow> rs_status res2 = 404"
    by (auto simp: dispatch_def route_def split_target_def sample_request_def route_path_def sample_context_def
        config_default_def Let_def)
qed

theorem stream_served_in_order_witness:
  "map rs_status (fst (handle_stream sample_web sample_fs ''::1'' (parsing_reader line_parser)
     [Bytes ''/r'', Bytes (''/7'' @ [CHR 0x0A] @ ''/hea''), Bytes (''lthz'' @ [CHR 0x0A])] [sample_turn, sample_turn] sample_context)) =
     [302, 404]"
proof -
  let ?rs = "served (delivered_rounds [sample_delivery] [sample_turn])" and ?rest = "[Bytes (''lthz'' @ [CHR 0x0A])]"
  obtain res ctx1 where one: "dispatch sample_web sample_fs sample_entropy (\<lambda>_. 0) (sample_request ''/r/7'') ''::1'' sample_context = (res, ctx1)"
    by fastforce
  obtain res2 ctx2 where two: "dispatch sample_web sample_fs sample_entropy (\<lambda>_. 0) (sample_request ''lthz'') ''::1'' ctx1 = (res2, ctx2)"
    by fastforce
  have address: "client_address (sample_request target) ''::1'' = ''::1''" for target
    by (simp add: client_address_def sample_request_def)
  have keep: "rq_keep_alive (sample_request target)" for target by (simp add: sample_request_def)
  have rs: "?rs = [(\<lparr> rd_read = ReadRequest (sample_request ''/r/7''), rd_written = True, rd_entropy = sample_entropy,
      rd_clock = \<lambda>_. 0 \<rparr>, sample_request ''/r/7'')]"
    by (simp add: sample_delivery_def sample_turn_def keep)
  have all: "dispatch_all sample_web sample_fs ''::1'' ?rs sample_context = ([res], ctx1)" by (simp add: rs one address)
  have input: "arrivals_of sample_delivery @ ?rest =
      [Bytes ''/r'', Bytes (''/7'' @ [CHR 0x0A] @ ''/hea''), Bytes (''lthz'' @ [CHR 0x0A])]"
    by (simp add: arrivals_of_def sample_delivery_def)
  from handed_Some [OF sample_beast two] obtain out2 where out2: "handed sample_web (sample_request ''lthz'') res2 = Some out2"
    "rs_status out2 = rs_status res2" by blast
  have rest: "handle_stream sample_web sample_fs ''::1'' (parsing_reader line_parser) ?rest [sample_turn] ctx1 = ([out2], ctx2)"
    unfolding handle_stream_def sample_rest by (simp add: address two out2(1) keep)
  from handed_Some [OF sample_beast one] obtain out1 where out1: "handed sample_web (sample_request ''/r/7'') res = Some out1"
    "rs_status out1 = rs_status res" by blast
  have "list_all (delivers (parsing_reader line_parser)) [sample_delivery]" by (simp add: sample_delivers)
  from stream_served_in_order [OF sample_beast this _ refl all, where incoming = ?rest and later = "[sample_turn]"] have
    "handle_stream sample_web sample_fs ''::1'' (parsing_reader line_parser) (arrivals_of sample_delivery @ ?rest)
      [sample_turn, sample_turn] sample_context = ([out1, out2], ctx2)"
    unfolding rest unfolding rs by (auto simp: out1(1) keep)
  then have "fst (handle_stream sample_web sample_fs ''::1'' (parsing_reader line_parser)
      [Bytes ''/r'', Bytes (''/7'' @ [CHR 0x0A] @ ''/hea''), Bytes (''lthz'' @ [CHR 0x0A])] [sample_turn, sample_turn]
      sample_context) = [out1, out2]"
    unfolding input by auto
  then show ?thesis using sample_statuses(1) [OF one] sample_statuses(2) [OF two] out1(2) out2(2) by simp
qed

end
