(* ===== verification/Seed_Beside.thy ===== *)
theory Seed_Beside
  imports Admin_Seed Db_Worker
begin

text \<open>
  The admin tool beside the running server. \<open>ssize-admin seed\<close> is a process of its own on the same
  database file, and the server builds a snapshot from six queries outside a transaction, so a seed
  may commit between any two of them. Migrations run only while no server is up; the server's own
  writes come from the thread that loads the snapshot.
\<close>

section \<open>Loading while others commit\<close>

text \<open>What another process commits while this connection has no transaction open.\<close>

definition other_commit :: "(database \<Rightarrow> database) \<Rightarrow> unit sql" where
  "other_commit f c = (Inr (), c\<lparr> cn_db := f (cn_db c) \<rparr>)"

text \<open>\<open>others k\<close> is what is committed after the k-th query.\<close>

definition load_items_beside :: "(nat \<Rightarrow> database \<Rightarrow> database) \<Rightarrow> faults \<Rightarrow> item list sql" where
  "load_items_beside others faults =
     db_bind (stmt_read faults select_published) (\<lambda>rows.
       let items = map item_of_row rows; index = build_index it_id items in
       db_bind (other_commit (others 0)) (\<lambda>_.
       db_bind (stmt_read faults select_images) (\<lambda>images.
         let items = attach index mr_item_id push_image images items in
         db_bind (other_commit (others 1)) (\<lambda>_.
         db_bind (stmt_read faults select_tags) (\<lambda>tags.
           let items = attach index fst push_tag tags items in
           db_bind (other_commit (others 2)) (\<lambda>_.
           db_bind (stmt_read faults select_sizes) (\<lambda>sizes.
             let items = attach index zr_item_id push_size sizes items in
             db_bind (other_commit (others 3)) (\<lambda>_.
             db_bind (stmt_read faults select_colors) (\<lambda>colors.
               db_return (attach index kr_item_id push_color colors items))))))))))"

definition load_snapshot_beside :: "(nat \<Rightarrow> database \<Rightarrow> database) \<Rightarrow> faults \<Rightarrow> ts_ms \<Rightarrow> catalog sql" where
  "load_snapshot_beside others faults now =
     db_bind (load_items_beside others faults) (\<lambda>items.
     db_bind (other_commit (others 4)) (\<lambda>_.
     db_bind (list_partners faults) (\<lambda>partners.
       db_return (make_catalog now items partners))))"

lemma other_commit_none: "db_bind (other_commit (\<lambda>d. d)) (\<lambda>_. m) = m"
  by (rule ext) (simp add: db_bind_def other_commit_def)

lemma load_snapshot_alone: "load_snapshot_beside (\<lambda>_ d. d) = load_snapshot"
  by (intro ext) (simp add: load_snapshot_beside_def load_items_beside_def load_snapshot_def load_published_items_def
      other_commit_none Let_def)

text \<open>The items when each query sees tables of its own.\<close>

definition items_from :: "database \<Rightarrow> database \<Rightarrow> database \<Rightarrow> database \<Rightarrow> database \<Rightarrow> item list" where
  "items_from d0 d1 d2 d3 d4 =
     (let items = map item_of_row (select_published d0); index = build_index it_id items
      in attach index kr_item_id push_color (select_colors d4)
           (attach index zr_item_id push_size (select_sizes d3)
             (attach index fst push_tag (select_tags d2)
               (attach index mr_item_id push_image (select_images d1) items))))"

lemma other_commit_Inr: "other_commit f c = (Inr u, c') \<Longrightarrow> cn_db c' = f (cn_db c)"
  by (auto simp: other_commit_def)

lemma load_snapshot_beside_Inr:
  assumes "load_snapshot_beside others faults now c = (Inr cat, c')" and "d0 = cn_db c" and "d1 = others 0 d0"
    and "d2 = others 1 d1" and "d3 = others 2 d2" and "d4 = others 3 d3" and "d5 = others 4 d4"
  shows "cat = make_catalog now (items_from d0 d1 d2 d3 d4) (map partner_of_row (db_partners d5))"
  using assms
  by (auto simp: load_snapshot_beside_def load_items_beside_def items_from_def list_partners_def Let_def db_bind_Inr
      db_return_def dest!: stmt_read_Inr other_commit_Inr)

section \<open>Tables that only grow\<close>

definition adds :: "('a \<Rightarrow> bool) \<Rightarrow> 'a list \<Rightarrow> 'a list \<Rightarrow> bool" where
  "adds P xs ys \<longleftrightarrow> (\<exists>zs. ys = xs @ zs \<and> list_all P zs)"

lemma adds_refl [simp]: "adds P xs xs"
  by (auto simp: adds_def)

lemma adds_snoc: "adds P xs ys \<Longrightarrow> P z \<Longrightarrow> adds P xs (ys @ [z])"
  by (auto simp: adds_def)

lemma adds_subset: "adds P xs ys \<Longrightarrow> set xs \<subseteq> set ys"
  by (auto simp: adds_def)

lemma adds_filter: "adds P xs ys \<Longrightarrow> (\<And>y. P y \<Longrightarrow> \<not> Q y) \<Longrightarrow> filter Q ys = filter Q xs"
  by (auto simp: adds_def list_all_iff filter_empty_conv)

definition item_ids :: "database \<Rightarrow> int set" where
  "item_ids d = ir_id ` set (db_items d)"

definition tag_ids :: "database \<Rightarrow> int set" where
  "tag_ids d = tr_id ` set (db_tags d)"

text \<open>The partners stay, rows are appended, and no new row belongs to an item or a tag there was.\<close>

definition grown :: "database \<Rightarrow> database \<Rightarrow> bool" where
  "grown base d \<longleftrightarrow> db_partners d = db_partners base \<and> adds (\<lambda>r. ir_id r \<notin> item_ids base) (db_items base) (db_items d) \<and>
     adds (\<lambda>m. mr_item_id m \<notin> item_ids base) (db_images base) (db_images d) \<and>
     adds (\<lambda>t. tr_id t \<notin> tag_ids base) (db_tags base) (db_tags d) \<and>
     adds (\<lambda>x. xr_item_id x \<notin> item_ids base) (db_item_tags base) (db_item_tags d) \<and>
     adds (\<lambda>z. zr_item_id z \<notin> item_ids base) (db_sizes base) (db_sizes d) \<and>
     adds (\<lambda>k. kr_item_id k \<notin> item_ids base) (db_colors base) (db_colors d)"

lemma grown_refl [simp]: "grown d d"
  by (simp add: grown_def)

lemma grown_fresh:
  assumes "grown base d"
  shows "next_rowid (map ir_id (db_items d)) \<notin> item_ids base" "next_rowid (map tr_id (db_tags d)) \<notin> tag_ids base"
proof -
  from assms have "item_ids base \<subseteq> set (map ir_id (db_items d))" "tag_ids base \<subseteq> set (map tr_id (db_tags d))"
    by (auto simp: grown_def item_ids_def tag_ids_def dest: adds_subset)
  with next_rowid_fresh show "next_rowid (map ir_id (db_items d)) \<notin> item_ids base"
    "next_rowid (map tr_id (db_tags d)) \<notin> tag_ids base" by blast+
qed

text \<open>Every statement of the seed, for an item that is not one of the base.\<close>

lemma grown_statements:
  assumes "grown base d"
  shows "insert_item_stmt fk it d = Inr (i, d') \<Longrightarrow> grown base d' \<and> i \<notin> item_ids base"
    and "insert_tag_stmt slug title d = Inr (t, d') \<Longrightarrow> grown base d'"
    and "i \<notin> item_ids base \<Longrightarrow> attach_tag_stmt fk i t d = Inr (u, d') \<Longrightarrow> grown base d'"
    and "i \<notin> item_ids base \<Longrightarrow> add_image_stmt fk i img d = Inr (u, d') \<Longrightarrow> grown base d'"
    and "i \<notin> item_ids base \<Longrightarrow> insert_size_stmt fk i sz d = Inr (u, d') \<Longrightarrow> grown base d'"
    and "i \<notin> item_ids base \<Longrightarrow> insert_color_stmt fk i k d = Inr (u, d') \<Longrightarrow> grown base d'"
  using assms grown_fresh [OF assms]
  by (auto simp: grown_def insert_item_stmt_def insert_tag_stmt_def attach_tag_stmt_def add_image_stmt_def
      insert_size_stmt_def insert_color_stmt_def Let_def adds_snoc split: if_splits)

lemma grown_tags: "i \<notin> item_ids base \<Longrightarrow> preserves (grown base) (seed_tags faults lib i n g)"
  unfolding upsert_tag_def attach_tag_def
  by (induction n arbitrary: g)
    (auto simp: upsert_tag_def attach_tag_def intro!: preserves_intros preserves_step split: prod.split option.split
      intro: grown_statements(2,3))

lemma grown_sizes: "i \<notin> item_ids base \<Longrightarrow> preserves (grown base) (seed_sizes faults lib i n g)"
  by (induction n arbitrary: g) (auto intro!: preserves_intros preserves_step split: prod.split intro: grown_statements(5))

lemma grown_children: "i \<notin> item_ids base \<Longrightarrow> preserves (grown base) (seed_children faults lib kind i g)"
  unfolding seed_children_def add_image_def
  by (auto intro!: preserves_intros grown_tags grown_sizes preserves_step split: prod.split)
    (erule (2) grown_statements(6) grown_statements(4))+

lemma grown_one: "preserves (grown base) (seed_one faults lib pid now i g)"
proof -
  have "preserves (grown base) (db_bind (insert_item faults it) (\<lambda>item_id. seed_children faults lib kind item_id g'))" for it kind g'
  proof (rule preservesI)
    fix c r c'
    assume ok: "conn_ok (grown base) c"
      and run: "db_bind (insert_item faults it) (\<lambda>item_id. seed_children faults lib kind item_id g') c = (r, c')"
    obtain r1 c1 where one: "insert_item faults it c = (r1, c1)" by fastforce
    have "preserves (grown base) (insert_item faults it)"
      unfolding insert_item_def by (intro preserves_pragma preserves_step) (auto dest: grown_statements(1))
    from preservesD [OF this ok one] have ok1: "conn_ok (grown base) c1" .
    show "conn_ok (grown base) c'"
    proof (cases r1)
      case (Inl e)
      with run one ok1 show ?thesis by (simp add: db_bind_def)
    next
      case (Inr i)
      from with_pragma_step_Inr [OF one [unfolded insert_item_def Inr]] ok have "i \<notin> item_ids base"
        by (auto simp: conn_ok_def dest: grown_statements(1))
      with run one Inr preservesD [OF grown_children ok1] show ?thesis by (simp add: db_bind_def)
    qed
  qed
  then show ?thesis unfolding seed_one_def by (simp split: prod.split)
qed

lemma grown_loop: "preserves (grown base) (seed_loop faults lib pid now i n g)"
  by (induction n arbitrary: i g) (auto intro!: preserves_intros grown_one)

lemma grown_body: "preserves (grown base) (seed_body faults lib g now cnt)"
  unfolding seed_body_def find_partner_by_code_def
  by (auto intro!: preserves_intros grown_loop split: option.split)

lemma committed_ok: "conn_ok P c \<Longrightarrow> P (committed c)"
  by (auto simp: conn_ok_def committed_def split: option.split)

lemma cmd_seed_grown:
  assumes "grown base d" and "cmd_seed faults lib g now cnt d = (r, d')"
  shows "grown base d'"
  using assms(2) unfolding cmd_seed_def
proof (cases rule: with_conn_cases)
  case (opened c c')
  have "conn_ok (grown base) c" using opened(1,2) assms(1) by (simp add: conn_ok_def)
  from committed_ok [OF preservesD [OF grown_body this opened(4)]] opened(5) show ?thesis by simp
qed (use assms(1) in simp)

section \<open>What an item shows does not change\<close>

lemma grown_children_of:
  assumes "grown base d" and "i \<in> item_ids base" and "children_wf base"
  shows "images_of d i = images_of base i" "tags_of d i = tags_of base i"
    "filter (\<lambda>z. zr_item_id z = i) (db_sizes d) = filter (\<lambda>z. zr_item_id z = i) (db_sizes base)"
    "filter (\<lambda>k. kr_item_id k = i) (db_colors d) = filter (\<lambda>k. kr_item_id k = i) (db_colors base)"
proof -
  note g = assms(1) [unfolded grown_def]
  have "filter (\<lambda>m. mr_item_id m = i) (db_images d) = filter (\<lambda>m. mr_item_id m = i) (db_images base)"
    by (rule adds_filter [where P = "\<lambda>m. mr_item_id m \<notin> item_ids base"]) (use g assms(2) in auto)
  then show "images_of d i = images_of base i" by (simp add: images_of_def)
  show "filter (\<lambda>z. zr_item_id z = i) (db_sizes d) = filter (\<lambda>z. zr_item_id z = i) (db_sizes base)"
    by (rule adds_filter [where P = "\<lambda>z. zr_item_id z \<notin> item_ids base"]) (use g assms(2) in auto)
  show "filter (\<lambda>k. kr_item_id k = i) (db_colors d) = filter (\<lambda>k. kr_item_id k = i) (db_colors base)"
    by (rule adds_filter [where P = "\<lambda>k. kr_item_id k \<notin> item_ids base"]) (use g assms(2) in auto)
  have own: "filter (\<lambda>x. xr_item_id x = i) (db_item_tags d) = filter (\<lambda>x. xr_item_id x = i) (db_item_tags base)"
    by (rule adds_filter [where P = "\<lambda>x. xr_item_id x \<notin> item_ids base"]) (use g assms(2) in auto)
  have "filter (\<lambda>t. tr_id t = xr_tag_id x) (db_tags d) = filter (\<lambda>t. tr_id t = xr_tag_id x) (db_tags base)"
    if "x \<in> set (db_item_tags base)" for x
  proof -
    have "xr_tag_id x \<in> tag_ids base" using assms(3) that by (auto simp: children_wf_def tag_ids_def)
    then show ?thesis by (intro adds_filter [where P = "\<lambda>t. tr_id t \<notin> tag_ids base"]) (use g in auto)
  qed
  then show "tags_of d i = tags_of base i"
    unfolding tags_of_def own by (intro arg_cong [where f = "\<lambda>xs. stable_sort string_less (concat xs)"] map_cong) auto
qed

lemma items_from_grown:
  assumes "db_wf d0" and "grown d0 d1" and "grown d0 d2" and "grown d0 d3" and "grown d0 d4"
  shows "items_from d0 d1 d2 d3 d4 = map (load_one d0) (select_published d0)"
proof -
  from assms(1) have dist: "distinct (map ir_id (db_items d0))" and kids: "children_wf d0"
    by (simp_all add: db_wf_def items_wf_def)
  let ?rows = "select_published d0" let ?items = "map item_of_row ?rows"
  have ids: "distinct (map it_id ?items)"
    using select_published_distinct [OF dist] by (simp add: comp_def)
  have mem: "ir_id r \<in> item_ids d0" if "r \<in> set ?rows" for r
    using that by (auto simp: select_published_def item_ids_def)
  note step = attach_eq [where ?items0.0 = ?items]
  have "items_from d0 d1 d2 d3 d4 = map (\<lambda>r. (item_of_row r)\<lparr>
      it_images := map image_of_row (images_of d1 (ir_id r)), it_tags := tags_of d2 (ir_id r),
      it_sizes := map zr_size (filter (\<lambda>z. zr_item_id z = ir_id r) (db_sizes d3)),
      it_colors := map color_of_row (filter (\<lambda>k. kr_item_id k = ir_id r) (db_colors d4)) \<rparr>) ?rows"
    unfolding items_from_def Let_def
    apply (subst step [OF ids refl], simp)
    apply (subst step, use ids in \<open>simp add: comp_def foldl_push\<close>, simp add: comp_def foldl_push, simp)
    apply (subst step, use ids in \<open>simp add: comp_def foldl_push\<close>, simp add: comp_def foldl_push, simp)
    apply (subst step, use ids in \<open>simp add: comp_def foldl_push\<close>, simp add: comp_def foldl_push, simp)
    apply (simp add: comp_def foldl_push select_images_of select_tags_of select_sizes_of select_colors_of)
    done
  also have "\<dots> = map (load_one d0) ?rows"
    using grown_children_of [OF assms(2) mem kids] grown_children_of [OF assms(3) mem kids]
      grown_children_of [OF assms(4) mem kids] grown_children_of [OF assms(5) mem kids]
    by (intro map_cong refl) (simp add: load_one_def)
  finally show ?thesis .
qed

section \<open>The property\<close>

text \<open>
  \<^bold>\<open>C20.\<close> Seeding beside a refresh is harmless. The worker loads a snapshot by six queries outside a
  transaction. Whatever runs of \<open>ssize-admin seed\<close>, successful or failing, commit between any two of them,
  the snapshot is the one of the moment the refresh began: every published item there was, with exactly its
  own images, tags, sizes and colours, and every partner; no item of a seed appears without
  its children. The next refresh shows the new items.
\<close>

theorem seeding_beside_refresh:
  assumes "db_wf (cn_db c)"
    and others: "\<And>k d. others k d = snd (cmd_seed (fl k) (lib k) (gen k) (start k) (cnt k) d)"
    and "load_snapshot_beside others faults now c = (Inr cat, c')"
  shows "cat = make_catalog now (map (load_one (cn_db c)) (select_published (cn_db c)))
    (map partner_of_row (db_partners (cn_db c)))"
proof -
  let ?d0 = "cn_db c"
  have seed: "grown ?d0 d \<Longrightarrow> grown ?d0 (others k d)" for k d
    unfolding others by (metis cmd_seed_grown prod.collapse)
  let ?d1 = "others 0 ?d0" let ?d2 = "others 1 ?d1" let ?d3 = "others 2 ?d2" let ?d4 = "others 3 ?d3"
  have grown: "grown ?d0 ?d1" "grown ?d0 ?d2" "grown ?d0 ?d3" "grown ?d0 ?d4" "grown ?d0 (others 4 ?d4)"
    by (intro seed grown_refl)+
  from load_snapshot_beside_Inr [OF assms(3) refl refl refl refl refl refl] items_from_grown [OF assms(1) grown(1-4)]
    grown(5) show ?thesis by (simp add: grown_def)
qed

lemma seeds_one: "length (db_items (snd (cmd_seed (\<lambda>_. NoFault) lowest_draws () 0 1 direct_database))) = 1"
  by code_simp

theorem seeding_beside_refresh_witness:
  "\<exists>others cat c'. length (db_items (others 0 direct_database)) = 1 \<and>
     load_snapshot_beside others (\<lambda>_. NoFault) 0 (new_conn direct_database) = (Inr cat, c') \<and>
     cat = make_catalog 0 [] (map partner_of_row (db_partners direct_database))"
proof -
  let ?others = "\<lambda>k :: nat. \<lambda>d. snd (cmd_seed (\<lambda>_. NoFault) lowest_draws () 0 1 d)"
  obtain cat c' where run: "load_snapshot_beside ?others (\<lambda>_. NoFault) 0 (new_conn direct_database) = (Inr cat, c')"
    by (simp add: load_snapshot_beside_def load_items_beside_def list_partners_def dbm_simps other_commit_def Let_def)
  have wf: "db_wf (cn_db (new_conn direct_database))"
    by (simp add: new_conn_def direct_database_def empty_database_def db_wf_def items_wf_def children_wf_def events_wf_def
        conversions_wf_def stats_wf_def present_def)
  have none: "select_published direct_database = []"
    by (simp add: select_published_def direct_database_def empty_database_def stable_sort_def)
  from seeding_beside_refresh [OF wf refl run] have
    "cat = make_catalog 0 [] (map partner_of_row (db_partners direct_database))" by (simp add: new_conn_def none)
  with run seeds_one show ?thesis by (intro exI [of _ ?others] exI [of _ cat] exI [of _ c'] conjI)
qed

end
