(* ===== verification/Test_Suite.thy ===== *)
theory Test_Suite
  imports Migrations Db_Metrics Handlers
begin

text \<open>
  The unit tests of the repository (\<open>src/tests\<close>), on the definitions of the development: each \<open>CHECK\<close>
  and \<open>REQUIRE\<close> is a conjunct of the lemma of its \<open>TEST_CASE\<close>, evaluated on the inputs of the test. They
  tie the model to what the authors expect of the code. The two checks that different salts or
  addresses give different hashes are about libsodium; the check that 2000 random click tokens
  differ is about the random source.
\<close>

section \<open>Links (\<open>test_links.cpp\<close>)\<close>

lemma test_unreserved: "url_encode ''abcXYZ019-_.~'' = ''abcXYZ019-_.~''"
  by code_simp

lemma test_escapes:
  "url_encode ''https://ozon.ru/p?a=1&b=2'' = ''https%3A%2F%2Fozon.ru%2Fp%3Fa%3D1%26b%3D2''"
  "url_encode '' '' = ''%20''"
  by code_simp+

definition test_vars :: link_vars where
  "test_vars = \<lparr> lv_url = ''https://shop.example/p/1?ref=x'', lv_subid = ''7Kq2mZ8xR1aP'', lv_campaign = ''abc123'' \<rparr>"

lemma test_render:
  "render_link ''{url}'' test_vars = ''https://shop.example/p/1?ref=x''"
  "render_link ''https://ad.admitad.com/g/{campaign}/?subid={subid}&ulp={url_enc}'' test_vars =
     ''https://ad.admitad.com/g/abc123/?subid=7Kq2mZ8xR1aP&ulp=https%3A%2F%2Fshop.example%2Fp%2F1%3Fref%3Dx''"
  by code_simp+

lemma test_unknown_placeholder:
  "render_link ''{url}?x={typo}'' \<lparr> lv_url = ''u'', lv_subid = ''s'', lv_campaign = ''c'' \<rparr> = ''u?x={typo}''"
  "render_link ''{url}?x={oo'' \<lparr> lv_url = ''u'', lv_subid = ''s'', lv_campaign = ''c'' \<rparr> = ''u?x={oo''"
  by code_simp+

lemma test_token:
  assumes "length raw = kLen"
  shows "length (make_click_token raw) = 12" and "url_encode (make_click_token raw) = make_click_token raw"
  using click_token_url_safe [OF assms] by simp_all

section \<open>Request text (\<open>test_handlers.cpp\<close>)\<close>

lemma test_parse_query:
  "parse_query ''tag=techwear&p=4&utm_source=tg%20channel'' ''tag'' = Some ''techwear''"
  "parse_query ''tag=techwear&p=4&utm_source=tg%20channel'' ''p'' = Some ''4''"
  "parse_query ''tag=techwear&p=4&utm_source=tg%20channel'' ''utm_source'' = Some ''tg channel''"
  by code_simp+

lemma test_valueless:
  "parse_query ''a&b=&c=1'' ''a'' = Some []" "parse_query ''a&b=&c=1'' ''b'' = Some []"
  "parse_query ''a&b=&c=1'' ''c'' = Some ''1''"
  by code_simp+

lemma test_empty_query: "parse_query [] = Map.empty"
  by (simp add: parse_query_def parse_query_loop.simps)

lemma test_url_decode:
  "url_decode ''a+b'' = ''a b''" "url_decode ''%D1%85'' = [CHR 0xD1, CHR 0x85]" "url_decode ''100%'' = ''100%''"
  by code_simp+

lemma test_cookie:
  "cookie_value ''aid=abc123; sid=def456; other=zzz'' ''aid'' = ''abc123''"
  "cookie_value ''aid=abc123; sid=def456; other=zzz'' ''sid'' = ''def456''"
  "cookie_value ''aid=abc123; sid=def456; other=zzz'' ''missing'' = []"
  "cookie_value ''aid=abc'' ''id'' = []"
  by code_simp+

lemma test_split_target:
  "split_target ''/r/8123?p=4&s=feed'' = \<lparr> tg_path = ''/r/8123'', tg_query = ''p=4&s=feed'' \<rparr>"
  "split_target ''/item/1'' = \<lparr> tg_path = ''/item/1'', tg_query = [] \<rparr>"
  by code_simp+

section \<open>Catalog (\<open>test_catalog.cpp\<close>)\<close>

definition test_item :: "int \<Rightarrow> rat \<Rightarrow> ts_ms \<Rightarrow> string list \<Rightarrow> string list \<Rightarrow> item" where
  "test_item i score published tags sizes = item_default\<lparr> it_id := i, it_score := score, it_published_at := Some published,
     it_tags := tags, it_sizes := sizes, it_status := Published \<rparr>"

lemma test_order:
  "map it_id (cat_feed (make_catalog 0 [test_item 1 1 100 [] [], test_item 2 5 50 [] [], test_item 3 5 90 [] []] [])) = [3, 2, 1]"
  by code_simp

lemma test_find:
  "map_option it_id (cat_find (make_catalog 0 [test_item 7 0 0 [] [], test_item 9 0 0 [] []] []) 7) = Some 7"
  "cat_find (make_catalog 0 [test_item 7 0 0 [] [], test_item 9 0 0 [] []] []) 123 = None"
  by code_simp+

definition test_shelf :: catalog where
  "test_shelf = make_catalog 0 [test_item 1 0 0 [''techwear''] [''M''], test_item 2 0 0 [''y2k''] [''M'', ''L''],
     test_item 3 0 0 [''techwear''] [''L'']] []"

lemma test_filters:
  "length (cat_query test_shelf ''techwear'' [] 0 10) = 2" "length (cat_query test_shelf [] ''L'' 0 10) = 2"
  "map it_id (cat_query test_shelf ''techwear'' ''L'' 0 10) = [3]"
  by code_simp+

lemma test_pages:
  "map it_id (cat_query (make_catalog 0 (map (\<lambda>i. test_item (i + 1) 0 (10 - i) [] []) [0, 1, 2, 3, 4, 5, 6, 7, 8, 9]) []) [] [] 3 2) = [4, 5]"
  by code_simp

lemma test_tags:
  "cat_all_tags (make_catalog 0 [test_item 1 0 0 [''b'', ''a''] [], test_item 2 0 0 [''a'', ''c''] []] []) = [''a'', ''b'', ''c'']"
  by code_simp

section \<open>Queues and classification (\<open>test_events.cpp\<close>)\<close>

lemma test_user_agents:
  "classify_ua ''Mozilla/5.0 (iPhone; CPU iPhone OS 17_0)'' = ''mobile''"
  "classify_ua ''Mozilla/5.0 (Windows NT 10.0; Win64; x64)'' = ''desktop''"
  "classify_ua ''Mozilla/5.0 (compatible; YandexBot/3.0)'' = ''bot''"
  "classify_ua ''curl/8.0'' = ''bot''" "classify_ua [] = ''bot''"
  by code_simp+

lemma test_event_queue:
  "let evs = map (\<lambda>i. event_default\<lparr> ev_type := Impression, ev_item_id := Some i \<rparr>) [0, 1, 2, 3, 4];
       q = fold (\<lambda>ev q. snd (event_push ev q)) evs (new_event_queue 100000);
       (batch, q1) = event_drain [] q
   in length batch = 5 \<and> fst (event_drain batch q1) = []"
  by (simp add: event_push_def event_drain_def new_event_queue_def)

lemma test_full_queue:
  "let (a, q1) = event_push event_default (new_event_queue 2); (b, q2) = event_push event_default q1;
       (c, q3) = event_push event_default q2
   in a \<and> b \<and> \<not> c \<and> event_dropped q3 = 1"
  by (simp add: event_push_def event_dropped_def new_event_queue_def)

lemma test_conversion_queue:
  "let cv = conversion_default\<lparr> cv_click_token := ''TOKEN'', cv_order_ref := ''order-1'', cv_amount := Some 499000,
         cv_status := ''approved'' \<rparr>;
       (ok, q) = conversion_push cv new_conversion_queue; (batch, q1) = conversion_drain [] q
   in ok \<and> map cv_click_token batch = [''TOKEN''] \<and> map cv_amount batch = [Some 499000] \<and> fst (conversion_drain batch q1) = []"
  by (simp add: conversion_push_def conversion_drain_def new_conversion_queue_def)

text \<open>A snapshot that was read stays what it was when another one is published.\<close>

lemma test_held_snapshot:
  "let ptr = (\<lambda>a i. \<lparr> cp_addr = a, cp_obj = make_catalog 0 [test_item i 0 0 [] []] [] \<rparr>);
       h = handle_set (ptr 1 1) \<lparr> ch_ptr = \<lparr> cp_addr = 0, cp_obj = empty_catalog \<rparr> \<rparr>;
       held = cp_obj (handle_get h); h1 = handle_set (ptr 2 2) h
   in cat_size held = 1 \<and> cat_find held 1 \<noteq> None \<and> cat_find (cp_obj (handle_get h1)) 2 \<noteq> None"
  by code_simp

section \<open>Migrations and metrics (\<open>test_migrations.cpp\<close>)\<close>

text \<open>
  A database file that was just created, and the script \<open>001_init.sql\<close> on it: it creates the tables
  and inserts the partner \<open>direct\<close>.
\<close>

definition created_database :: database where
  "created_database = empty_database\<lparr> db_user_version := 0 \<rparr>"

definition init_sql :: "database \<Rightarrow> database" where
  "init_sql d = d\<lparr> db_partners := db_partners d @
     [\<lparr> pr_id = next_rowid (map pr_id (db_partners d)), pr_code = ''direct'',
        pr_title = [CHR 0xD0, CHR 0x9F, CHR 0xD1, CHR 0x80, CHR 0xD1, CHR 0x8F, CHR 0xD0, CHR 0xBC, CHR 0xD0, CHR 0xB0,
          CHR 0xD1, CHR 0x8F, CHR 0x20, CHR 0xD1, CHR 0x81, CHR 0xD1, CHR 0x81, CHR 0xD1, CHR 0x8B, CHR 0xD0, CHR 0xBB,
          CHR 0xD0, CHR 0xBA, CHR 0xD0, CHR 0xB0],
        pr_link_template = ''{url}'', pr_enabled = 1, pr_created_at = 0 \<rparr>] \<rparr>"

definition repo_migrations :: "dir_entry list option" where
  "repo_migrations = Some [\<lparr> de_name = ''001_init.sql'', de_regular = True, de_extension = ''.sql'' \<rparr>]"

definition migrate_repo :: "int sql" where
  "migrate_repo = apply_migrations (\<lambda>_. NoFault) (\<lambda>script d. (None, init_sql d)) (\<lambda>name. Some []) repo_migrations"

definition migrated_conn :: "database conn" where
  "migrated_conn = snd (migrate_repo (opened_conn created_database))"

lemma test_migrations_idempotent:
  "fst (migrate_repo (opened_conn created_database)) = Inr 1" "fst (migrate_repo migrated_conn) = Inr 1"
  "cn_db (snd (migrate_repo migrated_conn)) = cn_db migrated_conn"
  by code_simp+

lemma test_direct_partner:
  "case fst (find_partner_by_code (\<lambda>_. NoFault) ''direct'' migrated_conn) of
     Inr (Some p) \<Rightarrow> pt_link_template p = ''{url}'' \<and> pt_enabled p | _ \<Rightarrow> False"
  by code_simp

definition test_click :: event where
  "test_click = event_default\<lparr> ev_ts := 1700000000000, ev_anon_id := ''anon'', ev_session_id := ''sess'', ev_type := Outbound,
     ev_item_id := Some 1, ev_position := Some 3, ev_click_token := ''TESTTOKEN123'' \<rparr>"

definition clicked_conn :: "database conn" where
  "clicked_conn = snd (insert_events (\<lambda>_. NoFault) [test_click] migrated_conn)"

lemma test_postback_matched:
  "fst (record_conversion (\<lambda>_. NoFault) \<lparr> cv_click_token = ''TESTTOKEN123'', cv_ts = ev_ts test_click + 1000,
     cv_order_ref = ''order-1'', cv_amount = Some 499000, cv_status = ''approved'', cv_raw = ''raw=1'' \<rparr> clicked_conn) = Inr True"
  "fst (record_conversion (\<lambda>_. NoFault) \<lparr> cv_click_token = ''NEVERISSUED'', cv_ts = ev_ts test_click,
     cv_order_ref = ''order-2'', cv_amount = Some 100, cv_status = ''approved'', cv_raw = [] \<rparr> clicked_conn) = Inr False"
  by code_simp+

end
