(* ===== verification/Spec2Isabelle.thy ===== *)
theory Spec2Isabelle
  imports Process Admin_Cli Db_Refinement Http_System Stored_Data Payout Http_Stream Seed_Beside Test_Suite
begin

text \<open>
  \<^bold>\<open>s-size: a verification development.\<close>

  The program is the server of a small affiliate catalog: it shows items from a catalog,
  sends visitors to partner shops through a counted redirect, collects impressions and
  clicks, and matches affiliate postbacks to clicks. One HTTP thread serves requests from an
  immutable catalog snapshot and puts events and postbacks into queues; one database thread
  owns the sqlite connection, rebuilds the snapshot, writes the queues and maintains the
  statistics. The development translates the C++ sources under \<open>src/src\<close> function by
  function; names are those of the sources, with a short prefix for record fields.

  \<^bold>\<open>Theories, in the order of the dependencies.\<close>

  \<^item> \<open>Prelude\<close>: what the sources use of C++ and its library (fixed-width casts, searching,
    \<open>std::from_chars\<close>, \<open>std::to_string\<close>, \<open>emplace\<close>, \<open>std::stable_sort\<close>), the shared
    lemmas, and three interfaces as locales: \<open>strict_weak\<close> (a comparison and what a stable sort
    then promises), \<open>codec\<close> (encodings that can be read back) and \<open>inductive_invariant\<close>.
  \<^item> \<open>Models\<close> (\<open>models.hpp\<close>, \<open>models.cpp\<close>): the data. \<open>Links\<close> (\<open>links.cpp\<close>): percent-encoding,
    click tokens, partner templates with their meaning as a list of pieces.
  \<^item> \<open>Request_Text\<close> (the text helpers of \<open>handlers.cpp\<close>): integers, percent-decoding, query
    strings, cookies, targets, each with its round trip.
  \<^item> \<open>Catalog\<close> (\<open>catalog.hpp\<close>, \<open>catalog.cpp\<close>): the snapshot, its lookups and pages, the shared
    handle; the locale \<open>snapshot_view\<close> is what request handlers rely on.
  \<^item> \<open>Events\<close> (\<open>events.hpp\<close>, \<open>events.cpp\<close>): both queues as instances of the locale
    \<open>drained_queue\<close>, the user agent classes, the IP hash.
  \<^item> \<open>Sql_Conn\<close> (\<open>DbConn::DbConn\<close>, \<open>DbConn::exec\<close> and statements as single calls, \<open>db.cpp\<close>): a
    connection with its open transaction, its \<open>foreign_keys\<close> setting and a call counter. Any call may
    fail, with or without sqlite rolling the transaction back; the locale \<open>transaction_body\<close> proves the pattern \<open>BEGIN\<close>, work,
    \<open>COMMIT\<close>, else \<open>ROLLBACK\<close> atomic for every body.
  \<^item> \<open>Db\<close>, \<open>Db_Facts\<close>, \<open>Db_Metrics\<close>, \<open>Db_Load\<close> (\<open>db.cpp\<close>, \<open>migrations/001_init.sql\<close>): the tables,
    every operation as a function on them, the schema's constraints as an invariant, and what
    each operation does.
  \<^item> \<open>Sql_Stmt\<close> (\<open>Stmt\<close> of \<open>db.hpp\<close> and \<open>db.cpp\<close>): prepared statements with parameters and a cursor,
    one definition per member function. \<open>Sql_Refine\<close>: when a sequence of such calls implements an
    operation that \<open>Sql_Conn\<close> counts as one call. \<open>Db_Statements\<close>: every operation of \<open>DbConn\<close> again,
    call by call (suffix \<open>_c\<close>). \<open>Db_Refinement\<close>: they implement the operations of \<open>Db\<close>, and are well
    typed.
  \<^item> \<open>Config\<close> (\<open>config.cpp\<close>), \<open>Templating\<close> (\<open>templating.cpp\<close>), \<open>Migrations\<close> (\<open>migrations.cpp\<close>).
  \<^item> \<open>Amounts\<close>: \<open>std::stod\<close> and IEEE rounding, as \<open>handle_postback\<close> uses them.
  \<^item> \<open>Handlers\<close> (\<open>handlers.hpp\<close>, \<open>handlers.cpp\<close>): the context, every handler and \<open>dispatch\<close>.
    Its properties are in \<open>Handlers_Facts\<close> (what every response carries, identity),
    \<open>Outbound\<close> (the redirect and the links that lead to it), \<open>Feed_Cache\<close> (the page cache)
    and \<open>Intake\<close> (postbacks, beacons, files).
  \<^item> \<open>Http_Server\<close> (\<open>http_server.cpp\<close>): one connection and the acceptor, each alone. \<open>Http_Stream\<close>: the reads of
    a connection on the bytes of its socket and its buffer. What Beast reads, prepares and sets
    on a response are arguments, with what it documents as the hypotheses \<open>beast_ok\<close> and \<open>reads\<close>.
  \<^item> \<open>Db_Worker\<close> (\<open>db_worker.cpp\<close>): the jobs and the loop of the database thread.
  \<^item> \<open>Server_System\<close>: both threads as a step relation in which requests may come between any two
    actions of the database thread, and its invariant.
  \<^item> \<open>Stored_Data\<close>: what the rows of the metrics tables can hold, as a second invariant of that relation.
  \<^item> \<open>Funnel\<close>, \<open>Payout\<close>: the life of one sale on that relation. \<open>Funnel\<close> follows a click and its postback
    through queues, batches and tables and counts the actions of the database thread that are left;
    \<open>Payout\<close> adds the two requests, the theorem that the order is recorded, and the window in which it is not.
  \<^item> \<open>Http_System\<close> (\<open>http_server.cpp\<close>): the HTTP thread with its acceptor and the coroutines of all
    connections, as a step relation beside the database thread; each of its runs is a run of
    \<open>Server_System\<close>, and each run of \<open>handle_connection\<close> is one of its runs.
  \<^item> \<open>Process\<close> (\<open>main.cpp\<close>): the start of the server with every way it can end, the wait for a
    signal as a step relation between the main thread and the signal handler, the shutdown.
  \<^item> \<open>Admin_Seed\<close>, \<open>Admin_Stats\<close>, \<open>Admin_Cli\<close> (\<open>admin_cli.cpp\<close>): the demo catalog, the report, and
    \<open>main\<close> of the admin tool with its exit codes. \<open>Seed_Beside\<close>: the seed between the queries of a refresh of
    the running server.
  \<^item> \<open>Test_Suite\<close> (\<open>src/tests\<close>): the checks of the repository's unit tests, proved of the definitions here.

  \<^bold>\<open>What the properties show.\<close> On the whole server: conversions exist only for clicks it
  served, a click whose order is reported is recorded after a bounded number of actions of the database
  thread unless the report falls into one window between two drains, which is shown to lose it, the
  reachable states are sound and the feed is never stale for filters without the cache's separator
  character, and the worker's loop is covered by the step relation; a start that reaches serving has
  migrated the database and is an initial state of that relation, and a signal ends the wait of the main thread unless it falls into one window, which is named.
  On the way out: the redirect and its event agree, and the links on the cards lead to it. On the way in: postbacks are authenticated, beacons cannot
  forge clicks, and it is exact what the containment test of the file handler keeps out. In storage: batches are atomic, orders have one
  row, rollups and pruning keep the statistics exact, the batched load equals one query per
  item, the constraints hold after every outcome because the connection turns their checks on, migrations stop at whole versions and
  converge, and all operations are implemented by the statements the code prepares, binds and
  steps. In the admin tool: seeding is all or nothing, the report agrees with the tables, exit codes
  are the documented ones. Below them: round trips of the text formats, the order and the slices
  of the feed, the queues and the configuration.

  \<^bold>\<open>Choices.\<close> Everything outside the sources is an argument: sqlite's failures (\<open>faults\<close>),
  libsodium, Beast, the JSON and TOML parsers and the template engine, the file system, sockets,
  random bytes and clocks. No definition needs fuel: loops are structural or have a
  measure, and the loops of threads run over the list of their inputs. C++ exceptions are
  left values of sums, and the state after an exception is part of the result. Sqlite
  statements are atomic functions on the tables, rows that an \<open>ORDER BY\<close> does not separate
  stay in storage order, and integers are unbounded where the code has no cast (\<open>Stored_Data\<close> shows which
  stored ones stay within their types; times come from the clock and are not among them); scores are rationals, whose
  order is all the program uses. The snapshot is loaded by several queries outside a
  transaction; \<open>load_snapshot\<close> has no other writer between them, and \<open>Seed_Beside\<close> shows that the only one
  there can be, the seed command, makes no difference.

  \<^bold>\<open>Not modelled:\<close> logging and the layout of printed lines, the option parser (its result is an
  argument), sleeping, the sockets and the scheduler of Boost (any order is allowed), sqlite's own
  conversions between types (shown not to be used), moving a statement, the templates, assets and deployment files.
\<close>

section \<open>A sample run\<close>

lemma sample_step:
  "step sample_web sample_system (sample_system\<lparr>
     sy_http := snd (dispatch sample_web sample_fs sample_entropy (\<lambda>_. 0) (sample_request ''/r/7'') ''::1'' sample_context),
     sy_issued := issue (fst (dispatch sample_web sample_fs sample_entropy (\<lambda>_. 0) (sample_request ''/r/7'') ''::1'' sample_context))
       sample_entropy (sy_issued sample_system) \<rparr>)"
  by (rule step.request [where fs = sample_fs and clock = "\<lambda>_. 0" and req = "sample_request ''/r/7''" and ip = "''::1''"])
    (simp add: sample_system_def)

text \<open>A click that reaches the table of a server on an empty database.\<close>

lemma store_one:
  "\<exists>c. insert_events (\<lambda>_. NoFault) [ev] (opened_conn empty_database) = (Inr (), c) \<and> db_events (committed c) \<noteq> []"
  by (simp add: insert_events_def in_transaction_def dbm_simps opened_conn_def insert_event_stmt_def token_known_def
      empty_database_def committed_def Let_def)

lemma quiet_click_stored: "\<exists>s. (step sample_web)\<^sup>*\<^sup>* quiet_system s \<and> db_events (committed (sy_conn s)) \<noteq> []"
proof -
  let ?d = "dispatch sample_web sample_fs sample_entropy (\<lambda>_. 0) (sample_request ''/r/7'') ''::1'' sample_context"
  let ?s1 = "quiet_system\<lparr> sy_http := snd ?d, sy_issued := issue (fst ?d) sample_entropy (sy_issued quiet_system) \<rparr>"
  have one: "step sample_web quiet_system ?s1"
    by (rule step.request [where fs = sample_fs and clock = "\<lambda>_. 0" and req = "sample_request ''/r/7''" and ip = "''::1''"])
      (simp add: quiet_system_def sample_system_def)
  have "rq_verb (sample_request ''/r/7'') = GetVerb" "in_int64 7"
    by (simp_all add: sample_request_def in_int64_def int64_min_def int64_max_def)
  note facts = dispatch_redirect(5) [OF this(1) sample_path this(2) refl sample_find, of sample_web sample_fs sample_entropy
      "\<lambda>_. 0" "''::1''" "fst ?d" "snd ?d"]
  then obtain ev where ev: "eq_pending (hc_events (snd ?d)) = [ev]"
    by (simp add: event_push_def sample_context_def new_event_queue_def)
  let ?q = "snd (event_drain [] (hc_events (snd ?d)))"
  let ?s2 = "?s1\<lparr> sy_http := (snd ?d)\<lparr> hc_events := ?q \<rparr>, sy_phase := Writing [ev] \<rparr>"
  have two: "step sample_web ?s1 ?s2"
    using step.drain_clicks [of ?s1 "[ev]" ?q sample_web] ev
    by (simp add: event_drain_def quiet_system_def sample_system_def)
  obtain c where c: "insert_events (\<lambda>_. NoFault) [ev] (opened_conn empty_database) = (Inr (), c)" "db_events (committed c) \<noteq> []"
    using store_one by blast
  have "step sample_web ?s2 (?s2\<lparr> sy_conn := c, sy_phase := Written \<rparr>)"
    by (rule step.write_clicks) (use c(1) in \<open>simp_all add: quiet_system_def\<close>)
  with one two have "(step sample_web)\<^sup>*\<^sup>* quiet_system (?s2\<lparr> sy_conn := c, sy_phase := Written \<rparr>)"
    by (meson converse_rtranclp_into_rtranclp r_into_rtranclp)
  moreover have "db_events (committed (sy_conn (?s2\<lparr> sy_conn := c, sy_phase := Written \<rparr>))) \<noteq> []" using c(2) by simp
  ultimately show ?thesis by blast
qed

section \<open>Properties of the whole server\<close>

text \<open>
  \<^bold>\<open>C1.\<close> Revenue is tied to clicks the server made. In every state the two threads can
  reach, under every interleaving of requests and database work and with any failures of
  sqlite, each committed conversion row and each recorded click token belongs to a redirect this
  server answered with a 302, or was in the database when it started. Nobody can add revenue for
  a click that was never served, not even with the postback secret.
\<close>

theorem conversions_only_for_served_clicks:
  assumes "initial s0" and "(step web)\<^sup>*\<^sup>* s0 s"
  shows "conversion_tokens (committed (sy_conn s)) \<subseteq> sy_issued s \<and> event_tokens (committed (sy_conn s)) \<subseteq> sy_issued s"
proof -
  from server.inv_reachable [OF assms] have "conn_ok (tokens_ok (sy_issued s)) (sy_conn s)" by (simp add: sys_inv_def)
  then show ?thesis by (auto simp: conn_ok_def tokens_ok_def committed_def split: option.split)
qed

theorem conversions_only_for_served_clicks_witness:
  "\<exists>s. (step sample_web)\<^sup>*\<^sup>* sample_system s \<and> s \<noteq> sample_system \<and> conversion_tokens (committed (sy_conn s)) \<subseteq> sy_issued s"
proof -
  let ?d = "dispatch sample_web sample_fs sample_entropy (\<lambda>_. 0) (sample_request ''/r/7'') ''::1'' sample_context"
  let ?s = "sample_system\<lparr> sy_http := snd ?d, sy_issued := issue (fst ?d) sample_entropy (sy_issued sample_system) \<rparr>"
  have reach: "(step sample_web)\<^sup>*\<^sup>* sample_system ?s" using sample_step by (rule r_into_rtranclp)
  have "rq_verb (sample_request ''/r/7'') = GetVerb" "in_int64 7"
    by (simp_all add: sample_request_def in_int64_def int64_min_def int64_max_def)
  note facts = dispatch_redirect(5) [OF this(1) sample_path this(2) refl sample_find, of sample_web sample_fs sample_entropy
      "\<lambda>_. 0" "''::1''" "fst ?d" "snd ?d"]
  then have "eq_pending (hc_events (snd ?d)) \<noteq> []"
    by (simp add: event_push_def sample_context_def new_event_queue_def)
  then have "?s \<noteq> sample_system"
    by (auto simp: sample_system_def sample_context_def new_event_queue_def)
  with conversions_only_for_served_clicks [OF sample_initial reach] reach show ?thesis by blast
qed

text \<open>
  \<^bold>\<open>C7.\<close> The accounting holds for the connections themselves. In every state the HTTP thread, with any number
  of connections accepted, answering, failing and closing in any order, and the database thread can
  reach: the run is one of the system, so that its invariants hold; every connection has answered its
  requests by \<open>dispatch\<close> one after the other, none after one that asked to close; each committed
  conversion is for a click token that was in the database at the start or is in a redirect answered
  on one of the connections; and when Beast does what it documents, everything a connection answered
  was handed to its socket with the status, the body and the target of the redirect unchanged.
\<close>

theorem connections_account_for_conversions:
  assumes "initial s0" and "(http_step web)\<^sup>*\<^sup>* (http_started bound, s0) (h, s)"
  shows "(step web)\<^sup>*\<^sup>* s0 s \<and> (\<forall>ss \<in> set (ht_sessions h). session_ok web ss) \<and>
    conversion_tokens (committed (sy_conn s)) \<subseteq>
      conversion_tokens (cn_db (sy_conn s0)) \<union> event_tokens (cn_db (sy_conn s0)) \<union> sent_tokens h \<and>
    (beast_ok web \<longrightarrow> (\<forall>ss \<in> set (ht_sessions h). \<forall>(req, en, res, out) \<in> set (ss_served ss).
       \<exists>r. out = Some r \<and> rs_status r = rs_status res \<and> rs_body r = rs_body res \<and>
         header_values r ''Location'' = header_values res ''Location''))"
proof -
  from http.inv_reachable [OF refl assms(2)] have run: "(step web)\<^sup>*\<^sup>* s0 s" and
    ok: "\<forall>ss \<in> set (ht_sessions h). session_ok web ss" and issued: "sy_issued s \<subseteq> sy_issued s0 \<union> sent_tokens h"
    by (simp_all add: thread_inv_def)
  from server.inv_reachable [OF assms(1) run] have "conn_ok (tokens_ok (sy_issued s)) (sy_conn s)" by (simp add: sys_inv_def)
  then have "conversion_tokens (committed (sy_conn s)) \<subseteq> sy_issued s"
    by (auto simp: conn_ok_def tokens_ok_def committed_def split: option.split)
  moreover have "\<forall>ss \<in> set (ht_sessions h). \<forall>(req, en, res, out) \<in> set (ss_served ss).
      \<exists>r. out = Some r \<and> rs_status r = rs_status res \<and> rs_body r = rs_body res \<and>
        header_values r ''Location'' = header_values res ''Location''" if "beast_ok web"
    using ok answer_handed [OF that] unfolding session_ok_def by blast
  ultimately show ?thesis using issued assms(1) run ok by (auto simp: initial_def)
qed

theorem connections_account_for_conversions_witness:
  "\<exists>h s. (http_step sample_web)\<^sup>*\<^sup>* (http_started True, sample_system) (h, s) \<and> length (ss_served (ht_sessions h ! 0)) = 1 \<and>
     conversion_tokens (committed (sy_conn s)) \<subseteq>
       conversion_tokens (cn_db (sy_conn sample_system)) \<union> event_tokens (cn_db (sy_conn sample_system)) \<union> sent_tokens h"
proof -
  let ?h = "(http_started True)\<lparr> ht_sessions := [new_session None] \<rparr>" and ?req = "sample_request ''/r/7''"
  obtain res ctx where d: "dispatch sample_web sample_fs sample_entropy (\<lambda>_. 0) ?req
      (client_address ?req (ss_peer (ht_sessions ?h ! 0))) (sy_http sample_system) = (res, ctx)" by fastforce
  let ?h' = "go_on 0 (answered sample_web ?req sample_entropy res) ?h" and
    ?s = "sample_system\<lparr> sy_http := ctx, sy_issued := issue res sample_entropy (sy_issued sample_system) \<rparr>"
  have one: "http_step sample_web (http_started True, sample_system) (?h, sample_system)"
    using http_step.accepted [of "http_started True" sample_web sample_system None] by (simp add: http_started_def)
  have two: "http_step sample_web (?h, sample_system) (?h', ?s)"
    by (rule http_step.read_request [OF _ d]) (simp add: waits_def http_started_def new_session_def)
  have run: "(http_step sample_web)\<^sup>*\<^sup>* (http_started True, sample_system) (?h', ?s)"
    using one two by (rule converse_rtranclp_into_rtranclp [OF _ r_into_rtranclp])
  have "length (ss_served (ht_sessions ?h' ! 0)) = 1" by (simp add: go_on_def answered_def new_session_def)
  with run connections_account_for_conversions [OF sample_initial run] show ?thesis by blast
qed

text \<open>
  \<^bold>\<open>C5.\<close> What a visitor sees and what is stored stays consistent: in every reachable state
  the current snapshot is well formed, the event queue is within its capacity, the page
  cache holds at most 64 pages, the tables satisfy the schema's constraints (also those an open
  transaction would restore), and a feed request whose filters have no separator character is
  answered with the page rendered from the current snapshot.
\<close>

theorem reachable_service_sound:
  assumes "initial s0" and "(step web)\<^sup>*\<^sup>* s0 s" and "handle_feed web q (sy_http s) = (r, ctx')"
    and "CHR 0x1F \<notin> set (param_or q ''tag'' [])" and "CHR 0x1F \<notin> set (param_or q ''size'' [])"
  shows "catalog_wf (cp_obj (handle_get (hc_catalog (sy_http s)))) \<and>
    length (eq_pending (hc_events (sy_http s))) \<le> eq_max_pending (hc_events (sy_http s)) \<and>
    length (hc_feed_cache (sy_http s)) \<le> 64 \<and> db_wf (cn_db (sy_conn s)) \<and> db_wf (committed (sy_conn s)) \<and>
    r = (case fresh_page web (sy_http s) (cp_obj (handle_get (hc_catalog (sy_http s))))
           (param_or q ''tag'' []) (param_or q ''size'' []) (param_or q ''q'' []) of
           Inl e \<Rightarrow> Inl e | Inr html \<Rightarrow> Inr (make_response 200 html html_type))"
proof -
  from server.inv_reachable [OF assms(1,2)] have ok: "web_ok web (sy_http s)" and db: "conn_ok db_wf (sy_conn s)"
    by (simp_all add: sys_inv_def)
  from ok have inv: "cache_inv web (sy_http s)" "pointers_ok (sy_http s)" by (simp_all add: web_ok_def)
  from db have "db_wf (cn_db (sy_conn s))" "db_wf (committed (sy_conn s))"
    by (auto simp: conn_ok_def committed_def split: option.split)
  with ok inv handle_feed_fresh [OF inv assms(3-5)] show ?thesis
    by (simp add: web_ok_def event_queue_inv_def cache_inv_def kMaxCachedFeeds_def current_page_def)
qed

theorem reachable_service_sound_witness:
  "fst (handle_feed sample_web Map.empty (sy_http sample_system)) = Inr (make_response 200 ''page'' html_type)"
proof -
  let ?f = "handle_feed sample_web Map.empty (sy_http sample_system)"
  have "fst ?f = (case fresh_page sample_web (sy_http sample_system) (cp_obj (handle_get (hc_catalog (sy_http sample_system))))
      [] [] [] of Inl e \<Rightarrow> Inl e | Inr html \<Rightarrow> Inr (make_response 200 html html_type))"
    using reachable_service_sound [OF sample_initial rtranclp.rtrancl_refl, of sample_web Map.empty "fst ?f" "snd ?f"]
    by (simp add: param_or_def)
  also have "\<dots> = Inr (make_response 200 ''page'' html_type)"
    by (simp add: fresh_page_def tpl_render_def sample_web_def sample_system_def sample_context_def)
  finally show ?thesis .
qed

text \<open>
  \<^bold>\<open>C9.\<close> What the server stores fits. Whatever requests it gets, in every reachable state each row of the
  events table has an item id within \<open>int64_t\<close> and a position within \<open>int\<close>, if any, one of the event
  types and one of the three classes of user agents, and a hash of exactly sixteen bytes; and each
  conversion has a token, one of the three states and an amount within \<open>int64_t\<close>, if any. The same
  holds inside an open transaction.
\<close>

theorem stored_data_valid:
  assumes "lib_ok web" and "initial s0" and "rows_ok (cn_db (sy_conn s0))" and "(step web)\<^sup>*\<^sup>* s0 s"
  shows "rows_ok (committed (sy_conn s)) \<and> rows_ok (cn_db (sy_conn s))"
proof -
  have "data_inv web s" by (rule stored.inv_reachable [OF _ assms(4)]) (simp add: assms(1-3))
  then show ?thesis by (auto simp: data_inv_def conn_ok_def committed_def split: option.split)
qed

theorem stored_data_valid_witness:
  "\<exists>s. (step sample_web)\<^sup>*\<^sup>* quiet_system s \<and> db_events (committed (sy_conn s)) \<noteq> [] \<and> rows_ok (committed (sy_conn s))"
proof -
  obtain s where run: "(step sample_web)\<^sup>*\<^sup>* quiet_system s" and stored: "db_events (committed (sy_conn s)) \<noteq> []"
    using quiet_click_stored by blast
  have "lib_ok sample_web" "rows_ok (cn_db (sy_conn quiet_system))"
    by (auto simp: lib_ok_def sample_web_def toy_generichash_def in_int64_def int64_min_def int64_max_def
        rows_ok_def quiet_system_def opened_conn_def empty_database_def split: if_splits)
  from stored_data_valid [OF this(1) quiet_initial this(2) run] run stored show ?thesis by blast
qed

text \<open>
  \<^bold>\<open>C6.\<close> The step relation covers the worker's loop: a whole turn of \<open>run\<close> (refresh,
  flush, maintenance, with whatever fails in it) is a sequence of steps of the system, so what
  holds in every reachable state holds between and after the turns of the database thread.
\<close>

theorem worker_tick_refines_steps:
  assumes "fresh_addr (sy_http (joined ctx w T)) (tk_addr t)"
  shows "(step web)\<^sup>*\<^sup>* (joined ctx w T) (joined ctx (run_tick faults cfg t w) T)"
proof -
  note one = refresh_steps [OF assms, where web = web and faults = faults and cfg = cfg]
  note two = flush_steps [where web = web and ctx = ctx and w = "run_refresh faults cfg t w" and T = T and faults = faults]
  note three = maintenance_steps [where web = web and ctx = ctx and T = T and faults = faults and cfg = cfg and t = t
      and w = "logged (flush faults) (run_refresh faults cfg t w)"]
  show ?thesis unfolding run_tick_def by (rule rtranclp_trans [OF rtranclp_trans [OF one two] three])
qed

theorem worker_tick_refines_steps_witness:
  "(step sample_web)\<^sup>*\<^sup>* (joined sample_context (sample_worker stocked_database) {})
     (joined sample_context (run_tick (\<lambda>_. NoFault) config_default
        \<lparr> tk_loop_start = 0, tk_built_at = 0, tk_now = 0, tk_addr = 5 \<rparr> (sample_worker stocked_database)) {})"
  by (rule worker_tick_refines_steps)
    (simp add: fresh_addr_def joined_def sample_worker_def start_worker_def handle_get_def sample_context_def)

end
